(* ===== verification/Prelude.thy ===== *)
theory Prelude
  imports Main "HOL-Library.Multiset"
begin

text \<open>
  Shared vocabulary of the development: instants and durations, 64-bit
  arithmetic, cancellable contexts, decimal text, and generic list lemmas.

  An instant of Go's \<open>time.Time\<close> is an integer number of nanoseconds since the
  zero time (midnight, 1 January of year 1, UTC), so \<open>time.Time{}\<close> is \<open>0\<close>
  and \<open>IsZero\<close> is equality with \<open>0\<close>. A \<open>time.Duration\<close> is an integer
  number of nanoseconds; where the code multiplies an untrusted number the
  64-bit wrap-around is written out with \<open>wrap64\<close>.
\<close>

section \<open>Time\<close>

type_synonym time = int
type_synonym dur = int

named_theorems unit_defs \<open>durations as numerals\<close>

definition zero_time :: time where
  "zero_time = 0"

definition millisecond :: dur where
  [unit_defs]: "millisecond = 1000000"

definition second :: dur where
  [unit_defs]: "second = 1000000000"

definition minute :: dur where
  [unit_defs]: "minute = 60000000000"

definition day_dur :: dur where
  [unit_defs]: "day_dur = 86400000000000"

section \<open>64-bit integers\<close>

text \<open>Two's complement wrap-around of Go's \<open>int\<close>, \<open>int64\<close> and \<open>time.Duration\<close>.\<close>

definition wrap64 :: "int \<Rightarrow> int" where
  "wrap64 n = (n + 2 ^ 63) mod 2 ^ 64 - 2 ^ 63"

definition int64_ok :: "int \<Rightarrow> bool" where
  "int64_ok n \<longleftrightarrow> - (2 ^ 63) \<le> n \<and> n < 2 ^ 63"

definition int4_ok :: "int \<Rightarrow> bool" where
  "int4_ok n \<longleftrightarrow> - (2 ^ 31) \<le> n \<and> n < 2 ^ 31"

lemma wrap64_id [simp]: "int64_ok n \<Longrightarrow> wrap64 n = n"
  by (simp add: wrap64_def int64_ok_def)

lemma wrap64_ok: "int64_ok (wrap64 n)"
proof -
  have "0 \<le> (n + 2 ^ 63) mod 2 ^ 64" "(n + 2 ^ 63) mod 2 ^ 64 < (2::int) ^ 64" by simp_all
  then show ?thesis unfolding wrap64_def int64_ok_def by simp
qed

text \<open>Subtraction of instants saturates at the range of a duration (\<open>Time.Sub\<close>).\<close>

definition sat64 :: "int \<Rightarrow> int" where
  "sat64 n = max (- (2 ^ 63)) (min (2 ^ 63 - 1) n)"

definition time_sub :: "time \<Rightarrow> time \<Rightarrow> dur" where
  "time_sub t u = sat64 (t - u)"

lemma sat64_pos_iff [simp]: "0 < sat64 n \<longleftrightarrow> 0 < n"
  by (auto simp: sat64_def)

lemma sat64_mono: "m \<le> n \<Longrightarrow> sat64 m \<le> sat64 n"
  by (auto simp: sat64_def)

lemma sat64_id [simp]: "int64_ok n \<Longrightarrow> sat64 n = n"
  by (auto simp: sat64_def int64_ok_def)

section \<open>Contexts\<close>

text \<open>
  A context is known by the instant at which it is cancelled, \<open>None\<close> when it
  never is. Every context of the program descends from the one that a signal
  cancels, so the only error \<open>ctx.Err()\<close> yields is \<open>context.Canceled\<close>.
\<close>

type_synonym ctx = "time option"

definition ctx_done :: "ctx \<Rightarrow> time \<Rightarrow> bool" where
  "ctx_done c now = (case c of None \<Rightarrow> False | Some t \<Rightarrow> t \<le> now)"

lemma ctx_done_simps [simp]:
  "ctx_done None now = False"
  "ctx_done (Some t) now = (t \<le> now)"
  by (simp_all add: ctx_done_def)

lemma ctx_done_mono: "ctx_done c t \<Longrightarrow> t \<le> u \<Longrightarrow> ctx_done c u"
  by (cases c) auto

text \<open>
  \<open>sleep\<close> of scheduler.go: whether the whole duration passed, and the instant
  at which the call returns. A timer fires exactly when it is due; a context that
  ends at that very instant counts as having ended first.
\<close>

definition sleep :: "ctx \<Rightarrow> dur \<Rightarrow> time \<Rightarrow> bool \<times> time" where
  "sleep c d now =
     (if d \<le> 0 then (True, now)
      else case c of
        None \<Rightarrow> (True, now + d)
      | Some t \<Rightarrow> if t \<le> now + d then (False, max now t) else (True, now + d))"

lemma sleep_time_mono: "now \<le> snd (sleep c d now)"
  by (auto simp: sleep_def split: option.splits)

lemma sleep_full: "fst (sleep c d now) \<Longrightarrow> snd (sleep c d now) = now + max 0 d"
  by (auto simp: sleep_def split: option.splits if_splits)

lemma sleep_cut: "\<not> fst (sleep c d now) \<Longrightarrow> ctx_done c (snd (sleep c d now))"
  by (auto simp: sleep_def split: option.splits if_splits)

section \<open>Decimal text\<close>

definition is_digit :: "char \<Rightarrow> bool" where
  "is_digit c \<longleftrightarrow> 48 \<le> (of_char c :: int) \<and> (of_char c :: int) \<le> 57"

definition digit_val :: "char \<Rightarrow> int" where
  "digit_val c = of_char c - 48"

fun digits_val :: "int \<Rightarrow> string \<Rightarrow> int option" where
  "digits_val acc [] = Some acc"
| "digits_val acc (c # cs) =
     (if is_digit c then digits_val (10 * acc + digit_val c) cs else None)"

text \<open>\<open>strconv.Atoi\<close>, and \<open>strconv.ParseInt\<close> in base 10 and 64 bits.\<close>

definition atoi :: "string \<Rightarrow> int option" where
  "atoi s =
     (let neg = (s \<noteq> [] \<and> hd s = CHR ''-'');
          ds = (if s \<noteq> [] \<and> (hd s = CHR ''-'' \<or> hd s = CHR ''+'') then tl s else s)
      in if ds = [] then None
         else case digits_val 0 ds of
           None \<Rightarrow> None
         | Some n \<Rightarrow> (let v = (if neg then - n else n) in if int64_ok v then Some v else None))"

definition digit_char :: "int \<Rightarrow> char" where
  "digit_char d = char_of (48 + d)"

function show_nat :: "int \<Rightarrow> string" where
  "show_nat n = (if n < 10 then [digit_char (max 0 n)] else show_nat (n div 10) @ [digit_char (n mod 10)])"
  by pat_completeness auto
termination
  by (relation "measure nat") auto

declare show_nat.simps [simp del]

text \<open>The verb \<open>%d\<close>.\<close>

definition show_int :: "int \<Rightarrow> string" where
  "show_int n = (if n < 0 then CHR ''-'' # show_nat (- n) else show_nat n)"

text \<open>The verb \<open>%q\<close>, on a text with nothing in it to escape, as column names are.\<close>

definition quoted :: "string \<Rightarrow> string" where
  "quoted c = CHR 0x22 # c @ [CHR 0x22]"

lemma of_char_digit_char: "0 \<le> d \<Longrightarrow> d < 10 \<Longrightarrow> (of_char (digit_char d) :: int) = 48 + d"
  by (simp add: digit_char_def of_char_of)

lemma digit_char_props:
  assumes "0 \<le> d" "d < 10"
  shows "is_digit (digit_char d)" "digit_val (digit_char d) = d"
  using assms by (simp_all add: is_digit_def digit_val_def of_char_digit_char)

lemma digits_val_append:
  "digits_val acc (xs @ ys) = (case digits_val acc xs of None \<Rightarrow> None | Some a \<Rightarrow> digits_val a ys)"
  by (induction xs arbitrary: acc) auto

lemma digits_val_show_nat: "0 \<le> n \<Longrightarrow> digits_val 0 (show_nat n) = Some n"
proof (induction n rule: show_nat.induct)
  case (1 n)
  show ?case
  proof (cases "n < 10")
    case True
    with "1.prems" show ?thesis by (simp add: show_nat.simps [of n] digit_char_props)
  next
    case False
    with "1.IH" have "digits_val 0 (show_nat (n div 10)) = Some (n div 10)" by simp
    moreover have "10 * (n div 10) + n mod 10 = n" by simp
    ultimately show ?thesis
      using False by (simp add: show_nat.simps [of n] digits_val_append digit_char_props)
  qed
qed

lemma show_nat_digits: "\<forall>c \<in> set (show_nat n). is_digit c"
proof (induction n rule: show_nat.induct)
  case (1 n)
  show ?case
  proof (cases "n < 10")
    case True
    then show ?thesis by (auto simp: show_nat.simps [of n] intro!: digit_char_props)
  next
    case False
    with "1.IH" show ?thesis by (auto simp: show_nat.simps [of n] digit_char_props)
  qed
qed

lemma show_nat_nonempty [simp]: "show_nat n \<noteq> []"
  by (subst show_nat.simps) simp

lemma show_nat_no_sign: "hd (show_nat n) \<noteq> CHR ''-''" "hd (show_nat n) \<noteq> CHR ''+''"
proof -
  have "is_digit (hd (show_nat n))" using show_nat_digits [of n] by simp
  then show "hd (show_nat n) \<noteq> CHR ''-''" "hd (show_nat n) \<noteq> CHR ''+''"
    by (auto simp: is_digit_def)
qed

lemma atoi_show_int: "int64_ok n \<Longrightarrow> atoi (show_int n) = Some n"
  by (auto simp: atoi_def show_int_def Let_def digits_val_show_nat show_nat_no_sign)

lemma show_nat_inj: "0 \<le> m \<Longrightarrow> 0 \<le> n \<Longrightarrow> show_nat m = show_nat n \<Longrightarrow> m = n"
  using digits_val_show_nat by (metis option.inject)

lemma show_int_inj: "show_int m = show_int n \<Longrightarrow> m = n"
proof (cases "m < 0"; cases "n < 0")
  assume eq: "show_int m = show_int n"
  { assume "m < 0" "n < 0" then show "m = n"
      using eq show_nat_inj [of "- m" "- n"] by (simp add: show_int_def) }
  { assume "\<not> m < 0" "\<not> n < 0" then show "m = n"
      using eq show_nat_inj [of m n] by (simp add: show_int_def) }
  { assume "m < 0" "\<not> n < 0" then show "m = n"
      using eq show_nat_no_sign(1) [of n] by (metis list.sel(1) show_int_def) }
  { assume "\<not> m < 0" "n < 0" then show "m = n"
      using eq show_nat_no_sign(1) [of m] by (metis list.sel(1) show_int_def) }
qed

section \<open>Sums over a function updated at one point\<close>

lemma sum_fun_upd_in:
  fixes F :: "'b \<Rightarrow> 'c::comm_monoid_add"
  assumes "finite A" "p \<in> A"
  shows "(\<Sum>q\<in>A. F ((f(p := v)) q)) + F (f p) = (\<Sum>q\<in>A. F (f q)) + F v"
proof -
  have "(\<Sum>q\<in>A. F ((f(p := v)) q)) = F v + (\<Sum>q\<in>A - {p}. F (f q))"
    using assms by (simp add: sum.remove [of A p])
  moreover have "(\<Sum>q\<in>A. F (f q)) = F (f p) + (\<Sum>q\<in>A - {p}. F (f q))"
    using assms by (simp add: sum.remove [of A p])
  ultimately show ?thesis by (simp add: ac_simps)
qed

lemma sum_fun_upd_out: "p \<notin> A \<Longrightarrow> (\<Sum>q\<in>A. F ((f(p := v)) q)) = (\<Sum>q\<in>A. F (f q))"
  by (rule sum.cong) auto

lemma sum_list_upto: "sum_list (map F [i..j]) = (\<Sum>p\<in>{i..j}. F p)"
  by (simp add: sum_list_distinct_conv_sum_set)

section \<open>Lists\<close>

lemma map_of_key_distinct:
  "distinct (map f xs) \<Longrightarrow> x \<in> set xs \<Longrightarrow> y \<in> set xs \<Longrightarrow> f x = f y \<Longrightarrow> x = y"
  by (induction xs) (auto simp: image_iff)

lemma filter_key_singleton:
  "distinct (map f xs) \<Longrightarrow> x \<in> set xs \<Longrightarrow> filter (\<lambda>y. f y = f x) xs = [x]"
proof (induction xs)
  case Nil
  then show ?case by simp
next
  case (Cons a xs)
  show ?case
  proof (cases "x = a")
    case True
    with Cons.prems have "filter (\<lambda>y. f y = f x) xs = []"
      by (auto simp: filter_empty_conv image_iff)
    with True show ?thesis by simp
  next
    case False
    with Cons show ?thesis by (auto simp: image_iff)
  qed
qed

end
