(* ===== verification/Esi_Errors.thy ===== *)
theory Esi_Errors
  imports Prelude
begin

text \<open>
  The error values of the program and internal/esi/errors.go.

  A Go error is a tree: \<open>fmt.Errorf("...%w...")\<close> and \<open>*url.Error\<close> wrap one
  error, \<open>errors.Join\<close> wraps several. \<open>errors.Is\<close> and \<open>errors.As\<close> walk
  that tree in preorder, depth first; \<open>errors.As\<close> stops at the first node that
  matches, which matters as soon as errors are joined.
\<close>

record http_error =
  he_status :: int
  he_retry_after :: dur
  he_remain :: int
  he_reset :: dur
  he_has_limit :: bool

datatype gerr =
    EHttp http_error            \<comment> \<open>\<open>*esi.HTTPError\<close>\<close>
  | ECanceled                   \<comment> \<open>\<open>context.Canceled\<close>\<close>
  | EDeadline                   \<comment> \<open>\<open>context.DeadlineExceeded\<close>, which is also a \<open>net.Error\<close>\<close>
  | ENet string                 \<comment> \<open>any other value that implements \<open>net.Error\<close>\<close>
  | EText string                \<comment> \<open>a plain error: \<open>errors.New\<close>, a decoding or a database error\<close>
  | EDeferred string            \<comment> \<open>\<open>*ingest.ErrDeferred\<close> with its reason\<close>
  | EInconsistent               \<comment> \<open>the sentinel \<open>ingest.ErrInconsistentPageSet\<close>\<close>
  | EDayNotFound                \<comment> \<open>the sentinel \<open>everef.ErrDayNotFound\<close>\<close>
  | EUrl gerr                   \<comment> \<open>\<open>*url.Error\<close>, a \<open>net.Error\<close> around the cause\<close>
  | EWrap string gerr string    \<comment> \<open>\<open>fmt.Errorf\<close>: text before and after the \<open>%w\<close>\<close>
  | EJoin "gerr list"           \<comment> \<open>\<open>errors.Join\<close> of the non-nil arguments\<close>

text \<open>\<open>errors.As\<close>: the first node in preorder that the target accepts.\<close>

fun err_as :: "(gerr \<Rightarrow> 'a option) \<Rightarrow> gerr \<Rightarrow> 'a option"
  and err_as_list :: "(gerr \<Rightarrow> 'a option) \<Rightarrow> gerr list \<Rightarrow> 'a option" where
  "err_as f e =
     (case f e of
        Some a \<Rightarrow> Some a
      | None \<Rightarrow>
          (case e of
             EUrl x \<Rightarrow> err_as f x
           | EWrap pre x post \<Rightarrow> err_as f x
           | EJoin xs \<Rightarrow> err_as_list f xs
           | _ \<Rightarrow> None))"
| "err_as_list f [] = None"
| "err_as_list f (x # xs) = (case err_as f x of Some a \<Rightarrow> Some a | None \<Rightarrow> err_as_list f xs)"

declare err_as.simps [simp del]

text \<open>\<open>errors.Is\<close> with a sentinel.\<close>

definition err_is :: "gerr \<Rightarrow> gerr \<Rightarrow> bool" where
  "err_is e target \<longleftrightarrow> err_as (\<lambda>x. if x = target then Some () else None) e \<noteq> None"

fun http_node :: "gerr \<Rightarrow> http_error option" where
  "http_node (EHttp he) = Some he"
| "http_node _ = None"

fun deferred_node :: "gerr \<Rightarrow> string option" where
  "deferred_node (EDeferred s) = Some s"
| "deferred_node _ = None"

fun net_node :: "gerr \<Rightarrow> unit option" where
  "net_node EDeadline = Some ()"
| "net_node (ENet s) = Some ()"
| "net_node (EUrl e) = Some ()"
| "net_node _ = None"

definition as_http :: "gerr \<Rightarrow> http_error option" where
  "as_http = err_as http_node"

definition as_deferred :: "gerr \<Rightarrow> string option" where
  "as_deferred = err_as deferred_node"

definition as_net :: "gerr \<Rightarrow> bool" where
  "as_net e \<longleftrightarrow> err_as net_node e \<noteq> None"

text \<open>\<open>errors.Join(a, b)\<close>: \<open>nil\<close> when both are.\<close>

definition join2 :: "gerr option \<Rightarrow> gerr option \<Rightarrow> gerr option" where
  "join2 a b =
     (case (a, b) of
        (None, None) \<Rightarrow> None
      | (Some x, None) \<Rightarrow> Some (EJoin [x])
      | (None, Some y) \<Rightarrow> Some (EJoin [y])
      | (Some x, Some y) \<Rightarrow> Some (EJoin [x, y]))"

section \<open>Responses that are errors\<close>

text \<open>
  The headers of a response, read as \<open>resp.Header.Get\<close> reads them: the empty
  string stands for a header that is absent.
\<close>

type_synonym headers = "string \<Rightarrow> string"

definition StatusErrorLimited :: int where
  "StatusErrorLimited = 420"

text \<open>The number in a header, when it is present and parses.\<close>

definition header_int :: "headers \<Rightarrow> string \<Rightarrow> int option" where
  "header_int h k = (if h k = [] then None else atoi (h k))"

definition new_http_error :: "int \<Rightarrow> headers \<Rightarrow> http_error" where
  "new_http_error status h =
     (let e0 = \<lparr>he_status = status, he_retry_after = 0, he_remain = 0, he_reset = 0, he_has_limit = False\<rparr>;
          e1 = (case header_int h ''Retry-After'' of
                  None \<Rightarrow> e0
                | Some n \<Rightarrow> e0\<lparr>he_retry_after := wrap64 (n * second)\<rparr>);
          e2 = (case header_int h ''X-ESI-Error-Limit-Remain'' of
                  None \<Rightarrow> e1
                | Some n \<Rightarrow> e1\<lparr>he_remain := n, he_has_limit := True\<rparr>);
          e3 = (case header_int h ''X-ESI-Error-Limit-Reset'' of
                  None \<Rightarrow> e2
                | Some n \<Rightarrow> e2\<lparr>he_reset := wrap64 (n * second)\<rparr>)
      in e3)"

definition is_rate_limited :: "gerr \<Rightarrow> bool" where
  "is_rate_limited e = (case as_http e of None \<Rightarrow> False | Some he \<Rightarrow> he_status he = 429)"

definition is_error_limited :: "gerr \<Rightarrow> bool" where
  "is_error_limited e = (case as_http e of None \<Rightarrow> False | Some he \<Rightarrow> he_status he = StatusErrorLimited)"

definition is_server_error :: "gerr \<Rightarrow> bool" where
  "is_server_error e = (case as_http e of None \<Rightarrow> False | Some he \<Rightarrow> 500 \<le> he_status he)"

definition token_cost :: "int \<Rightarrow> int" where
  "token_cost status =
     (if status = 304 then 1
      else if 200 \<le> status \<and> status < 300 then 2
      else if 300 \<le> status \<and> status < 400 then 1
      else if 400 \<le> status \<and> status < 500 then 5
      else 0)"

section \<open>Facts about error trees\<close>

lemma err_as_leaf [simp]:
  "err_as f (EHttp he) = f (EHttp he)"
  "err_as f ECanceled = f ECanceled"
  "err_as f EDeadline = f EDeadline"
  "err_as f (ENet s) = f (ENet s)"
  "err_as f (EText s) = f (EText s)"
  "err_as f (EDeferred s) = f (EDeferred s)"
  "err_as f EInconsistent = f EInconsistent"
  "err_as f EDayNotFound = f EDayNotFound"
  by (simp_all add: err_as.simps split: option.splits)

lemma err_as_node [simp]:
  "err_as f (EUrl e) = (case f (EUrl e) of Some a \<Rightarrow> Some a | None \<Rightarrow> err_as f e)"
  "err_as f (EWrap s e t) = (case f (EWrap s e t) of Some a \<Rightarrow> Some a | None \<Rightarrow> err_as f e)"
  "err_as f (EJoin es) = (case f (EJoin es) of Some a \<Rightarrow> Some a | None \<Rightarrow> err_as_list f es)"
  by (simp_all add: err_as.simps split: option.splits)

lemma err_as_list_simps [simp]:
  "err_as_list f [] = None"
  "err_as_list f (x # xs) = (case err_as f x of Some a \<Rightarrow> Some a | None \<Rightarrow> err_as_list f xs)"
  by (simp_all add: err_as.simps)

lemma as_http_simps [simp]:
  "as_http (EHttp he) = Some he"
  "as_http ECanceled = None" "as_http EDeadline = None" "as_http (ENet s) = None"
  "as_http (EText s) = None" "as_http (EDeferred s) = None" "as_http EInconsistent = None"
  "as_http EDayNotFound = None"
  "as_http (EUrl e) = as_http e"
  "as_http (EWrap s e t) = as_http e"
  by (simp_all add: as_http_def)

lemma as_deferred_simps [simp]:
  "as_deferred (EDeferred s) = Some s"
  "as_deferred ECanceled = None" "as_deferred EDeadline = None" "as_deferred (ENet s) = None"
  "as_deferred (EText s) = None" "as_deferred (EHttp he) = None" "as_deferred EInconsistent = None"
  "as_deferred EDayNotFound = None"
  "as_deferred (EUrl e) = as_deferred e"
  "as_deferred (EWrap s e t) = as_deferred e"
  "as_deferred (EJoin []) = None"
  "as_deferred (EJoin (e # es)) =
     (case as_deferred e of Some s \<Rightarrow> Some s | None \<Rightarrow> as_deferred (EJoin es))"
  by (simp_all add: as_deferred_def split: option.split)

lemma err_is_simps [simp]:
  "err_is (EUrl e) EInconsistent = err_is e EInconsistent"
  "err_is (EWrap s e t) EInconsistent = err_is e EInconsistent"
  "err_is EInconsistent EInconsistent"
  "\<not> err_is (EText s) EInconsistent"
  "\<not> err_is (EDeferred s) EInconsistent"
  "\<not> err_is (EHttp he) EInconsistent"
  "\<not> err_is ECanceled EInconsistent"
  "\<not> err_is (EJoin []) EInconsistent"
  "err_is (EJoin (e # es)) EInconsistent \<longleftrightarrow> err_is e EInconsistent \<or> err_is (EJoin es) EInconsistent"
  by (simp_all add: err_is_def split: option.splits)

lemma new_http_error_status [simp]: "he_status (new_http_error s h) = s"
  by (simp add: new_http_error_def Let_def split: option.splits)

lemma new_http_error_limit [simp]:
  "he_has_limit (new_http_error s h) \<longleftrightarrow> header_int h ''X-ESI-Error-Limit-Remain'' \<noteq> None"
  by (simp add: new_http_error_def Let_def split: option.splits)

lemma token_cost_bounds: "0 \<le> token_cost s \<and> token_cost s \<le> 5"
  by (simp add: token_cost_def)

text \<open>A server error is free of tokens, a rate limited or error limited response is not.\<close>

lemma token_cost_classes:
  "500 \<le> s \<Longrightarrow> token_cost s = 0"
  "token_cost 429 = 5"
  "token_cost StatusErrorLimited = 5"
  "token_cost 200 = 2"
  by (simp_all add: token_cost_def StatusErrorLimited_def)

lemma join2_simps [simp]:
  "join2 None None = None"
  "(join2 a b = None) = (a = None \<and> b = None)"
  by (auto simp: join2_def split: option.splits)

section \<open>Messages\<close>

text \<open>
  \<open>err.Error()\<close>. Two texts belong to the standard library and are parameters: how a
  duration prints, and what a \<open>*url.Error\<close> puts before its cause.
\<close>

record err_texts =
  et_dur :: "dur \<Rightarrow> string"
  et_url :: string

fun err_msg :: "err_texts \<Rightarrow> gerr \<Rightarrow> string"
  and err_msgs :: "err_texts \<Rightarrow> gerr list \<Rightarrow> string" where
  "err_msg t (EHttp he) =
     (if 0 < he_retry_after he
      then ''esi: http '' @ show_int (he_status he) @ '' (retry after '' @ et_dur t (he_retry_after he) @ '')''
      else ''esi: http '' @ show_int (he_status he))"
| "err_msg t ECanceled = ''context canceled''"
| "err_msg t EDeadline = ''context deadline exceeded''"
| "err_msg t (ENet s) = s"
| "err_msg t (EText s) = s"
| "err_msg t (EDeferred s) = ''ingest: deferred: '' @ s"
| "err_msg t EInconsistent = ''ingest: page set is inconsistent''"
| "err_msg t EDayNotFound = ''everef: day file not found''"
| "err_msg t (EUrl e) = et_url t @ err_msg t e"
| "err_msg t (EWrap pre e post) = pre @ err_msg t e @ post"
| "err_msg t (EJoin es) = err_msgs t es"
| "err_msgs t [] = []"
| "err_msgs t [e] = err_msg t e"
| "err_msgs t (e # es) = err_msg t e @ char_of (10::nat) # err_msgs t es"

end
