(* ===== verification/Budget.thy ===== *)
theory Budget
  imports Prelude
begin

text \<open>
  internal/esi/budget.go: the market-order token bucket as the last value of the
  header \<open>X-Ratelimit-Remaining\<close>. Each method runs under the mutex, so each is
  one atomic function of the state.
\<close>

record budget =
  bg_remaining :: int
  bg_known :: bool

definition budget_init :: budget where
  "budget_init = \<lparr>bg_remaining = 0, bg_known = False\<rparr>"

definition budget_observe :: "int \<Rightarrow> budget \<Rightarrow> budget" where
  "budget_observe n b = b\<lparr>bg_remaining := n, bg_known := True\<rparr>"

definition budget_remaining :: "budget \<Rightarrow> int \<times> bool" where
  "budget_remaining b = (bg_remaining b, bg_known b)"

definition budget_fits :: "int \<Rightarrow> int \<Rightarrow> budget \<Rightarrow> bool" where
  "budget_fits cost reserve b =
     (if \<not> bg_known b then True else reserve \<le> wrap64 (bg_remaining b - cost))"

definition below_floor :: "int \<Rightarrow> budget \<Rightarrow> bool" where
  "below_floor floor b \<longleftrightarrow> bg_known b \<and> bg_remaining b < floor"

lemma budget_observe_simps [simp]:
  "bg_remaining (budget_observe n b) = n"
  "bg_known (budget_observe n b)"
  by (simp_all add: budget_observe_def)

lemma below_floor_unknown [simp]: "\<not> below_floor floor budget_init"
  by (simp add: below_floor_def budget_init_def)

text \<open>
  Spending what the governor allowed keeps the reserve, and with the reserve at
  least the floor it never stops the fetcher.
\<close>

lemma budget_fits_keeps_reserve:
  assumes "bg_known b" "budget_fits cost reserve b" "int64_ok (bg_remaining b - cost)"
  shows "reserve \<le> bg_remaining b - cost"
  using assms by (simp add: budget_fits_def)

lemma budget_fits_above_floor:
  assumes "bg_known b" "budget_fits cost reserve b" "int64_ok (bg_remaining b - cost)"
    "floor \<le> reserve"
  shows "\<not> below_floor floor (budget_observe (bg_remaining b - cost) b)"
  using budget_fits_keeps_reserve [OF assms(1-3)] assms(4) by (simp add: below_floor_def)

end
