(* ===== verification/Deadline_Gate.thy ===== *)
theory Deadline_Gate
  imports Prelude
begin

text \<open>
  The contract that the two stop gates of internal/esi share: a gate holds an
  instant until which work stops, an operation that only ever moves that instant
  forward, and a query for the time left. The legacy error limit and the outage
  pause both provide it; the scheduler relies on nothing else of them.
\<close>

locale deadline_gate =
  fixes until :: "'g \<Rightarrow> time"
    and extend :: "time \<Rightarrow> dur \<Rightarrow> 'g \<Rightarrow> 'g"
    and time_left :: "time \<Rightarrow> 'g \<Rightarrow> dur"
  assumes until_extend: "until (extend now d g) = max (until g) (now + d)"
    and time_left_eq: "time_left now g = max 0 (time_sub (until g) now)"
begin

lemma left_nonneg: "0 \<le> time_left now g"
  by (simp add: time_left_eq)

lemma left_pos_iff: "0 < time_left now g \<longleftrightarrow> now < until g"
  by (simp add: time_left_eq time_sub_def less_max_iff_disj)

lemma left_zero_iff: "time_left now g = 0 \<longleftrightarrow> until g \<le> now"
  using left_nonneg [of now g] left_pos_iff [of now g] by auto

text \<open>A later, shorter deadline never cuts an earlier, longer one short.\<close>

lemma extend_never_shortens: "time_left t g \<le> time_left t (extend now d g)"
  unfolding time_left_eq until_extend time_sub_def
  by (rule max.mono [OF order_refl sat64_mono]) simp

lemma extend_arms: "0 < d \<Longrightarrow> 0 < time_left now (extend now d g)"
  by (simp add: left_pos_iff until_extend)

text \<open>Time alone opens the gate, and it stays open.\<close>

lemma left_antimono: "now \<le> now' \<Longrightarrow> time_left now' g \<le> time_left now g"
  unfolding time_left_eq time_sub_def
  by (rule max.mono [OF order_refl sat64_mono]) simp

lemma left_expires: "until g \<le> now \<Longrightarrow> now \<le> now' \<Longrightarrow> time_left now' g = 0"
  by (simp add: left_zero_iff)

text \<open>Waiting for the time that is left opens the gate.\<close>

lemma wait_out: "int64_ok (until g - now) \<Longrightarrow> time_left (now + time_left now g) g = 0"
  by (simp add: left_zero_iff) (simp add: time_left_eq time_sub_def)

end

end
