(* ===== verification/Error_Limit.thy ===== *)
theory Error_Limit
  imports Deadline_Gate
begin

text \<open>
  internal/esi/errorlimit.go: the legacy per-IP error limit. \<open>el_observe\<close> and
  \<open>el_block\<close> take the instant at which they run, which the code reads from the
  clock inside \<open>resetAt\<close>.
\<close>

record error_limit =
  el_remain :: int
  el_known :: bool
  el_blocked_until :: time

definition el_init :: error_limit where
  "el_init = \<lparr>el_remain = 0, el_known = False, el_blocked_until = zero_time\<rparr>"

definition el_reset_at :: "time \<Rightarrow> dur \<Rightarrow> error_limit \<Rightarrow> error_limit" where
  "el_reset_at now d e =
     (let until = now + d
      in if el_blocked_until e < until then e\<lparr>el_blocked_until := until\<rparr> else e)"

definition el_observe :: "time \<Rightarrow> int \<Rightarrow> dur \<Rightarrow> error_limit \<Rightarrow> error_limit" where
  "el_observe now remain reset e =
     (let e1 = e\<lparr>el_remain := remain, el_known := True\<rparr>
      in if 0 < reset then el_reset_at now reset e1 else e1)"

definition el_block :: "time \<Rightarrow> dur \<Rightarrow> error_limit \<Rightarrow> error_limit" where
  "el_block now d e = el_reset_at now (if d \<le> 0 then minute else d) e"

definition el_blocked_for :: "time \<Rightarrow> error_limit \<Rightarrow> dur" where
  "el_blocked_for now e =
     (let d = time_sub (el_blocked_until e) now in if 0 < d then d else 0)"

definition el_healthy :: "int \<Rightarrow> error_limit \<Rightarrow> bool" where
  "el_healthy floor e = (if \<not> el_known e then True else floor < el_remain e)"

interpretation elg: deadline_gate el_blocked_until el_reset_at el_blocked_for
  by unfold_locales (auto simp: el_reset_at_def el_blocked_for_def Let_def max_def)

lemma el_reset_at_budget [simp]:
  "el_remain (el_reset_at now d e) = el_remain e"
  "el_known (el_reset_at now d e) = el_known e"
  by (simp_all add: el_reset_at_def Let_def)

lemma el_observe_budget [simp]:
  "el_remain (el_observe now n r e) = n"
  "el_known (el_observe now n r e)"
  by (simp_all add: el_observe_def Let_def)

lemma el_observe_until:
  "el_blocked_until (el_observe now n r e) = (if 0 < r then max (el_blocked_until e) (now + r) else el_blocked_until e)"
  by (simp add: el_observe_def Let_def elg.until_extend)

text \<open>Every operation keeps or extends the block.\<close>

lemma el_observe_never_shortens: "el_blocked_for t e \<le> el_blocked_for t (el_observe now n r e)"
  unfolding elg.time_left_eq el_observe_until time_sub_def
  by (rule max.mono [OF order_refl sat64_mono]) simp

lemma el_block_never_shortens: "el_blocked_for t e \<le> el_blocked_for t (el_block now d e)"
  unfolding el_block_def by (rule elg.extend_never_shortens)

lemma el_block_arms: "0 < el_blocked_for now (el_block now d e)"
  unfolding el_block_def by (rule elg.extend_arms) (simp add: minute_def)

lemma el_unknown_healthy: "el_healthy floor el_init"
  by (simp add: el_healthy_def el_init_def)

end
