(* ===== verification/Outage.thy ===== *)
theory Outage
  imports Deadline_Gate
begin

text \<open>
  internal/esi/outage.go: the pause while the upstream answers 5xx.
  \<open>og_arm\<close> is the last statement of \<open>Observe\<close>, which only ever extends.
\<close>

record outage =
  og_consecutive :: int
  og_paused_until :: time

definition outage_init :: outage where
  "outage_init = \<lparr>og_consecutive = 0, og_paused_until = zero_time\<rparr>"

definition outage_threshold :: int where
  "outage_threshold = 2"

definition default_outage_pause :: dur where
  "default_outage_pause = minute"

definition og_arm :: "time \<Rightarrow> dur \<Rightarrow> outage \<Rightarrow> outage" where
  "og_arm now d g =
     (let until = now + d
      in if og_paused_until g < until then g\<lparr>og_paused_until := until\<rparr> else g)"

definition outage_observe :: "time \<Rightarrow> int \<Rightarrow> dur \<Rightarrow> outage \<Rightarrow> outage" where
  "outage_observe now status retry_after g =
     (if status < 500 then g\<lparr>og_consecutive := 0, og_paused_until := zero_time\<rparr>
      else
        let g1 = g\<lparr>og_consecutive := og_consecutive g + 1\<rparr>
        in if og_consecutive g1 < outage_threshold then g1
           else og_arm now (if retry_after \<le> 0 then default_outage_pause else retry_after) g1)"

definition paused_for :: "time \<Rightarrow> outage \<Rightarrow> dur" where
  "paused_for now g =
     (let d = time_sub (og_paused_until g) now in if 0 < d then d else 0)"

interpretation ogg: deadline_gate og_paused_until og_arm paused_for
  by unfold_locales (auto simp: og_arm_def paused_for_def Let_def max_def)

text \<open>The state after a list of observed responses, each at its own instant.\<close>

fun outage_run :: "(time \<times> int \<times> dur) list \<Rightarrow> outage \<Rightarrow> outage" where
  "outage_run [] g = g"
| "outage_run ((t, s, ra) # os) g = outage_run os (outage_observe t s ra g)"

lemma outage_run_append: "outage_run (xs @ ys) g = outage_run ys (outage_run xs g)"
  by (induction xs g rule: outage_run.induct) auto

lemma og_arm_consecutive [simp]: "og_consecutive (og_arm now d g) = og_consecutive g"
  by (simp add: og_arm_def Let_def)

lemma outage_observe_consecutive:
  "og_consecutive (outage_observe t s ra g) = (if s < 500 then 0 else og_consecutive g + 1)"
  by (simp add: outage_observe_def Let_def)

lemma outage_observe_clears: "s < 500 \<Longrightarrow> 0 \<le> now \<Longrightarrow> paused_for now (outage_observe t s ra g) = 0"
  by (simp add: ogg.left_zero_iff outage_observe_def zero_time_def)

text \<open>
  The invariant of the gate: it is armed only inside a run of at least two
  responses of status 500 or above.
\<close>

definition outage_inv :: "outage \<Rightarrow> bool" where
  "outage_inv g \<longleftrightarrow>
     0 \<le> og_consecutive g \<and> (og_consecutive g < outage_threshold \<longrightarrow> og_paused_until g = zero_time)"

lemma outage_inv_init: "outage_inv outage_init"
  by (simp add: outage_inv_def outage_init_def)

lemma outage_inv_observe: "outage_inv g \<Longrightarrow> outage_inv (outage_observe t s ra g)"
  by (auto simp: outage_inv_def outage_observe_def Let_def)

lemma outage_inv_run: "outage_inv g \<Longrightarrow> outage_inv (outage_run os g)"
  by (induction os g rule: outage_run.induct) (auto simp: outage_inv_observe)

text \<open>How long the current run of server errors is, read off the observations.\<close>

fun run_length :: "(time \<times> int \<times> dur) list \<Rightarrow> int" where
  "run_length os = int (length (takeWhile (\<lambda>(t, s, ra). 500 \<le> s) (rev os)))"

lemma run_length_snoc:
  "run_length (os @ [(t, s, ra)]) = (if s < 500 then 0 else run_length os + 1)"
  by simp

lemma outage_run_consecutive: "og_consecutive (outage_run os outage_init) = run_length os"
proof (induction os rule: rev_induct)
  case Nil
  then show ?case by (simp add: outage_init_def)
next
  case (snoc x os)
  obtain t s ra where x: "x = (t, s, ra)" by (cases x)
  show ?case
    unfolding x run_length_snoc outage_run_append
    by (simp add: outage_observe_consecutive snoc.IH del: run_length.simps)
qed

end
