(* ===== verification/Client.thy ===== *)
theory Client
  imports Esi_Errors Budget Error_Limit Outage
begin

text \<open>
  internal/esi/client.go and internal/esi/orders.go: one rate-limited GET, what it
  tells the three governors, and the order page built from it.

  What the network does with one request is an \<open>exchange\<close>: the time the call
  takes and its outcome. Two decoders of the standard library stay parameters, as
  a \<open>codec\<close>: the HTTP date and the JSON array of orders. Nothing proved depends
  on how they decode.
\<close>

section \<open>Data\<close>

record esi_order =
  eo_order_id :: int
  eo_type_id :: int
  eo_location_id :: int
  eo_system_id :: int
  eo_is_buy :: bool
  eo_price :: string
  eo_volume_remain :: int
  eo_volume_total :: int
  eo_min_volume :: int
  eo_duration :: int
  eo_range :: string
  eo_issued :: time

record order_page =
  pg_orders :: "esi_order list"
  pg_pages :: int
  pg_expires :: time
  pg_last_modified :: time
  pg_status :: int

record response =
  rs_status :: int
  rs_body :: string
  rs_pages :: int
  rs_expires :: time
  rs_last_modified :: time
  rs_remaining :: int

record codec =
  cd_http_time :: "string \<Rightarrow> time option"
  cd_orders :: "string \<Rightarrow> gerr + esi_order list"

datatype http_outcome =
    NotSent gerr                 \<comment> \<open>slot, limiter or request construction failed: nothing went out\<close>
  | DoFailed gerr                \<comment> \<open>\<open>http.Client.Do\<close> returned an error\<close>
  | BodyFailed gerr              \<comment> \<open>the response arrived, reading its body failed\<close>
  | Answered int headers string  \<comment> \<open>status, headers and body\<close>

record exchange =
  ex_wait :: dur
  ex_outcome :: http_outcome

text \<open>The three governors of a client, and the network as the client sees it.\<close>

record esi_client =
  ec_budget :: budget
  ec_elimit :: error_limit
  ec_outage :: outage

record net =
  nt_now :: time
  nt_esi :: esi_client
  nt_log :: "(string \<times> int option) list"  \<comment> \<open>requests sent: path, and the status that came back\<close>

definition esi_client_init :: esi_client where
  "esi_client_init = \<lparr>ec_budget = budget_init, ec_elimit = el_init, ec_outage = outage_init\<rparr>"

section \<open>get\<close>

definition max_page_bytes :: nat where
  "max_page_bytes = 33554432"

definition parse_http_time :: "codec \<Rightarrow> string \<Rightarrow> time" where
  "parse_http_time cd s =
     (if s = [] then zero_time else case cd_http_time cd s of None \<Rightarrow> zero_time | Some t \<Rightarrow> t)"

text \<open>The Go pair \<open>(r, err)\<close>: an error may come with the response that caused it.\<close>

datatype 'r fetched =
    Fetched 'r
  | FetchErr "'r option" gerr

text \<open>The response record, before the status is looked at.\<close>

definition read_response :: "codec \<Rightarrow> int \<Rightarrow> headers \<Rightarrow> string \<Rightarrow> response" where
  "read_response cd status h body =
     \<lparr>rs_status = status, rs_body = body,
      rs_pages = (case header_int h ''X-Pages'' of None \<Rightarrow> 1 | Some n \<Rightarrow> if 0 < n then n else 1),
      rs_expires = parse_http_time cd (h ''Expires''),
      rs_last_modified = parse_http_time cd (h ''Last-Modified''),
      rs_remaining = (case header_int h ''X-Ratelimit-Remaining'' of None \<Rightarrow> 0 | Some n \<Rightarrow> n)\<rparr>"

text \<open>What one complete response tells the governors, at instant \<open>now\<close>.\<close>

definition observe_response :: "time \<Rightarrow> int \<Rightarrow> headers \<Rightarrow> esi_client \<Rightarrow> esi_client" where
  "observe_response now status h c =
     (let c1 = (case header_int h ''X-Ratelimit-Remaining'' of
                  None \<Rightarrow> c
                | Some n \<Rightarrow> c\<lparr>ec_budget := budget_observe n (ec_budget c)\<rparr>);
          he = new_http_error status h
      in if status \<noteq> 200 then
           let c2 = (if he_has_limit he
                     then c1\<lparr>ec_elimit := el_observe now (he_remain he) (he_reset he) (ec_elimit c1)\<rparr>
                     else c1);
               c3 = (if he_status he = StatusErrorLimited
                     then c2\<lparr>ec_elimit := el_block now (he_reset he) (ec_elimit c2)\<rparr>
                     else c2)
           in c3\<lparr>ec_outage := outage_observe now (he_status he) (he_retry_after he) (ec_outage c3)\<rparr>
         else c1\<lparr>ec_outage := outage_observe now status 0 (ec_outage c1)\<rparr>)"

definition client_get :: "codec \<Rightarrow> exchange \<Rightarrow> string \<Rightarrow> net \<Rightarrow> response fetched \<times> net" where
  "client_get cd x path n =
     (let n1 = n\<lparr>nt_now := nt_now n + max 0 (ex_wait x)\<rparr>
      in case ex_outcome x of
           NotSent e \<Rightarrow> (FetchErr None e, n1)
         | DoFailed e \<Rightarrow> (FetchErr None e, n1\<lparr>nt_log := nt_log n @ [(path, None)]\<rparr>)
         | BodyFailed e \<Rightarrow>
             (FetchErr None (EWrap ''read body: '' e ''''), n1\<lparr>nt_log := nt_log n @ [(path, None)]\<rparr>)
         | Answered status h body \<Rightarrow>
             (let r = read_response cd status h (take max_page_bytes body);
                  n2 = n1\<lparr>nt_log := nt_log n @ [(path, Some status)],
                         nt_esi := observe_response (nt_now n1) status h (nt_esi n)\<rparr>
              in if status \<noteq> 200
                 then (FetchErr (Some r) (EHttp (new_http_error status h)), n2)
                 else (Fetched r, n2)))"

section \<open>OrdersPage\<close>

definition orders_path :: "int \<Rightarrow> int \<Rightarrow> string" where
  "orders_path region page = ''/markets/'' @ show_int region @ ''/orders?page='' @ show_int page"

definition page_of :: "response \<Rightarrow> esi_order list \<Rightarrow> order_page" where
  "page_of r os =
     \<lparr>pg_orders = os, pg_pages = rs_pages r, pg_expires = rs_expires r,
      pg_last_modified = rs_last_modified r, pg_status = rs_status r\<rparr>"

text \<open>\<open>getJSON\<close> into an order slice.\<close>

definition get_json :: "codec \<Rightarrow> exchange \<Rightarrow> string \<Rightarrow> net \<Rightarrow> (response \<times> esi_order list) fetched \<times> net" where
  "get_json cd x path n =
     (case client_get cd x path n of
        (FetchErr None e, n') \<Rightarrow> (FetchErr None e, n')
      | (FetchErr (Some r) e, n') \<Rightarrow> (FetchErr (Some (r, [])) e, n')
      | (Fetched r, n') \<Rightarrow>
          (case cd_orders cd (rs_body r) of
             Inl e \<Rightarrow> (FetchErr (Some (r, [])) (EWrap (''decode '' @ path @ '': '') e ''''), n')
           | Inr os \<Rightarrow> (Fetched (r, os), n')))"

definition client_orders_page ::
  "codec \<Rightarrow> exchange \<Rightarrow> int \<Rightarrow> int \<Rightarrow> net \<Rightarrow> order_page fetched \<times> net" where
  "client_orders_page cd x region page n =
     (case get_json cd x (orders_path region page) n of
        (FetchErr None e, n') \<Rightarrow> (FetchErr None e, n')
      | (FetchErr (Some (r, os)) e, n') \<Rightarrow> (FetchErr (Some (page_of r [])) e, n')
      | (Fetched (r, os), n') \<Rightarrow> (Fetched (page_of r os), n'))"

section \<open>Facts\<close>

lemma orders_path_inj: "orders_path r p = orders_path r' p' \<longleftrightarrow> r = r' \<and> p = p'"
proof
  assume eq: "orders_path r p = orders_path r' p'"
  have slash: "takeWhile (\<lambda>c. c \<noteq> CHR ''/'') (show_int m @ ''/'' @ rest) = show_int m" for m rest
  proof -
    have "\<forall>c \<in> set (show_int m). c \<noteq> CHR ''/''"
      using show_nat_digits [of m] show_nat_digits [of "- m"]
      by (auto simp: show_int_def is_digit_def)
    then show ?thesis by simp
  qed
  from eq have tails: "show_int r @ ''/orders?page='' @ show_int p = show_int r' @ ''/orders?page='' @ show_int p'"
    by (simp add: orders_path_def)
  then have "show_int r = show_int r'"
    using slash [of r "''orders?page='' @ show_int p"] slash [of r' "''orders?page='' @ show_int p'"]
    by simp
  with tails show "r = r' \<and> p = p'" by (auto dest: show_int_inj)
qed simp

text \<open>
  A server error that carries a page has a status, and that status is in the log.
\<close>

lemma client_get_time: "nt_now n \<le> nt_now (snd (client_get cd x path n))"
  by (simp add: client_get_def Let_def split: http_outcome.split)

lemma orders_page_net: "snd (client_orders_page cd x rg p n) = snd (client_get cd x (orders_path rg p) n)"
  by (simp add: client_orders_page_def get_json_def split: prod.split fetched.split option.split sum.split)

lemma orders_page_time: "nt_now n \<le> nt_now (snd (client_orders_page cd x rg p n))"
  by (simp add: orders_page_net client_get_time)

text \<open>What a call adds to the log, and what it costs.\<close>

definition log_cost :: "(string \<times> int option) list \<Rightarrow> int" where
  "log_cost l = sum_list (map (\<lambda>(path, st). case st of None \<Rightarrow> 0 | Some s \<Rightarrow> token_cost s) l)"

lemma log_cost_append [simp]: "log_cost (a @ b) = log_cost a + log_cost b"
  by (simp add: log_cost_def)

lemma log_cost_simps [simp]:
  "log_cost [] = 0"
  "log_cost [(q, None)] = 0"
  "log_cost [(q, Some s)] = token_cost s"
  by (simp_all add: log_cost_def)

text \<open>\<open>tokens += esi.TokenCost(p.Status)\<close> for a page that is not \<open>nil\<close>.\<close>

definition page_tokens :: "order_page fetched \<Rightarrow> int" where
  "page_tokens r = (case r of
      Fetched p \<Rightarrow> token_cost (pg_status p)
    | FetchErr (Some p) e \<Rightarrow> token_cost (pg_status p)
    | FetchErr None e \<Rightarrow> 0)"

lemma page_tokens_log:
  "log_cost (nt_log (snd (client_orders_page cd x rg p n))) =
   log_cost (nt_log n) + page_tokens (fst (client_orders_page cd x rg p n))"
  by (cases "ex_outcome x")
     (simp_all add: client_orders_page_def get_json_def client_get_def Let_def page_tokens_def
        page_of_def read_response_def split: sum.split)

lemma orders_page_log:
  "\<exists>new. nt_log (snd (client_orders_page cd x rg p n)) = nt_log n @ new \<and> length new \<le> 1 \<and>
         (\<forall>e \<in> set new. fst e = orders_path rg p)"
  by (cases "ex_outcome x")
     (simp_all add: orders_page_net client_get_def Let_def)

text \<open>A page comes back only with status 200 and with at least one page announced.\<close>

lemma orders_page_fetched:
  assumes "client_orders_page cd x rg p n = (Fetched pg, n')"
  shows "pg_status pg = 200" "1 \<le> pg_pages pg"
  using assms
  by (auto simp: client_orders_page_def get_json_def client_get_def Let_def page_of_def read_response_def
      split: http_outcome.splits if_splits sum.splits option.splits)

end
