(* ===== verification/Page.thy ===== *)
theory Page
  imports Client
begin

text \<open>
  internal/ingest/page.go: which page failures are worth another attempt, what
  suspends retries, and the retry loop \<open>fetchPage\<close>. The loop appears twice: as
  the function \<open>fetch_page\<close>, the code's text run without interruption, and as
  the steps of one goroutine (\<open>fetch_go\<close>, \<open>fetch_answer\<close>, \<open>fetch_decide\<close>,
  \<open>fetch_wake\<close>), between which other goroutines may run. The last section
  proves that the steps run back to back are the function.
\<close>

section \<open>Decisions\<close>

record fetcher =
  ft_reserve :: int
  ft_floor :: int
  ft_page_attempts :: int
  ft_error_limit_floor :: int
  ft_backoff_unit :: dur

definition retryable_page :: "gerr option \<Rightarrow> bool" where
  "retryable_page err =
     (case err of
        None \<Rightarrow> False
      | Some e \<Rightarrow>
          if is_error_limited e then False
          else if is_rate_limited e \<or> is_server_error e then True
          else if as_http e \<noteq> None then False
          else if err_is e EDeadline then True
          else as_net e)"

definition retries_blocked :: "time \<Rightarrow> esi_client \<Rightarrow> int \<Rightarrow> string" where
  "retries_blocked now c floor =
     (if 0 < paused_for now (ec_outage c) then ''upstream outage''
      else if \<not> el_healthy floor (ec_elimit c) then ''error budget low''
      else [])"

definition page_backoff :: "fetcher \<Rightarrow> int \<Rightarrow> gerr \<Rightarrow> dur" where
  "page_backoff f attempt e =
     (case as_http e of
        Some he \<Rightarrow> if 0 < he_retry_after he then he_retry_after he
                   else wrap64 (attempt * ft_backoff_unit f)
      | None \<Rightarrow> wrap64 (attempt * ft_backoff_unit f))"

text \<open>The two tests between a failed attempt and its backoff: may attempt \<open>k + 1\<close> follow?\<close>

definition may_retry :: "fetcher \<Rightarrow> bool \<Rightarrow> int \<Rightarrow> gerr \<Rightarrow> net \<Rightarrow> bool" where
  "may_retry f cancelled k e n \<longleftrightarrow>
     \<not> (\<not> retryable_page (Some e) \<or> k = ft_page_attempts f \<or> cancelled) \<and>
     retries_blocked (nt_now n) (nt_esi n) (ft_error_limit_floor f) = []"

section \<open>fetchPage\<close>

text \<open>
  The result is the Go triple: a page or \<open>nil\<close>, the tokens, an error or \<open>nil\<close>.
  \<open>xs k\<close> is what the network does with attempt \<open>k\<close>.
\<close>

function fetch_loop ::
  "codec \<Rightarrow> fetcher \<Rightarrow> ctx \<Rightarrow> int \<Rightarrow> int \<Rightarrow> (int \<Rightarrow> exchange) \<Rightarrow> int \<Rightarrow> int \<Rightarrow> gerr option \<Rightarrow> net
   \<Rightarrow> (order_page option \<times> int \<times> gerr option) \<times> net" where
  "fetch_loop cd f c rg page xs k tokens lerr n =
     (if ft_page_attempts f < k then ((None, tokens, lerr), n)
      else
        let (res, n1) = client_orders_page cd (xs k) rg page n;
            tokens1 = tokens + page_tokens res
        in case res of
             Fetched p \<Rightarrow> ((Some p, tokens1, None), n1)
           | FetchErr po e \<Rightarrow>
               if \<not> may_retry f (ctx_done c (nt_now n1)) k e n1 then ((None, tokens1, Some e), n1)
               else
                 let (slept, t) = sleep c (page_backoff f k e) (nt_now n1);
                     n2 = n1\<lparr>nt_now := t\<rparr>
                 in if \<not> slept then ((None, tokens1, Some e), n2)
                    else fetch_loop cd f c rg page xs (k + 1) tokens1 (Some e) n2)"
  by pat_completeness auto
termination
  by (relation "measure (\<lambda>(cd, f, c, rg, page, xs, k, tokens, last, n). nat (ft_page_attempts f + 1 - k))") auto

declare fetch_loop.simps [simp del]

definition fetch_page ::
  "codec \<Rightarrow> fetcher \<Rightarrow> ctx \<Rightarrow> int \<Rightarrow> int \<Rightarrow> (int \<Rightarrow> exchange) \<Rightarrow> net
   \<Rightarrow> (order_page option \<times> int \<times> gerr option) \<times> net" where
  "fetch_page cd f c rg page xs n = fetch_loop cd f c rg page xs 1 0 None n"

section \<open>fetchPage as the steps of a goroutine\<close>

datatype pphase =
    PIdle                         \<comment> \<open>not started\<close>
  | PTrying int                   \<comment> \<open>about to send attempt \<open>k\<close>, waiting for a slot\<close>
  | PFlight int                   \<comment> \<open>holds a slot, attempt \<open>k\<close> is under way\<close>
  | PDecide int gerr              \<comment> \<open>attempt \<open>k\<close> failed\<close>
  | PBackoff int time gerr        \<comment> \<open>sleeping until an instant before attempt \<open>k + 1\<close>\<close>
  | PGot order_page               \<comment> \<open>returned a page\<close>
  | PFailed gerr                  \<comment> \<open>returned an error\<close>
  | PNil                          \<comment> \<open>returned \<open>nil, 0, nil\<close>: no attempt was allowed\<close>
  | PSend order_page              \<comment> \<open>in the select that sends the page's orders\<close>
  | PSent order_page              \<comment> \<open>the orders are in the channel\<close>
  | PDead                         \<comment> \<open>the goroutine returned an error\<close>

record pgo =
  g_phase :: pphase
  g_tokens :: int

definition fetch_start :: "fetcher \<Rightarrow> pgo" where
  "fetch_start f = \<lparr>g_phase = (if ft_page_attempts f < 1 then PNil else PTrying 1), g_tokens = 0\<rparr>"

definition fetch_go :: "pgo \<Rightarrow> pgo" where
  "fetch_go g = (case g_phase g of PTrying k \<Rightarrow> g\<lparr>g_phase := PFlight k\<rparr> | _ \<Rightarrow> g)"

definition fetch_answer :: "codec \<Rightarrow> exchange \<Rightarrow> int \<Rightarrow> int \<Rightarrow> pgo \<Rightarrow> net \<Rightarrow> pgo \<times> net" where
  "fetch_answer cd x rg page g n =
     (case g_phase g of
        PFlight k \<Rightarrow>
          (let (res, n1) = client_orders_page cd x rg page n;
               g1 = g\<lparr>g_tokens := g_tokens g + page_tokens res\<rparr>
           in case res of
                Fetched p \<Rightarrow> (g1\<lparr>g_phase := PGot p\<rparr>, n1)
              | FetchErr po e \<Rightarrow> (g1\<lparr>g_phase := PDecide k e\<rparr>, n1))
      | _ \<Rightarrow> (g, n))"

definition fetch_decide :: "fetcher \<Rightarrow> bool \<Rightarrow> pgo \<Rightarrow> net \<Rightarrow> pgo" where
  "fetch_decide f cancelled g n =
     (case g_phase g of
        PDecide k e \<Rightarrow>
          (if \<not> may_retry f cancelled k e n then g\<lparr>g_phase := PFailed e\<rparr>
           else if page_backoff f k e \<le> 0 then g\<lparr>g_phase := PTrying (k + 1)\<rparr>
           else g\<lparr>g_phase := PBackoff k (nt_now n + page_backoff f k e) e\<rparr>)
      | _ \<Rightarrow> g)"

text \<open>
  The end of a backoff: the timer, which moves the clock to the instant it was set
  for, or the context.
\<close>

definition fetch_wake :: "pgo \<Rightarrow> net \<Rightarrow> pgo \<times> net" where
  "fetch_wake g n =
     (case g_phase g of
        PBackoff k t e \<Rightarrow> (g\<lparr>g_phase := PTrying (k + 1)\<rparr>, n\<lparr>nt_now := max (nt_now n) t\<rparr>)
      | _ \<Rightarrow> (g, n))"

definition fetch_interrupt :: "ctx \<Rightarrow> pgo \<Rightarrow> net \<Rightarrow> pgo \<times> net" where
  "fetch_interrupt c g n =
     (case g_phase g of
        PBackoff k t e \<Rightarrow>
          (g\<lparr>g_phase := PFailed e\<rparr>,
           if ctx_done c (max (nt_now n) t)
           then n\<lparr>nt_now := (case c of None \<Rightarrow> nt_now n | Some u \<Rightarrow> max (nt_now n) u)\<rparr> else n)
      | _ \<Rightarrow> (g, n))"

section \<open>Facts about the decisions\<close>

lemma retryable_page_420: "as_http e = Some he \<Longrightarrow> he_status he = StatusErrorLimited \<Longrightarrow> \<not> retryable_page (Some e)"
  by (simp add: retryable_page_def is_error_limited_def)

lemma retryable_page_http:
  "as_http e = Some he \<Longrightarrow> retryable_page (Some e) \<longleftrightarrow> he_status he = 429 \<or> 500 \<le> he_status he"
  by (auto simp: retryable_page_def is_error_limited_def is_rate_limited_def is_server_error_def
      StatusErrorLimited_def)

lemma retries_blocked_iff:
  "retries_blocked now c floor = [] \<longleftrightarrow> paused_for now (ec_outage c) = 0 \<and> el_healthy floor (ec_elimit c)"
  using ogg.left_nonneg [of now "ec_outage c"] by (auto simp: retries_blocked_def)

lemma may_retry_below: "may_retry f b k e n \<Longrightarrow> k \<le> ft_page_attempts f \<Longrightarrow> k + 1 \<le> ft_page_attempts f"
  by (auto simp: may_retry_def)

section \<open>Facts about the loop\<close>

lemma fetch_loop_done [simp]:
  "ft_page_attempts f < k \<Longrightarrow> fetch_loop cd f c rg page xs k tokens lerr n = ((None, tokens, lerr), n)"
  by (subst fetch_loop.simps) simp

text \<open>One turn of the loop, by the outcome of the attempt.\<close>

lemma fetch_loop_page:
  "k \<le> ft_page_attempts f \<Longrightarrow> client_orders_page cd (xs k) rg page n = (Fetched p, n1) \<Longrightarrow>
   fetch_loop cd f c rg page xs k tokens lerr n = ((Some p, tokens + page_tokens (Fetched p), None), n1)"
  by (subst fetch_loop.simps) simp

lemma fetch_loop_stop:
  "k \<le> ft_page_attempts f \<Longrightarrow> client_orders_page cd (xs k) rg page n = (FetchErr po e, n1) \<Longrightarrow>
   \<not> may_retry f (ctx_done c (nt_now n1)) k e n1 \<Longrightarrow>
   fetch_loop cd f c rg page xs k tokens lerr n = ((None, tokens + page_tokens (FetchErr po e), Some e), n1)"
  by (subst fetch_loop.simps) simp

lemma fetch_loop_cut:
  "k \<le> ft_page_attempts f \<Longrightarrow> client_orders_page cd (xs k) rg page n = (FetchErr po e, n1) \<Longrightarrow>
   may_retry f (ctx_done c (nt_now n1)) k e n1 \<Longrightarrow> sleep c (page_backoff f k e) (nt_now n1) = (False, t) \<Longrightarrow>
   fetch_loop cd f c rg page xs k tokens lerr n
     = ((None, tokens + page_tokens (FetchErr po e), Some e), n1\<lparr>nt_now := t\<rparr>)"
  by (subst fetch_loop.simps) simp

lemma fetch_loop_again:
  "k \<le> ft_page_attempts f \<Longrightarrow> client_orders_page cd (xs k) rg page n = (FetchErr po e, n1) \<Longrightarrow>
   may_retry f (ctx_done c (nt_now n1)) k e n1 \<Longrightarrow> sleep c (page_backoff f k e) (nt_now n1) = (True, t) \<Longrightarrow>
   fetch_loop cd f c rg page xs k tokens lerr n
     = fetch_loop cd f c rg page xs (k + 1) (tokens + page_tokens (FetchErr po e)) (Some e) (n1\<lparr>nt_now := t\<rparr>)"
  by (subst fetch_loop.simps) simp

text \<open>
  Induction over the attempts: a property of (attempt, tokens, last error, network)
  and the result holds of the loop when each way to leave a turn keeps it.
\<close>

lemma fetch_loop_rule:
  assumes exhausted: "\<And>k tokens lerr n. ft_page_attempts f < k \<Longrightarrow> P k tokens lerr n ((None, tokens, lerr), n)"
    and page: "\<And>k tokens lerr n p n1. k \<le> ft_page_attempts f \<Longrightarrow>
        client_orders_page cd (xs k) rg page n = (Fetched p, n1) \<Longrightarrow>
        P k tokens lerr n ((Some p, tokens + page_tokens (Fetched p), None), n1)"
    and stop: "\<And>k tokens lerr n po e n1. k \<le> ft_page_attempts f \<Longrightarrow>
        client_orders_page cd (xs k) rg page n = (FetchErr po e, n1) \<Longrightarrow>
        \<not> may_retry f (ctx_done c (nt_now n1)) k e n1 \<Longrightarrow>
        P k tokens lerr n ((None, tokens + page_tokens (FetchErr po e), Some e), n1)"
    and cut: "\<And>k tokens lerr n po e n1 t. k \<le> ft_page_attempts f \<Longrightarrow>
        client_orders_page cd (xs k) rg page n = (FetchErr po e, n1) \<Longrightarrow>
        may_retry f (ctx_done c (nt_now n1)) k e n1 \<Longrightarrow>
        sleep c (page_backoff f k e) (nt_now n1) = (False, t) \<Longrightarrow>
        P k tokens lerr n ((None, tokens + page_tokens (FetchErr po e), Some e), n1\<lparr>nt_now := t\<rparr>)"
    and again: "\<And>k tokens lerr n po e n1 t r. k \<le> ft_page_attempts f \<Longrightarrow>
        client_orders_page cd (xs k) rg page n = (FetchErr po e, n1) \<Longrightarrow>
        may_retry f (ctx_done c (nt_now n1)) k e n1 \<Longrightarrow>
        sleep c (page_backoff f k e) (nt_now n1) = (True, t) \<Longrightarrow>
        P (k + 1) (tokens + page_tokens (FetchErr po e)) (Some e) (n1\<lparr>nt_now := t\<rparr>) r \<Longrightarrow>
        P k tokens lerr n r"
  shows "P k tokens lerr n (fetch_loop cd f c rg page xs k tokens lerr n)"
proof (induction "nat (ft_page_attempts f + 1 - k)" arbitrary: k tokens lerr n rule: less_induct)
  case less
  show ?case
  proof (cases "ft_page_attempts f < k")
    case True
    then show ?thesis by (simp add: exhausted)
  next
    case False
    then have k: "k \<le> ft_page_attempts f" by simp
    obtain res n1 where call: "client_orders_page cd (xs k) rg page n = (res, n1)" by force
    show ?thesis
    proof (cases res)
      case (Fetched p)
      with k call show ?thesis by (simp add: fetch_loop_page page)
    next
      case (FetchErr po e)
      with call have call': "client_orders_page cd (xs k) rg page n = (FetchErr po e, n1)" by simp
      obtain s t where sl: "sleep c (page_backoff f k e) (nt_now n1) = (s, t)" by force
      consider "\<not> may_retry f (ctx_done c (nt_now n1)) k e n1"
        | "may_retry f (ctx_done c (nt_now n1)) k e n1" "\<not> s"
        | "may_retry f (ctx_done c (nt_now n1)) k e n1" "s" by blast
      then show ?thesis
      proof cases
        case 1
        then show ?thesis by (simp add: fetch_loop_stop [where xs = xs, OF k call'] stop [OF k call'])
      next
        case 2
        with sl show ?thesis by (simp add: fetch_loop_cut [where xs = xs, OF k call'] cut [OF k call'])
      next
        case 3
        with sl have "sleep c (page_backoff f k e) (nt_now n1) = (True, t)" by simp
        with 3(1) show ?thesis
          by (simp only: fetch_loop_again [where xs = xs, OF k call']) (rule again [OF k call' _ _ less], use k in auto)
      qed
    qed
  qed
qed

lemma fetch_loop_tokens:
  "log_cost (nt_log (snd (fetch_loop cd f c rg page xs k tokens lerr n))) - log_cost (nt_log n)
   = fst (snd (fst (fetch_loop cd f c rg page xs k tokens lerr n))) - tokens"
proof (rule fetch_loop_rule [where P = "\<lambda>k tokens lerr n r.
    log_cost (nt_log (snd r)) - log_cost (nt_log n) = fst (snd (fst r)) - tokens"], goal_cases)
  case (2 k tokens lerr n p n1)
  then show ?case using page_tokens_log [of cd "xs k" rg page n] by simp
next
  case (3 k tokens lerr n po e n1)
  then show ?case using page_tokens_log [of cd "xs k" rg page n] by simp
next
  case (4 k tokens lerr n po e n1 t)
  then show ?case using page_tokens_log [of cd "xs k" rg page n] by simp
next
  case (5 k tokens lerr n po e n1 t r)
  then show ?case using page_tokens_log [of cd "xs k" rg page n] by simp
qed simp

lemma fetch_loop_outcome:
  assumes "k \<le> ft_page_attempts f" "fetch_loop cd f c rg page xs k tokens lerr n = ((res, tok, err), n')"
  shows "(res = None) \<noteq> (err = None)"
proof -
  have "k \<le> ft_page_attempts f \<longrightarrow>
     (fst (fst (fetch_loop cd f c rg page xs k tokens lerr n)) = None)
       \<noteq> (snd (snd (fst (fetch_loop cd f c rg page xs k tokens lerr n))) = None)"
    by (rule fetch_loop_rule [where P = "\<lambda>k tokens lerr n r. k \<le> ft_page_attempts f \<longrightarrow>
          (fst (fst r) = None) \<noteq> (snd (snd (fst r)) = None)"])
      (auto dest: may_retry_below)
  with assms show ?thesis by simp
qed

text \<open>
  The loop sends at most one request per attempt, all of them for this page.
\<close>

lemma fetch_loop_log:
  "\<exists>new. nt_log (snd (fetch_loop cd f c rg page xs k tokens lerr n)) = nt_log n @ new \<and>
     int (length new) \<le> max 0 (ft_page_attempts f + 1 - k) \<and> (\<forall>e \<in> set new. fst e = orders_path rg page)"
    (is "?Q k n (fetch_loop cd f c rg page xs k tokens lerr n)")
proof (rule fetch_loop_rule [where P = "\<lambda>k tokens lerr n r. ?Q k n r"], goal_cases)
  case (1 k tokens lerr n)
  then show ?case by simp
next
  case (2 k tokens lerr n p n1)
  with orders_page_log [of cd "xs k" rg page n] show ?case by fastforce
next
  case (3 k tokens lerr n po e n1)
  with orders_page_log [of cd "xs k" rg page n] show ?case by fastforce
next
  case (4 k tokens lerr n po e n1 t)
  with orders_page_log [of cd "xs k" rg page n] show ?case by fastforce
next
  case (5 k tokens lerr n po e n1 t r)
  from orders_page_log [of cd "xs k" rg page n] 5(2)
  obtain a where a: "nt_log n1 = nt_log n @ a" "length a \<le> 1" "\<forall>e \<in> set a. fst e = orders_path rg page"
    by auto
  from 5(5) obtain b where b: "nt_log (snd r) = nt_log n1 @ b"
    "int (length b) \<le> max 0 (ft_page_attempts f - k)" "\<forall>e \<in> set b. fst e = orders_path rg page"
    by auto
  from a b 5(1) show ?case by (intro exI [of _ "a @ b"]) auto
qed

lemma fetch_loop_time: "nt_now n \<le> nt_now (snd (fetch_loop cd f c rg page xs k tokens lerr n))"
proof (rule fetch_loop_rule [where P = "\<lambda>k tokens lerr n r. nt_now n \<le> nt_now (snd r)"], goal_cases)
  case (2 k tokens lerr n p n1)
  then show ?case using orders_page_time [of n cd "xs k" rg page] by simp
next
  case (3 k tokens lerr n po e n1)
  then show ?case using orders_page_time [of n cd "xs k" rg page] by simp
next
  case (4 k tokens lerr n po e n1 t)
  then show ?case
    using orders_page_time [of n cd "xs k" rg page] sleep_time_mono [of "nt_now n1" c "page_backoff f k e"]
    by simp
next
  case (5 k tokens lerr n po e n1 t r)
  then show ?case
    using orders_page_time [of n cd "xs k" rg page] sleep_time_mono [of "nt_now n1" c "page_backoff f k e"]
    by simp
qed simp

section \<open>The steps run back to back are the loop\<close>

text \<open>One goroutine alone with its context, attempt \<open>k\<close> meeting \<open>xs k\<close>.\<close>

inductive fetch_solo ::
  "codec \<Rightarrow> fetcher \<Rightarrow> ctx \<Rightarrow> int \<Rightarrow> int \<Rightarrow> (int \<Rightarrow> exchange) \<Rightarrow> pgo \<times> net \<Rightarrow> pgo \<times> net \<Rightarrow> bool"
  for cd f c rg page xs where
  solo_go: "g_phase g = PTrying k \<Longrightarrow> fetch_solo cd f c rg page xs (g, n) (fetch_go g, n)"
| solo_answer: "g_phase g = PFlight k \<Longrightarrow>
    fetch_solo cd f c rg page xs (g, n) (fetch_answer cd (xs k) rg page g n)"
| solo_decide: "g_phase g = PDecide k e \<Longrightarrow>
    fetch_solo cd f c rg page xs (g, n) (fetch_decide f (ctx_done c (nt_now n)) g n, n)"
| solo_wake: "g_phase g = PBackoff k t e \<Longrightarrow> \<not> ctx_done c (max (nt_now n) t) \<Longrightarrow>
    fetch_solo cd f c rg page xs (g, n) (fetch_wake g n)"
| solo_interrupt: "g_phase g = PBackoff k t e \<Longrightarrow> ctx_done c (max (nt_now n) t) \<Longrightarrow>
    fetch_solo cd f c rg page xs (g, n) (fetch_interrupt c g n)"

text \<open>The phase in which the steps leave a goroutine whose loop returned \<open>(p, err)\<close>.\<close>

definition fetch_phase_of :: "order_page option \<Rightarrow> gerr option \<Rightarrow> pphase" where
  "fetch_phase_of p err = (case p of Some pg \<Rightarrow> PGot pg | None \<Rightarrow> (case err of Some e \<Rightarrow> PFailed e | None \<Rightarrow> PNil))"

definition fetch_final :: "(order_page option \<times> int \<times> gerr option) \<times> net \<Rightarrow> pgo \<times> net" where
  "fetch_final r = (\<lparr>g_phase = fetch_phase_of (fst (fst r)) (snd (snd (fst r))), g_tokens = fst (snd (fst r))\<rparr>, snd r)"

lemma solo_attempt:
  assumes "client_orders_page cd (xs k) rg page n = (res, n1)"
  shows "(fetch_solo cd f c rg page xs)\<^sup>*\<^sup>*
    (\<lparr>g_phase = PTrying k, g_tokens = tok\<rparr>, n)
    (\<lparr>g_phase = (case res of Fetched p \<Rightarrow> PGot p | FetchErr po e \<Rightarrow> PDecide k e),
      g_tokens = tok + page_tokens res\<rparr>, n1)"
proof -
  let ?g = "\<lparr>g_phase = PTrying k, g_tokens = tok\<rparr>"
  have "fetch_solo cd f c rg page xs (?g, n) (fetch_go ?g, n)" by (rule solo_go) simp
  moreover have "fetch_solo cd f c rg page xs (fetch_go ?g, n) (fetch_answer cd (xs k) rg page (fetch_go ?g) n)"
    by (rule solo_answer [of _ k]) (simp add: fetch_go_def)
  moreover have "fetch_answer cd (xs k) rg page (fetch_go ?g) n =
    (\<lparr>g_phase = (case res of Fetched p \<Rightarrow> PGot p | FetchErr po e \<Rightarrow> PDecide k e),
      g_tokens = tok + page_tokens res\<rparr>, n1)"
    using assms by (simp add: fetch_answer_def fetch_go_def split: fetched.split)
  ultimately show ?thesis by (metis (no_types, lifting) converse_rtranclp_into_rtranclp r_into_rtranclp)
qed

lemma solo_decided:
  assumes "fetch_decide f (ctx_done c (nt_now n)) \<lparr>g_phase = PDecide k e, g_tokens = tok\<rparr> n = g'"
  shows "fetch_solo cd f c rg page xs (\<lparr>g_phase = PDecide k e, g_tokens = tok\<rparr>, n) (g', n)"
  using solo_decide [of "\<lparr>g_phase = PDecide k e, g_tokens = tok\<rparr>" k e] assms by auto

text \<open>A backoff step reproduces \<open>sleep\<close>.\<close>

lemma solo_sleep:
  assumes "may_retry f (ctx_done c (nt_now n)) k e n" "sleep c (page_backoff f k e) (nt_now n) = (s, t)"
  shows "(fetch_solo cd f c rg page xs)\<^sup>*\<^sup>*
    (\<lparr>g_phase = PDecide k e, g_tokens = tok\<rparr>, n)
    (\<lparr>g_phase = (if s then PTrying (k + 1) else PFailed e), g_tokens = tok\<rparr>, n\<lparr>nt_now := t\<rparr>)"
proof (cases "page_backoff f k e \<le> 0")
  case True
  with assms have "s" "t = nt_now n" by (auto simp: sleep_def)
  moreover have "fetch_decide f (ctx_done c (nt_now n)) \<lparr>g_phase = PDecide k e, g_tokens = tok\<rparr> n =
      \<lparr>g_phase = PTrying (k + 1), g_tokens = tok\<rparr>"
    using assms(1) True by (simp add: fetch_decide_def)
  ultimately show ?thesis
    using r_into_rtranclp [of "fetch_solo cd f c rg page xs", OF solo_decided [of f c n k e tok, OF refl]] by simp
next
  case False
  let ?u = "nt_now n + page_backoff f k e"
  let ?g = "\<lparr>g_phase = PBackoff k ?u e, g_tokens = tok\<rparr>"
  have first: "fetch_solo cd f c rg page xs (\<lparr>g_phase = PDecide k e, g_tokens = tok\<rparr>, n) (?g, n)"
    using False assms by (intro solo_decided) (simp add: fetch_decide_def)
  have second: "fetch_solo cd f c rg page xs (?g, n)
     (\<lparr>g_phase = (if s then PTrying (k + 1) else PFailed e), g_tokens = tok\<rparr>, n\<lparr>nt_now := t\<rparr>)"
  proof (cases "ctx_done c (max (nt_now n) ?u)")
    case True
    then obtain u where u: "c = Some u" "u \<le> max (nt_now n) ?u" by (cases c) auto
    with False assms(2) have st: "\<not> s" "t = max (nt_now n) u" by (auto simp: sleep_def)
    have "fetch_interrupt c ?g n = (\<lparr>g_phase = PFailed e, g_tokens = tok\<rparr>, n\<lparr>nt_now := t\<rparr>)"
      using u st by (simp add: fetch_interrupt_def)
    then show ?thesis
      using solo_interrupt [where g = ?g and k = k and t = ?u and e = e and c = c and n = n
          and cd = cd and f = f and rg = rg and page = page and xs = xs] True st by simp
  next
    case neg: False
    with False assms(2) have st: "s" "t = ?u" by (auto simp: sleep_def split: option.splits)
    have "fetch_wake ?g n = (\<lparr>g_phase = PTrying (k + 1), g_tokens = tok\<rparr>, n\<lparr>nt_now := t\<rparr>)"
      using False st by (simp add: fetch_wake_def)
    then show ?thesis
      using solo_wake [where g = ?g and k = k and t = ?u and e = e and c = c and n = n
          and cd = cd and f = f and rg = rg and page = page and xs = xs] neg st by simp
  qed
  from first second show ?thesis by (rule converse_rtranclp_into_rtranclp [OF _ r_into_rtranclp])
qed

lemma solo_loop:
  assumes "k \<le> ft_page_attempts f"
  shows "(fetch_solo cd f c rg page xs)\<^sup>*\<^sup>*
    (\<lparr>g_phase = PTrying k, g_tokens = tokens\<rparr>, n)
    (fetch_final (fetch_loop cd f c rg page xs k tokens lerr n))"
proof -
  let ?P = "\<lambda>k tokens n r. k \<le> ft_page_attempts f \<longrightarrow>
    (fetch_solo cd f c rg page xs)\<^sup>*\<^sup>* (\<lparr>g_phase = PTrying k, g_tokens = tokens\<rparr>, n) (fetch_final r)"
  have "?P k tokens n (fetch_loop cd f c rg page xs k tokens lerr n)"
  proof (rule fetch_loop_rule [where P = "\<lambda>k tokens lerr n r. ?P k tokens n r"], goal_cases)
    case (1 k tokens lerr n)
    then show ?case by simp
  next
    case (2 k tokens lerr n p n1)
    from solo_attempt [where xs = xs and f = f and c = c and tok = tokens, OF 2(2)]
    show ?case by (simp add: fetch_final_def fetch_phase_of_def)
  next
    case (3 k tokens lerr n po e n1)
    note A = solo_attempt [where xs = xs and f = f and c = c and tok = tokens, OF 3(2)]
    have "fetch_decide f (ctx_done c (nt_now n1))
        \<lparr>g_phase = PDecide k e, g_tokens = tokens + page_tokens (FetchErr po e)\<rparr> n1
      = \<lparr>g_phase = PFailed e, g_tokens = tokens + page_tokens (FetchErr po e)\<rparr>"
      using 3(3) by (simp add: fetch_decide_def)
    note B = solo_decided [where cd = cd and rg = rg and page = page and xs = xs, OF this]
    show ?case
      using rtranclp.rtrancl_into_rtrancl [OF A [simplified] B] by (simp add: fetch_final_def fetch_phase_of_def)
  next
    case (4 k tokens lerr n po e n1 t)
    note A = solo_attempt [where xs = xs and f = f and c = c and tok = tokens, OF 4(2)]
    note B = solo_sleep [where cd = cd and rg = rg and page = page and xs = xs
        and tok = "tokens + page_tokens (FetchErr po e)", OF 4(3,4)]
    show ?case
      using rtranclp_trans [OF A [simplified] B] by (simp add: fetch_final_def fetch_phase_of_def)
  next
    case (5 k tokens lerr n po e n1 t r)
    then have "k + 1 \<le> ft_page_attempts f" by (auto dest: may_retry_below)
    with 5(5) have C: "(fetch_solo cd f c rg page xs)\<^sup>*\<^sup>*
        (\<lparr>g_phase = PTrying (k + 1), g_tokens = tokens + page_tokens (FetchErr po e)\<rparr>, n1\<lparr>nt_now := t\<rparr>) (fetch_final r)"
      by simp
    note A = solo_attempt [where xs = xs and f = f and c = c and tok = tokens, OF 5(2)]
    note B = solo_sleep [where cd = cd and rg = rg and page = page and xs = xs
        and tok = "tokens + page_tokens (FetchErr po e)", OF 5(3,4)]
    show ?case
      using rtranclp_trans [OF rtranclp_trans [OF A [simplified] B [simplified]] C] by simp
  qed
  with assms show ?thesis by simp
qed

text \<open>A goroutine alone has one course: each state has at most one successor, a returned one none.\<close>

inductive_cases fetch_soloE: "fetch_solo cd f c rg page xs s s'"

lemma solo_unique:
  "fetch_solo cd f c rg page xs s a \<Longrightarrow> fetch_solo cd f c rg page xs s b \<Longrightarrow> a = b"
  by (erule fetch_soloE; erule fetch_soloE) simp_all

lemma solo_final: "\<not> fetch_solo cd f c rg page xs (fetch_final r) s"
  by (auto simp: fetch_final_def fetch_phase_of_def elim!: fetch_soloE split: option.splits)

lemma unique_end:
  assumes "R\<^sup>*\<^sup>* s a" "\<And>x y z. R x y \<Longrightarrow> R x z \<Longrightarrow> y = z" "\<And>x. \<not> R a x"
  shows "(R\<^sup>*\<^sup>* s b \<and> (\<forall>x. \<not> R b x)) = (b = a)"
proof
  assume b: "R\<^sup>*\<^sup>* s b \<and> (\<forall>x. \<not> R b x)"
  from assms(1) have "R\<^sup>*\<^sup>* s b \<longrightarrow> (\<forall>x. \<not> R b x) \<longrightarrow> b = a"
  proof (induction rule: converse_rtranclp_induct)
    case base
    then show ?case using assms(3) by (metis converse_rtranclpE)
  next
    case (step x y)
    then show ?case using assms(2) by (metis converse_rtranclpE)
  qed
  with b show "b = a" by blast
qed (use assms in simp)

lemma fetch_page_reached:
  "(fetch_solo cd f c rg page xs)\<^sup>*\<^sup>* (fetch_start f, n) (fetch_final (fetch_page cd f c rg page xs n))"
proof (cases "ft_page_attempts f < 1")
  case True
  then show ?thesis by (simp add: fetch_page_def fetch_start_def fetch_final_def fetch_phase_of_def)
next
  case False
  then show ?thesis using solo_loop [of 1 f] by (simp add: fetch_page_def fetch_start_def)
qed
end
