(* ===== verification/Region.thy ===== *)
theory Region
  imports Prelude
begin

text \<open>
  internal/region/region.go: the region identifiers that carry a fetch priority,
  the priority of a region and the rule that decides which regions may retry.
\<close>

definition r_Domain :: int where "r_Domain = 10000043"
definition r_TheForge :: int where "r_TheForge = 10000002"
definition r_Heimatar :: int where "r_Heimatar = 10000030"
definition r_Metropolis :: int where "r_Metropolis = 10000042"
definition r_SinqLaison :: int where "r_SinqLaison = 10000032"
definition r_GlobalPLEX :: int where "r_GlobalPLEX = 19000001"

definition Rest :: int where "Rest = 6"

definition RetryMaxPriority :: int where "RetryMaxPriority = 4"

definition priorities :: "int \<rightharpoonup> int" where
  "priorities = [r_Domain \<mapsto> 1, r_TheForge \<mapsto> 2, r_Heimatar \<mapsto> 3, r_Metropolis \<mapsto> 4, r_SinqLaison \<mapsto> 5]"

record region =
  rg_id :: int
  rg_name :: string
  rg_priority :: int

definition can_retry :: "region \<Rightarrow> bool" where
  "can_retry r \<longleftrightarrow> rg_priority r \<le> RetryMaxPriority"

definition region_priority :: "int \<Rightarrow> int" where
  "region_priority i = (case priorities i of Some p \<Rightarrow> p | None \<Rightarrow> Rest)"

lemmas region_consts = r_Domain_def r_TheForge_def r_Heimatar_def r_Metropolis_def
  r_SinqLaison_def r_GlobalPLEX_def Rest_def RetryMaxPriority_def

lemma region_priority_range: "1 \<le> region_priority i \<and> region_priority i \<le> Rest"
  by (auto simp: region_priority_def priorities_def region_consts)

text \<open>No two regions share an explicit priority: below \<open>Rest\<close> the order is strict.\<close>

lemma region_priority_strict:
  "region_priority i = region_priority j \<Longrightarrow> region_priority i < Rest \<Longrightarrow> i = j"
  by (auto simp: region_priority_def priorities_def region_consts split: if_splits)

lemma can_retry_iff:
  "rg_priority r = region_priority (rg_id r) \<Longrightarrow>
   can_retry r \<longleftrightarrow> rg_id r \<in> {r_Domain, r_TheForge, r_Heimatar, r_Metropolis}"
  by (auto simp: can_retry_def region_priority_def priorities_def region_consts)

end
