(* ===== verification/Sweep.thy ===== *)
theory Sweep
  imports Page Region
begin

text \<open>
  internal/ingest/sweep.go, with the consumer of its channel (the reading half of
  \<open>CopyOrders\<close> in internal/store/orders.go, started by \<open>Cycle.Run\<close>): the
  concurrent part of a region's cycle as a labelled transition system.

  The goroutines are the sweep itself, one goroutine per page from page 2 on, and
  the copy. A label says which of them moves, and carries what the network or the
  database did; \<open>pipe_step\<close> computes the next state, or \<open>None\<close> when that
  goroutine cannot make that move. A list of labels is one interleaving.

  The documented behaviour of \<open>errgroup.WithContext\<close> is part of the steps: the
  first error is kept and cancels the group's context, \<open>Wait\<close> returns once every
  function has returned. The client's semaphore is the bound on \<open>PFlight\<close>.
\<close>

section \<open>State\<close>

record sweep_meta =
  sm_pages :: int
  sm_expires :: time
  sm_last_modified :: time
  sm_order_count :: int
  sm_tokens :: int
  sm_duration :: dur

definition meta_init :: sweep_meta where
  "meta_init = \<lparr>sm_pages = 0, sm_expires = zero_time, sm_last_modified = zero_time,
     sm_order_count = 0, sm_tokens = 0, sm_duration = 0\<rparr>"

datatype main_phase =
    MStart                  \<comment> \<open>before the floor check\<close>
  | MPage1                  \<comment> \<open>in \<open>fetchPage\<close> for page 1\<close>
  | MSend1                  \<comment> \<open>in the select that sends page 1\<close>
  | MWait                   \<comment> \<open>in \<open>g.Wait\<close>\<close>
  | MDone "gerr option"     \<comment> \<open>returned; the channel is closed\<close>
  | MPanic                  \<comment> \<open>dereferenced a \<open>nil\<close> page\<close>

text \<open>How \<open>CopyOrders\<close> can fail: no connection, the truncation, or the copy itself.\<close>

datatype copy_fault =
    AcquireFailed gerr
  | TruncateFailed gerr bool       \<comment> \<open>and whether the truncation took effect all the same\<close>
  | CopyFailed gerr int bool       \<comment> \<open>reported row count, and whether the copy took effect all the same\<close>

datatype copy_phase = CRunning | CDone | CFailed copy_fault

record pipe =
  pp_net :: net
  pp_main :: main_phase
  pp_meta :: sweep_meta
  pp_start :: time
  pp_first :: "order_page option"
  pp_gs :: "int \<Rightarrow> pgo"
  pp_mismatch :: bool
  pp_grew :: bool
  pp_tokens :: int
  pp_count :: int
  pp_gerr :: "gerr option"
  pp_chan :: "esi_order list list"
  pp_recv :: "esi_order list list"
  pp_copy :: copy_phase
  pp_copied_at :: time         \<comment> \<open>when \<open>CopyOrders\<close> returned\<close>
  pp_cancel :: bool            \<comment> \<open>\<open>cancelSweep\<close> was called\<close>

record pcfg =
  pc_codec :: codec
  pc_fetcher :: fetcher
  pc_ctx :: ctx
  pc_region :: int
  pc_conc :: int
  pc_staged :: bool            \<comment> \<open>the staging table exists\<close>
  pc_castable :: "esi_order \<Rightarrow> bool"  \<comment> \<open>the columns of the staging table hold this order\<close>

definition pipe_init :: "net \<Rightarrow> pipe" where
  "pipe_init n = \<lparr>pp_net = n, pp_main = MStart, pp_meta = meta_init, pp_start = nt_now n,
     pp_first = None, pp_gs = (\<lambda>_. \<lparr>g_phase = PIdle, g_tokens = 0\<rparr>),
     pp_mismatch = False, pp_grew = False, pp_tokens = 0, pp_count = 0, pp_gerr = None,
     pp_chan = [], pp_recv = [], pp_copy = CRunning, pp_copied_at = nt_now n, pp_cancel = False\<rparr>"

definition chan_capacity :: nat where
  "chan_capacity = 8"

section \<open>Guards\<close>

definition is_flight :: "pphase \<Rightarrow> bool" where
  "is_flight ph = (case ph of PFlight k \<Rightarrow> True | _ \<Rightarrow> False)"

definition is_finished :: "pphase \<Rightarrow> bool" where
  "is_finished ph = (case ph of PSent p \<Rightarrow> True | PDead \<Rightarrow> True | _ \<Rightarrow> False)"

text \<open>The pages that have a goroutine: page 1 runs in the sweep itself.\<close>

definition all_pages :: "pipe \<Rightarrow> int list" where
  "all_pages s = [1..max 1 (sm_pages (pp_meta s))]"

definition later_pages :: "pipe \<Rightarrow> int list" where
  "later_pages s = [2..sm_pages (pp_meta s)]"

definition in_flight :: "pipe \<Rightarrow> int" where
  "in_flight s = sum_list (map (\<lambda>p. if is_flight (g_phase (pp_gs s p)) then 1 else 0) (all_pages s))"

text \<open>Is the context of page \<open>p\<close> over: the sweep's for page 1, the group's after it.\<close>

definition cancelled :: "pcfg \<Rightarrow> int \<Rightarrow> pipe \<Rightarrow> bool" where
  "cancelled cfg p s \<longleftrightarrow>
     ctx_done (pc_ctx cfg) (nt_now (pp_net s)) \<or> pp_cancel s \<or> (2 \<le> p \<and> pp_gerr s \<noteq> None)"

definition drains :: "copy_fault \<Rightarrow> bool" where
  "drains f = (case f of AcquireFailed e \<Rightarrow> False | _ \<Rightarrow> True)"

text \<open>Did the copy itself fail? Only the copy reads the channel before it fails.\<close>

definition in_copy :: "copy_fault \<Rightarrow> bool" where
  "in_copy f = (case f of CopyFailed e n b \<Rightarrow> True | _ \<Rightarrow> False)"

definition sweep_returned :: "pipe \<Rightarrow> bool" where
  "sweep_returned s = (case pp_main s of MDone r \<Rightarrow> True | _ \<Rightarrow> False)"

definition show_bool :: "bool \<Rightarrow> string" where
  "show_bool b = (if b then ''true'' else ''false'')"

section \<open>Messages\<close>

definition page_error :: "int \<Rightarrow> int \<Rightarrow> gerr \<Rightarrow> gerr" where
  "page_error rg p e = EWrap (''region '' @ show_int rg @ '' page '' @ show_int p @ '': '') e []"

definition floor_reason :: "int \<Rightarrow> string" where
  "floor_reason rem = ''budget below floor ('' @ show_int rem @ '')''"

definition fits_reason :: "int \<Rightarrow> int \<Rightarrow> int \<Rightarrow> string" where
  "fits_reason pages cost rem =
     show_int pages @ '' pages cost '' @ show_int cost @ '' tokens, only '' @ show_int rem @ '' remaining''"

definition inconsistent_error :: "int \<Rightarrow> bool \<Rightarrow> bool \<Rightarrow> gerr" where
  "inconsistent_error rg mismatch grew =
     EWrap [] EInconsistent ('': region '' @ show_int rg @ '' (last-modified mismatch='' @ show_bool mismatch @
       '', x-pages changed='' @ show_bool grew @ '')'')"

section \<open>Steps\<close>

text \<open>\<open>(first.Pages - 1) * esi.TokenCost(200)\<close>, in 64-bit arithmetic.\<close>

definition remaining_cost :: "int \<Rightarrow> int" where
  "remaining_cost pages = wrap64 (wrap64 (pages - 1) * token_cost 200)"

definition set_g :: "int \<Rightarrow> pgo \<Rightarrow> pipe \<Rightarrow> pipe" where
  "set_g p g s = s\<lparr>pp_gs := (pp_gs s)(p := g)\<rparr>"

text \<open>\<open>errgroup\<close>: a function returned the error \<open>e\<close>.\<close>

definition group_error :: "gerr \<Rightarrow> pipe \<Rightarrow> pipe" where
  "group_error e s = (case pp_gerr s of None \<Rightarrow> s\<lparr>pp_gerr := Some e\<rparr> | Some x \<Rightarrow> s)"

text \<open>The sweep goroutine, up to the next point where it waits for another goroutine.\<close>

definition main_start :: "pcfg \<Rightarrow> pipe \<Rightarrow> pipe" where
  "main_start cfg s =
     (let f = pc_fetcher cfg; b = ec_budget (nt_esi (pp_net s))
      in if below_floor (ft_floor f) b
         then s\<lparr>pp_main := MDone (Some (EDeferred (floor_reason (fst (budget_remaining b)))))\<rparr>
         else (set_g 1 (fetch_start f) s)\<lparr>pp_main := MPage1\<rparr>)"

definition main_page1 :: "pcfg \<Rightarrow> pipe \<Rightarrow> pipe option" where
  "main_page1 cfg s =
     (let g = pp_gs s 1; m = pp_meta s; m1 = m\<lparr>sm_tokens := sm_tokens m + g_tokens g\<rparr>
      in case g_phase g of
           PFailed e \<Rightarrow>
             Some ((set_g 1 \<lparr>g_phase = PDead, g_tokens = 0\<rparr> s)\<lparr>pp_meta := m1,
                      pp_main := MDone (Some (page_error (pc_region cfg) 1 e))\<rparr>)
         | PNil \<Rightarrow> Some (s\<lparr>pp_main := MPanic\<rparr>)
         | PGot p \<Rightarrow>
             (let m2 = m1\<lparr>sm_pages := pg_pages p, sm_expires := pg_expires p,
                          sm_last_modified := pg_last_modified p\<rparr>;
                  cost = remaining_cost (pg_pages p);
                  b = ec_budget (nt_esi (pp_net s));
                  s1 = (set_g 1 \<lparr>g_phase = PSend p, g_tokens = 0\<rparr> s)\<lparr>pp_meta := m2, pp_first := Some p\<rparr>
              in if \<not> budget_fits cost (ft_reserve (pc_fetcher cfg)) b
                 then Some (s1\<lparr>pp_main := MDone (Some (EDeferred
                        (fits_reason (pg_pages p) cost (fst (budget_remaining b)))))\<rparr>)
                 else Some (s1\<lparr>pp_main := MSend1\<rparr>))
         | _ \<Rightarrow> None)"

definition main_send1 :: "pcfg \<Rightarrow> pipe \<Rightarrow> pipe option" where
  "main_send1 cfg s =
     (case g_phase (pp_gs s 1) of
        PSend p \<Rightarrow>
          (if length (pp_chan s) < chan_capacity then
             let m = pp_meta s;
                 m1 = m\<lparr>sm_order_count := sm_order_count m + int (length (pg_orders p))\<rparr>;
                 s1 = (set_g 1 \<lparr>g_phase = PSent p, g_tokens = 0\<rparr> s)\<lparr>pp_chan := pp_chan s @ [pg_orders p]\<rparr>
             in if pg_pages p = 1
                then Some (s1\<lparr>pp_meta := m1\<lparr>sm_duration := nt_now (pp_net s) - pp_start s\<rparr>, pp_main := MDone None\<rparr>)
                else Some (s1\<lparr>pp_meta := m1, pp_main := MWait,
                       pp_gs := (\<lambda>q. if 2 \<le> q \<and> q \<le> pg_pages p then fetch_start (pc_fetcher cfg) else pp_gs s1 q)\<rparr>)
           else None)
      | _ \<Rightarrow> None)"

definition main_wait :: "pcfg \<Rightarrow> pipe \<Rightarrow> pipe option" where
  "main_wait cfg s =
     (if list_all (\<lambda>p. is_finished (g_phase (pp_gs s p))) (later_pages s) then
        let m = pp_meta s;
            m1 = m\<lparr>sm_tokens := sm_tokens m + pp_tokens s,
                   sm_order_count := sm_order_count m + pp_count s,
                   sm_duration := nt_now (pp_net s) - pp_start s\<rparr>
        in Some (s\<lparr>pp_meta := m1,
             pp_main := MDone
               (case pp_gerr s of
                  Some e \<Rightarrow> Some e
                | None \<Rightarrow> if pp_mismatch s \<or> pp_grew s
                          then Some (inconsistent_error (pc_region cfg) (pp_mismatch s) (pp_grew s))
                          else None)\<rparr>)
      else None)"

text \<open>The end of \<open>fetchPage\<close> in a page goroutine: the shared counters, then the send.\<close>

definition page_join :: "pcfg \<Rightarrow> int \<Rightarrow> pipe \<Rightarrow> pipe option" where
  "page_join cfg p s =
     (let g = pp_gs s p; s1 = s\<lparr>pp_tokens := pp_tokens s + g_tokens g\<rparr>
      in case g_phase g of
           PFailed e \<Rightarrow>
             Some (group_error (page_error (pc_region cfg) p e)
                     (set_g p \<lparr>g_phase = PDead, g_tokens = 0\<rparr> s1))
         | PNil \<Rightarrow> Some (s1\<lparr>pp_main := MPanic\<rparr>)
         | PGot pg \<Rightarrow>
             (case pp_first s of
                None \<Rightarrow> None
              | Some first \<Rightarrow>
                  Some ((set_g p \<lparr>g_phase = PSend pg, g_tokens = 0\<rparr> s1)\<lparr>
                    pp_mismatch := (pp_mismatch s \<or> pg_last_modified pg \<noteq> pg_last_modified first),
                    pp_grew := (pp_grew s \<or> pg_pages pg \<noteq> pg_pages first),
                    pp_count := pp_count s + int (length (pg_orders pg))\<rparr>))
         | _ \<Rightarrow> None)"

text \<open>Labels. The numbers are pages; an exchange or a fault is what the outside did.\<close>

datatype ev =
    EvMain                     \<comment> \<open>the sweep moves on\<close>
  | EvMainStop                 \<comment> \<open>the select of page 1 takes \<open>ctx.Done()\<close>\<close>
  | EvGo int                   \<comment> \<open>page takes a slot and sends its request\<close>
  | EvNoSlot int               \<comment> \<open>the context ended while it waited for a slot\<close>
  | EvAnswer int exchange      \<comment> \<open>the request of page is over\<close>
  | EvDecide int
  | EvWake int
  | EvInterrupt int
  | EvJoin int
  | EvSend int
  | EvSendStop int
  | EvRecv                     \<comment> \<open>the copy (or the drain after it) receives a batch\<close>
  | EvCopyEnd
  | EvCopyFail copy_fault

fun pipe_step :: "pcfg \<Rightarrow> ev \<Rightarrow> pipe \<Rightarrow> pipe option" where
  "pipe_step cfg EvMain s =
     (case pp_main s of
        MStart \<Rightarrow> Some (main_start cfg s)
      | MPage1 \<Rightarrow> main_page1 cfg s
      | MSend1 \<Rightarrow> main_send1 cfg s
      | MWait \<Rightarrow> main_wait cfg s
      | _ \<Rightarrow> None)"
| "pipe_step cfg EvMainStop s =
     (if pp_main s = MSend1 \<and> cancelled cfg 1 s
      then Some (s\<lparr>pp_main := MDone (Some ECanceled)\<rparr>) else None)"
| "pipe_step cfg (EvGo p) s =
     (case g_phase (pp_gs s p) of
        PTrying k \<Rightarrow> if in_flight s < pc_conc cfg then Some (set_g p (fetch_go (pp_gs s p)) s) else None
      | _ \<Rightarrow> None)"
| "pipe_step cfg (EvNoSlot p) s =
     (case g_phase (pp_gs s p) of
        PTrying k \<Rightarrow> if cancelled cfg p s
                     then Some (set_g p ((pp_gs s p)\<lparr>g_phase := PDecide k ECanceled\<rparr>) s) else None
      | _ \<Rightarrow> None)"
| "pipe_step cfg (EvAnswer p x) s =
     (case g_phase (pp_gs s p) of
        PFlight k \<Rightarrow>
          (let (g, n) = fetch_answer (pc_codec cfg) x (pc_region cfg) p (pp_gs s p) (pp_net s)
           in Some ((set_g p g s)\<lparr>pp_net := n\<rparr>))
      | _ \<Rightarrow> None)"
| "pipe_step cfg (EvDecide p) s =
     (case g_phase (pp_gs s p) of
        PDecide k e \<Rightarrow>
          Some (set_g p (fetch_decide (pc_fetcher cfg) (cancelled cfg p s) (pp_gs s p) (pp_net s)) s)
      | _ \<Rightarrow> None)"
| "pipe_step cfg (EvWake p) s =
     (case g_phase (pp_gs s p) of
        PBackoff k t e \<Rightarrow>
          if \<not> ctx_done (pc_ctx cfg) (max (nt_now (pp_net s)) t)
          then let (g, n) = fetch_wake (pp_gs s p) (pp_net s) in Some ((set_g p g s)\<lparr>pp_net := n\<rparr>)
          else None
      | _ \<Rightarrow> None)"
| "pipe_step cfg (EvInterrupt p) s =
     (case g_phase (pp_gs s p) of
        PBackoff k t e \<Rightarrow>
          if cancelled cfg p s \<or> ctx_done (pc_ctx cfg) (max (nt_now (pp_net s)) t)
          then let (g, n) = fetch_interrupt (pc_ctx cfg) (pp_gs s p) (pp_net s)
               in Some ((set_g p g s)\<lparr>pp_net := n\<rparr>)
          else None
      | _ \<Rightarrow> None)"
| "pipe_step cfg (EvJoin p) s =
     (if pp_main s = MWait \<and> 2 \<le> p \<and> p \<le> sm_pages (pp_meta s) then page_join cfg p s else None)"
| "pipe_step cfg (EvSend p) s =
     (case g_phase (pp_gs s p) of
        PSend pg \<Rightarrow>
          if pp_main s = MWait \<and> 2 \<le> p \<and> length (pp_chan s) < chan_capacity
          then Some ((set_g p ((pp_gs s p)\<lparr>g_phase := PSent pg\<rparr>) s)\<lparr>pp_chan := pp_chan s @ [pg_orders pg]\<rparr>)
          else None
      | _ \<Rightarrow> None)"
| "pipe_step cfg (EvSendStop p) s =
     (case g_phase (pp_gs s p) of
        PSend pg \<Rightarrow>
          if pp_main s = MWait \<and> 2 \<le> p \<and> cancelled cfg p s
          then Some (group_error ECanceled (set_g p ((pp_gs s p)\<lparr>g_phase := PDead\<rparr>) s))
          else None
      | _ \<Rightarrow> None)"
| "pipe_step cfg EvRecv s =
     (case pp_chan s of
        [] \<Rightarrow> None
      | b # rest \<Rightarrow>
          (case pp_copy s of
             CRunning \<Rightarrow> Some (s\<lparr>pp_chan := rest, pp_recv := pp_recv s @ [b]\<rparr>)
           | CFailed f \<Rightarrow> if drains f then Some (s\<lparr>pp_chan := rest\<rparr>) else None
           | CDone \<Rightarrow> None))"
| "pipe_step cfg EvCopyEnd s =
     (if pp_copy s = CRunning \<and> pp_chan s = [] \<and> sweep_returned s \<and> pc_staged cfg \<and>
         list_all (pc_castable cfg) (concat (pp_recv s))
      then Some (s\<lparr>pp_copy := CDone, pp_copied_at := nt_now (pp_net s)\<rparr>) else None)"
| "pipe_step cfg (EvCopyFail f) s =
     (if pp_copy s = CRunning \<and> (in_copy f \<or> pp_recv s = [])
      then Some (s\<lparr>pp_copy := CFailed f, pp_copied_at := nt_now (pp_net s), pp_cancel := True\<rparr>) else None)"

fun pipe_run :: "pcfg \<Rightarrow> ev list \<Rightarrow> pipe \<Rightarrow> pipe option" where
  "pipe_run cfg [] s = Some s"
| "pipe_run cfg (e # es) s = (case pipe_step cfg e s of None \<Rightarrow> None | Some s' \<Rightarrow> pipe_run cfg es s')"

text \<open>\<open>Cycle.Run\<close> goes on once \<open>CopyOrders\<close> and \<open>Sweep\<close> have both returned.\<close>

definition pipe_final :: "pipe \<Rightarrow> bool" where
  "pipe_final s \<longleftrightarrow> sweep_returned s \<and> pp_copy s \<noteq> CRunning"

lemma pipe_run_append:
  "pipe_run cfg (xs @ ys) s = (case pipe_run cfg xs s of None \<Rightarrow> None | Some t \<Rightarrow> pipe_run cfg ys t)"
  by (induction xs arbitrary: s) (auto split: option.splits)

end
