(* ===== verification/Sweep_Steps.thy ===== *)
theory Sweep_Steps
  imports Sweep
begin

text \<open>
  The moves of the sweep's transition system, sorted: the moves inside one page's
  retry loop are all alike for the rest of the system (\<open>local_move\<close>), the other
  moves are listed one by one. \<open>pipe_step_cases\<close> is the case analysis every
  invariant proof uses.
\<close>

section \<open>Moves inside the retry loop\<close>

definition looping :: "pphase \<Rightarrow> bool" where
  "looping ph = (case ph of PTrying k \<Rightarrow> True | PFlight k \<Rightarrow> True | PDecide k e \<Rightarrow> True
     | PBackoff k t e \<Rightarrow> True | _ \<Rightarrow> False)"

definition returned :: "pphase \<Rightarrow> bool" where
  "returned ph = (case ph of PGot p \<Rightarrow> True | PFailed e \<Rightarrow> True | PNil \<Rightarrow> True | _ \<Rightarrow> False)"

text \<open>Attempt numbers stay within the configured bound.\<close>

definition attempt_ok :: "int \<Rightarrow> pphase \<Rightarrow> bool" where
  "attempt_ok A ph = (case ph of
      PTrying k \<Rightarrow> 1 \<le> k \<and> k \<le> A
    | PFlight k \<Rightarrow> 1 \<le> k \<and> k \<le> A
    | PDecide k e \<Rightarrow> 1 \<le> k \<and> k \<le> A
    | PBackoff k t e \<Rightarrow> 1 \<le> k \<and> k < A
    | _ \<Rightarrow> True)"

text \<open>How many more requests the loop may still send.\<close>

definition rem_requests :: "int \<Rightarrow> pphase \<Rightarrow> int" where
  "rem_requests A ph = (case ph of
      PTrying k \<Rightarrow> A - k + 1
    | PFlight k \<Rightarrow> A - k + 1
    | PDecide k e \<Rightarrow> A - k
    | PBackoff k t e \<Rightarrow> A - k
    | _ \<Rightarrow> 0)"

text \<open>A goroutine's distance to its end, for the termination of the whole system.\<close>

definition go_rank :: "int \<Rightarrow> pphase \<Rightarrow> nat" where
  "go_rank A ph = (case ph of
      PTrying k \<Rightarrow> nat (4 * (A - k) + 8)
    | PFlight k \<Rightarrow> nat (4 * (A - k) + 7)
    | PDecide k e \<Rightarrow> nat (4 * (A - k) + 6)
    | PBackoff k t e \<Rightarrow> nat (4 * (A - k) + 5)
    | PGot p \<Rightarrow> 4
    | PFailed e \<Rightarrow> 4
    | PNil \<Rightarrow> 4
    | PSend p \<Rightarrow> 3
    | PSent p \<Rightarrow> 1
    | PDead \<Rightarrow> 1
    | PIdle \<Rightarrow> 0)"

lemmas phase_preds = looping_def returned_def attempt_ok_def rem_requests_def is_flight_def is_finished_def go_rank_def

definition local_move :: "pcfg \<Rightarrow> int \<Rightarrow> pipe \<Rightarrow> pgo \<Rightarrow> net \<Rightarrow> bool" where
  "local_move cfg p s g n \<longleftrightarrow>
     (let old = pp_gs s p; A = ft_page_attempts (pc_fetcher cfg) in
      looping (g_phase old) \<and> (looping (g_phase g) \<or> returned (g_phase g)) \<and> g_phase g \<noteq> PNil \<and>
      log_cost (nt_log n) + g_tokens old = log_cost (nt_log (pp_net s)) + g_tokens g \<and>
      (attempt_ok A (g_phase old) \<longrightarrow>
         attempt_ok A (g_phase g) \<and> go_rank A (g_phase g) < go_rank A (g_phase old) \<and>
         int (length (nt_log n)) + rem_requests A (g_phase g)
           \<le> int (length (nt_log (pp_net s))) + rem_requests A (g_phase old)) \<and>
      (is_flight (g_phase g) \<longrightarrow> in_flight s < pc_conc cfg) \<and>
      nt_now (pp_net s) \<le> nt_now n)"

text \<open>A goroutine has a page only because an answer to its request carried it.\<close>

definition got_from :: "pcfg \<Rightarrow> ev \<Rightarrow> int \<Rightarrow> pipe \<Rightarrow> pgo \<Rightarrow> bool" where
  "got_from cfg e p s g \<longleftrightarrow>
     (\<forall>pg. g_phase g = PGot pg \<longrightarrow>
        (\<exists>x. e = EvAnswer p x \<and>
           fst (client_orders_page (pc_codec cfg) x (pc_region cfg) p (pp_net s)) = Fetched pg))"

lemma local_moveD:
  assumes "local_move cfg p s g n"
  shows "looping (g_phase (pp_gs s p))" "looping (g_phase g) \<or> returned (g_phase g)"
    "log_cost (nt_log n) + g_tokens (pp_gs s p) = log_cost (nt_log (pp_net s)) + g_tokens g"
    "nt_now (pp_net s) \<le> nt_now n"
    "attempt_ok (ft_page_attempts (pc_fetcher cfg)) (g_phase (pp_gs s p)) \<Longrightarrow>
       int (length (nt_log n)) + rem_requests (ft_page_attempts (pc_fetcher cfg)) (g_phase g)
         \<le> int (length (nt_log (pp_net s))) + rem_requests (ft_page_attempts (pc_fetcher cfg)) (g_phase (pp_gs s p))"
    "is_flight (g_phase g) \<Longrightarrow> in_flight s < pc_conc cfg"
    "attempt_ok (ft_page_attempts (pc_fetcher cfg)) (g_phase (pp_gs s p)) \<Longrightarrow>
       go_rank (ft_page_attempts (pc_fetcher cfg)) (g_phase g)
         < go_rank (ft_page_attempts (pc_fetcher cfg)) (g_phase (pp_gs s p))"
  using assms by (simp_all add: local_move_def Let_def)

lemma local_answer:
  assumes "g_phase (pp_gs s p) = PFlight k"
    "fetch_answer cd x (pc_region cfg) p (pp_gs s p) (pp_net s) = (g, n)"
  shows "local_move cfg p s g n"
proof -
  obtain res n1 where call: "client_orders_page cd x (pc_region cfg) p (pp_net s) = (res, n1)" by force
  from page_tokens_log [of cd x "pc_region cfg" p "pp_net s"]
  have cost: "log_cost (nt_log n1) = log_cost (nt_log (pp_net s)) + page_tokens res" by (simp add: call)
  from orders_page_log [of cd x "pc_region cfg" p "pp_net s"]
  have len: "length (nt_log n1) \<le> length (nt_log (pp_net s)) + 1" by (auto simp: call)
  from orders_page_time [of "pp_net s" cd x "pc_region cfg" p]
  have now: "nt_now (pp_net s) \<le> nt_now n1" by (simp add: call)
  show ?thesis
  proof (cases res)
    case (Fetched pg)
    with assms call have "n = n1" "g = (pp_gs s p)\<lparr>g_tokens := g_tokens (pp_gs s p) + page_tokens res, g_phase := PGot pg\<rparr>"
      by (auto simp: fetch_answer_def)
    with assms(1) cost len now show ?thesis by (auto simp: local_move_def phase_preds Let_def)
  next
    case (FetchErr po e)
    with assms call have "n = n1" "g = (pp_gs s p)\<lparr>g_tokens := g_tokens (pp_gs s p) + page_tokens res, g_phase := PDecide k e\<rparr>"
      by (auto simp: fetch_answer_def)
    with assms(1) cost len now show ?thesis by (auto simp: local_move_def phase_preds Let_def)
  qed
qed

lemma local_decide:
  assumes "g_phase (pp_gs s p) = PDecide k e"
  shows "local_move cfg p s (fetch_decide (pc_fetcher cfg) b (pp_gs s p) (pp_net s)) (pp_net s)"
proof -
  let ?A = "ft_page_attempts (pc_fetcher cfg)"
  have "may_retry (pc_fetcher cfg) b k e (pp_net s) \<Longrightarrow> k \<le> ?A \<Longrightarrow> k + 1 \<le> ?A"
    by (rule may_retry_below)
  with assms show ?thesis by (auto simp: local_move_def phase_preds fetch_decide_def Let_def)
qed

lemma local_wake:
  "g_phase (pp_gs s p) = PBackoff k t e \<Longrightarrow> fetch_wake (pp_gs s p) (pp_net s) = (g, n) \<Longrightarrow>
   local_move cfg p s g n"
  by (auto simp: local_move_def phase_preds fetch_wake_def Let_def)

lemma local_interrupt:
  "g_phase (pp_gs s p) = PBackoff k t e \<Longrightarrow> fetch_interrupt c (pp_gs s p) (pp_net s) = (g, n) \<Longrightarrow>
   local_move cfg p s g n"
  by (auto simp: local_move_def phase_preds fetch_interrupt_def Let_def split: option.split)

section \<open>All moves\<close>

text \<open>The states the sweep goroutine can move to, as explicit updates.\<close>

abbreviation p1_meta :: "pipe \<Rightarrow> order_page \<Rightarrow> sweep_meta" where
  "p1_meta s p \<equiv> (pp_meta s)\<lparr>sm_tokens := sm_tokens (pp_meta s) + g_tokens (pp_gs s 1),
     sm_pages := pg_pages p, sm_expires := pg_expires p, sm_last_modified := pg_last_modified p\<rparr>"

lemma pipe_step_cases [consumes 1, case_names local defer0 start p1_fail p1_nil p1_defer p1_ok
    single spawn wait stop join_fail join_nil join_ok send send_stop recv recv_drain copy_end copy_fail]:
  assumes step: "pipe_step cfg e s = Some s'"
    and local: "\<And>p g n. local_move cfg p s g n \<Longrightarrow> s' = (set_g p g s)\<lparr>pp_net := n\<rparr> \<Longrightarrow> got_from cfg e p s g \<Longrightarrow> P"
    and defer0: "\<And>r. pp_main s = MStart \<Longrightarrow> below_floor (ft_floor (pc_fetcher cfg)) (ec_budget (nt_esi (pp_net s))) \<Longrightarrow>
        s' = s\<lparr>pp_main := MDone (Some (EDeferred r))\<rparr> \<Longrightarrow> P"
    and start: "pp_main s = MStart \<Longrightarrow> \<not> below_floor (ft_floor (pc_fetcher cfg)) (ec_budget (nt_esi (pp_net s))) \<Longrightarrow>
        s' = (set_g 1 (fetch_start (pc_fetcher cfg)) s)\<lparr>pp_main := MPage1\<rparr> \<Longrightarrow> P"
    and p1_fail: "\<And>er. pp_main s = MPage1 \<Longrightarrow> g_phase (pp_gs s 1) = PFailed er \<Longrightarrow>
        s' = (set_g 1 \<lparr>g_phase = PDead, g_tokens = 0\<rparr> s)\<lparr>
               pp_meta := (pp_meta s)\<lparr>sm_tokens := sm_tokens (pp_meta s) + g_tokens (pp_gs s 1)\<rparr>,
               pp_main := MDone (Some (page_error (pc_region cfg) 1 er))\<rparr> \<Longrightarrow> P"
    and p1_nil: "pp_main s = MPage1 \<Longrightarrow> g_phase (pp_gs s 1) = PNil \<Longrightarrow> s' = s\<lparr>pp_main := MPanic\<rparr> \<Longrightarrow> P"
    and p1_defer: "\<And>p r. pp_main s = MPage1 \<Longrightarrow> g_phase (pp_gs s 1) = PGot p \<Longrightarrow>
        \<not> budget_fits (remaining_cost (pg_pages p)) (ft_reserve (pc_fetcher cfg)) (ec_budget (nt_esi (pp_net s))) \<Longrightarrow>
        s' = (set_g 1 \<lparr>g_phase = PSend p, g_tokens = 0\<rparr> s)\<lparr>pp_meta := p1_meta s p, pp_first := Some p,
               pp_main := MDone (Some (EDeferred r))\<rparr> \<Longrightarrow> P"
    and p1_ok: "\<And>p. pp_main s = MPage1 \<Longrightarrow> g_phase (pp_gs s 1) = PGot p \<Longrightarrow>
        budget_fits (remaining_cost (pg_pages p)) (ft_reserve (pc_fetcher cfg)) (ec_budget (nt_esi (pp_net s))) \<Longrightarrow>
        s' = (set_g 1 \<lparr>g_phase = PSend p, g_tokens = 0\<rparr> s)\<lparr>pp_meta := p1_meta s p, pp_first := Some p,
               pp_main := MSend1\<rparr> \<Longrightarrow> P"
    and single: "\<And>p. pp_main s = MSend1 \<Longrightarrow> g_phase (pp_gs s 1) = PSend p \<Longrightarrow>
        length (pp_chan s) < chan_capacity \<Longrightarrow> pg_pages p = 1 \<Longrightarrow>
        s' = (set_g 1 \<lparr>g_phase = PSent p, g_tokens = 0\<rparr> s)\<lparr>pp_chan := pp_chan s @ [pg_orders p],
               pp_meta := (pp_meta s)\<lparr>sm_order_count := sm_order_count (pp_meta s) + int (length (pg_orders p)),
                  sm_duration := nt_now (pp_net s) - pp_start s\<rparr>,
               pp_main := MDone None\<rparr> \<Longrightarrow> P"
    and spawn: "\<And>p. pp_main s = MSend1 \<Longrightarrow> g_phase (pp_gs s 1) = PSend p \<Longrightarrow>
        length (pp_chan s) < chan_capacity \<Longrightarrow> pg_pages p \<noteq> 1 \<Longrightarrow>
        s' = s\<lparr>pp_chan := pp_chan s @ [pg_orders p],
               pp_meta := (pp_meta s)\<lparr>sm_order_count := sm_order_count (pp_meta s) + int (length (pg_orders p))\<rparr>,
               pp_main := MWait,
               pp_gs := (\<lambda>q. if 2 \<le> q \<and> q \<le> pg_pages p then fetch_start (pc_fetcher cfg)
                              else ((pp_gs s)(1 := \<lparr>g_phase = PSent p, g_tokens = 0\<rparr>)) q)\<rparr> \<Longrightarrow> P"
    and wait: "pp_main s = MWait \<Longrightarrow> (\<forall>p \<in> set (later_pages s). is_finished (g_phase (pp_gs s p))) \<Longrightarrow>
        s' = s\<lparr>pp_meta := (pp_meta s)\<lparr>sm_tokens := sm_tokens (pp_meta s) + pp_tokens s,
                  sm_order_count := sm_order_count (pp_meta s) + pp_count s,
                  sm_duration := nt_now (pp_net s) - pp_start s\<rparr>,
               pp_main := MDone (case pp_gerr s of Some er \<Rightarrow> Some er
                 | None \<Rightarrow> if pp_mismatch s \<or> pp_grew s
                     then Some (inconsistent_error (pc_region cfg) (pp_mismatch s) (pp_grew s)) else None)\<rparr> \<Longrightarrow> P"
    and stop: "pp_main s = MSend1 \<Longrightarrow> cancelled cfg 1 s \<Longrightarrow> s' = s\<lparr>pp_main := MDone (Some ECanceled)\<rparr> \<Longrightarrow> P"
    and join_fail: "\<And>p er. pp_main s = MWait \<Longrightarrow> 2 \<le> p \<Longrightarrow> p \<le> sm_pages (pp_meta s) \<Longrightarrow> g_phase (pp_gs s p) = PFailed er \<Longrightarrow>
        s' = group_error (page_error (pc_region cfg) p er)
               (set_g p \<lparr>g_phase = PDead, g_tokens = 0\<rparr> (s\<lparr>pp_tokens := pp_tokens s + g_tokens (pp_gs s p)\<rparr>)) \<Longrightarrow> P"
    and join_nil: "\<And>p. pp_main s = MWait \<Longrightarrow> 2 \<le> p \<Longrightarrow> p \<le> sm_pages (pp_meta s) \<Longrightarrow> g_phase (pp_gs s p) = PNil \<Longrightarrow>
        s' = s\<lparr>pp_tokens := pp_tokens s + g_tokens (pp_gs s p), pp_main := MPanic\<rparr> \<Longrightarrow> P"
    and join_ok: "\<And>p pg f. pp_main s = MWait \<Longrightarrow> 2 \<le> p \<Longrightarrow> p \<le> sm_pages (pp_meta s) \<Longrightarrow> g_phase (pp_gs s p) = PGot pg \<Longrightarrow>
        pp_first s = Some f \<Longrightarrow>
        s' = (set_g p \<lparr>g_phase = PSend pg, g_tokens = 0\<rparr> s)\<lparr>pp_tokens := pp_tokens s + g_tokens (pp_gs s p),
               pp_mismatch := (pp_mismatch s \<or> pg_last_modified pg \<noteq> pg_last_modified f),
               pp_grew := (pp_grew s \<or> pg_pages pg \<noteq> pg_pages f),
               pp_count := pp_count s + int (length (pg_orders pg))\<rparr> \<Longrightarrow> P"
    and send: "\<And>p pg. pp_main s = MWait \<Longrightarrow> 2 \<le> p \<Longrightarrow> g_phase (pp_gs s p) = PSend pg \<Longrightarrow>
        length (pp_chan s) < chan_capacity \<Longrightarrow>
        s' = (set_g p ((pp_gs s p)\<lparr>g_phase := PSent pg\<rparr>) s)\<lparr>pp_chan := pp_chan s @ [pg_orders pg]\<rparr> \<Longrightarrow> P"
    and send_stop: "\<And>p pg. pp_main s = MWait \<Longrightarrow> 2 \<le> p \<Longrightarrow> g_phase (pp_gs s p) = PSend pg \<Longrightarrow> cancelled cfg p s \<Longrightarrow>
        s' = group_error ECanceled (set_g p ((pp_gs s p)\<lparr>g_phase := PDead\<rparr>) s) \<Longrightarrow> P"
    and recv: "\<And>b rest. pp_chan s = b # rest \<Longrightarrow> pp_copy s = CRunning \<Longrightarrow>
        s' = s\<lparr>pp_chan := rest, pp_recv := pp_recv s @ [b]\<rparr> \<Longrightarrow> P"
    and recv_drain: "\<And>b rest f. pp_chan s = b # rest \<Longrightarrow> pp_copy s = CFailed f \<Longrightarrow> drains f \<Longrightarrow>
        s' = s\<lparr>pp_chan := rest\<rparr> \<Longrightarrow> P"
    and copy_end: "pp_copy s = CRunning \<Longrightarrow> pp_chan s = [] \<Longrightarrow> sweep_returned s \<Longrightarrow> pc_staged cfg \<Longrightarrow>
        list_all (pc_castable cfg) (concat (pp_recv s)) \<Longrightarrow> s' = s\<lparr>pp_copy := CDone, pp_copied_at := nt_now (pp_net s)\<rparr> \<Longrightarrow> P"
    and copy_fail: "\<And>f. pp_copy s = CRunning \<Longrightarrow> s' = s\<lparr>pp_copy := CFailed f, pp_copied_at := nt_now (pp_net s), pp_cancel := True\<rparr> \<Longrightarrow> P"
  shows P
proof (cases e)
  case EvMain
  show ?thesis
  proof (cases "pp_main s")
    case MStart
    with step EvMain show ?thesis
      by (auto simp: main_start_def Let_def split: if_splits intro: defer0 start)
  next
    case MPage1
    with step EvMain show ?thesis
      by (auto simp: main_page1_def Let_def split: pphase.splits if_splits intro: p1_fail p1_nil p1_defer p1_ok)
  next
    case MSend1
    with step EvMain show ?thesis
      by (auto simp: main_send1_def Let_def set_g_def cong: if_cong split: pphase.splits if_splits
          intro: single [unfolded set_g_def] spawn [unfolded set_g_def])
  next
    case MWait
    with step EvMain show ?thesis
      by (auto simp: main_wait_def Let_def list_all_iff split: if_splits intro: wait)
  next
    case (MDone r)
    with step EvMain show ?thesis by simp
  next
    case MPanic
    with step EvMain show ?thesis by simp
  qed
next
  case EvMainStop
  with step show ?thesis by (auto split: if_splits intro: stop)
next
  case (EvGo p)
  with step obtain k where k: "g_phase (pp_gs s p) = PTrying k" "in_flight s < pc_conc cfg"
    "s' = set_g p (fetch_go (pp_gs s p)) s"
    by (auto split: pphase.splits if_splits)
  show ?thesis
  proof (rule local)
    show "local_move cfg p s (fetch_go (pp_gs s p)) (pp_net s)"
      using k by (simp add: local_move_def phase_preds fetch_go_def Let_def)
    show "s' = (set_g p (fetch_go (pp_gs s p)) s)\<lparr>pp_net := pp_net s\<rparr>"
      using k by (simp add: set_g_def)
    show "got_from cfg e p s (fetch_go (pp_gs s p))" using k by (simp add: got_from_def fetch_go_def)
  qed
next
  case (EvNoSlot p)
  with step obtain k where k: "g_phase (pp_gs s p) = PTrying k"
    "s' = set_g p ((pp_gs s p)\<lparr>g_phase := PDecide k ECanceled\<rparr>) s"
    by (auto split: pphase.splits if_splits)
  show ?thesis
  proof (rule local)
    show "local_move cfg p s ((pp_gs s p)\<lparr>g_phase := PDecide k ECanceled\<rparr>) (pp_net s)"
      using k by (auto simp: local_move_def phase_preds Let_def)
    show "s' = (set_g p ((pp_gs s p)\<lparr>g_phase := PDecide k ECanceled\<rparr>) s)\<lparr>pp_net := pp_net s\<rparr>"
      using k by (simp add: set_g_def)
    show "got_from cfg e p s ((pp_gs s p)\<lparr>g_phase := PDecide k ECanceled\<rparr>)" by (simp add: got_from_def)
  qed
next
  case (EvAnswer p x)
  with step obtain k g n where k: "g_phase (pp_gs s p) = PFlight k"
    "fetch_answer (pc_codec cfg) x (pc_region cfg) p (pp_gs s p) (pp_net s) = (g, n)"
    "s' = (set_g p g s)\<lparr>pp_net := n\<rparr>"
    by (auto split: pphase.splits prod.splits)
  show ?thesis
  proof (rule local [OF local_answer [OF k(1,2)] k(3)])
    show "got_from cfg e p s g"
      using k(1,2) EvAnswer by (auto simp: got_from_def fetch_answer_def Let_def split: prod.splits fetched.splits)
  qed
next
  case (EvDecide p)
  with step obtain k er where k: "g_phase (pp_gs s p) = PDecide k er"
    "s' = set_g p (fetch_decide (pc_fetcher cfg) (cancelled cfg p s) (pp_gs s p) (pp_net s)) s"
    by (auto split: pphase.splits)
  show ?thesis
    by (rule local [OF local_decide [OF k(1), of cfg "cancelled cfg p s"]])
      (simp_all add: k set_g_def got_from_def fetch_decide_def)
next
  case (EvWake p)
  with step obtain k t er g n where k: "g_phase (pp_gs s p) = PBackoff k t er"
    "fetch_wake (pp_gs s p) (pp_net s) = (g, n)" "s' = (set_g p g s)\<lparr>pp_net := n\<rparr>"
    by (auto split: pphase.splits prod.splits if_splits)
  show ?thesis
    by (rule local [OF local_wake [OF k(1,2)] k(3)]) (use k(1,2) in \<open>auto simp: got_from_def fetch_wake_def\<close>)
next
  case (EvInterrupt p)
  with step obtain k t er g n where k: "g_phase (pp_gs s p) = PBackoff k t er"
    "fetch_interrupt (pc_ctx cfg) (pp_gs s p) (pp_net s) = (g, n)" "s' = (set_g p g s)\<lparr>pp_net := n\<rparr>"
    by (auto split: pphase.splits prod.splits if_splits)
  show ?thesis
    by (rule local [OF local_interrupt [OF k(1,2)] k(3)]) (use k(1,2) in \<open>auto simp: got_from_def fetch_interrupt_def\<close>)
next
  case (EvJoin p)
  with step show ?thesis
    by (auto simp: page_join_def Let_def set_g_def split: pphase.splits option.splits if_splits
        intro: join_fail [unfolded set_g_def] join_nil join_ok [unfolded set_g_def])
next
  case (EvSend p)
  with step show ?thesis by (auto split: pphase.splits if_splits intro: send)
next
  case (EvSendStop p)
  with step show ?thesis by (auto split: pphase.splits if_splits intro: send_stop)
next
  case EvRecv
  with step show ?thesis
    by (auto split: list.splits copy_phase.splits if_splits intro: recv recv_drain)
next
  case EvCopyEnd
  with step show ?thesis by (auto split: if_splits intro: copy_end)
next
  case (EvCopyFail f)
  with step show ?thesis by (auto split: if_splits intro: copy_fail)
qed

end
