(* ===== verification/Sweep_Inv.thy ===== *)
theory Sweep_Inv
  imports Sweep_Steps
begin

text \<open>
  Invariants of the sweep's transition system: where each goroutine can be
  (\<open>pipe_shape\<close>), what the consistency flags know (\<open>pipe_consistent\<close>), and four
  conservation laws, one per quantity the cycle relies on: batches in the channel,
  orders counted, tokens booked, requests sent. Each is a sum over the page
  goroutines that every step keeps.
\<close>

section \<open>Where the goroutines are\<close>

definition page_range :: "pipe \<Rightarrow> int set" where
  "page_range s = {1..max 1 (sm_pages (pp_meta s))}"

lemma page_range_finite [simp]: "finite (page_range s)"
  by (simp add: page_range_def)

lemma page_range_1 [simp]: "1 \<in> page_range s"
  by (simp add: page_range_def)

lemma set_pages [simp]:
  "set (all_pages s) = page_range s"
  "set (later_pages s) = {2..sm_pages (pp_meta s)}"
  by (simp_all add: all_pages_def later_pages_def page_range_def)

lemma page_range_later: "2 \<le> p \<Longrightarrow> p \<le> sm_pages (pp_meta s) \<Longrightarrow> p \<in> page_range s"
  by (simp add: page_range_def)

definition g_idle :: pgo where
  "g_idle = \<lparr>g_phase = PIdle, g_tokens = 0\<rparr>"

definition meta_of_page :: "sweep_meta \<Rightarrow> order_page \<Rightarrow> bool" where
  "meta_of_page m p \<longleftrightarrow> sm_pages m = pg_pages p \<and> sm_expires m = pg_expires p \<and>
     sm_last_modified m = pg_last_modified p"

text \<open>Nothing of the group has happened yet.\<close>

definition group_clean :: "pipe \<Rightarrow> bool" where
  "group_clean s \<longleftrightarrow> pp_gerr s = None \<and> pp_tokens s = 0 \<and> pp_count s = 0 \<and>
     \<not> pp_mismatch s \<and> \<not> pp_grew s \<and> sm_order_count (pp_meta s) = 0"

definition quiet :: "pphase \<Rightarrow> bool" where
  "quiet ph \<longleftrightarrow> \<not> looping ph \<and> \<not> returned ph"

definition main_shape :: "pcfg \<Rightarrow> pipe \<Rightarrow> bool" where
  "main_shape cfg s =
     (case pp_main s of
        MStart \<Rightarrow> (\<forall>p. pp_gs s p = g_idle) \<and> sm_pages (pp_meta s) = 0 \<and> group_clean s
      | MPage1 \<Rightarrow> (looping (g_phase (pp_gs s 1)) \<or> returned (g_phase (pp_gs s 1))) \<and>
          (\<forall>p. p \<noteq> 1 \<longrightarrow> pp_gs s p = g_idle) \<and> sm_pages (pp_meta s) = 0 \<and> group_clean s
      | MSend1 \<Rightarrow> (\<exists>f. g_phase (pp_gs s 1) = PSend f \<and> pp_first s = Some f \<and> meta_of_page (pp_meta s) f) \<and>
          (\<forall>p. p \<noteq> 1 \<longrightarrow> pp_gs s p = g_idle) \<and> group_clean s
      | MWait \<Rightarrow> (\<exists>f. g_phase (pp_gs s 1) = PSent f \<and> pp_first s = Some f \<and> meta_of_page (pp_meta s) f) \<and>
          (\<forall>p. 2 \<le> p \<and> p \<le> sm_pages (pp_meta s) \<longrightarrow> g_phase (pp_gs s p) \<noteq> PIdle)
      | MDone r \<Rightarrow> (\<forall>p. quiet (g_phase (pp_gs s p)))
      | MPanic \<Rightarrow> True)"

definition pipe_shape :: "pcfg \<Rightarrow> pipe \<Rightarrow> bool" where
  "pipe_shape cfg s \<longleftrightarrow>
     (\<forall>p. p \<notin> page_range s \<longrightarrow> pp_gs s p = g_idle) \<and>
     (\<forall>p. attempt_ok (ft_page_attempts (pc_fetcher cfg)) (g_phase (pp_gs s p))) \<and>
     main_shape cfg s"

lemma g_idle_simps [simp]: "g_phase g_idle = PIdle" "g_tokens g_idle = 0"
  by (simp_all add: g_idle_def)

lemma quiet_simps [simp]:
  "quiet PIdle" "quiet (PSend p)" "quiet (PSent p)" "quiet PDead"
  "\<not> quiet (PTrying k)" "\<not> quiet (PFlight k)" "\<not> quiet (PDecide k e)" "\<not> quiet (PBackoff k t e)"
  "\<not> quiet (PGot p)" "\<not> quiet (PFailed e)" "\<not> quiet PNil"
  by (simp_all add: quiet_def phase_preds)

lemma phase_simps [simp]:
  "looping (PTrying k)" "looping (PFlight k)" "looping (PDecide k e)" "looping (PBackoff k t e)"
  "\<not> looping PIdle" "\<not> looping (PGot p)" "\<not> looping (PFailed e)" "\<not> looping PNil"
  "\<not> looping (PSend p)" "\<not> looping (PSent p)" "\<not> looping PDead"
  "returned (PGot p)" "returned (PFailed e)" "returned PNil"
  "\<not> returned PIdle" "\<not> returned (PSend p)" "\<not> returned (PSent p)" "\<not> returned PDead"
  "attempt_ok A PIdle" "attempt_ok A (PGot p)" "attempt_ok A (PFailed e)" "attempt_ok A PNil"
  "attempt_ok A (PSend p)" "attempt_ok A (PSent p)" "attempt_ok A PDead"
  "rem_requests A PIdle = 0" "rem_requests A (PGot p) = 0" "rem_requests A (PFailed e) = 0"
  "rem_requests A PNil = 0" "rem_requests A (PSend p) = 0" "rem_requests A (PSent p) = 0"
  "rem_requests A PDead = 0"
  "\<not> is_flight PIdle" "\<not> is_flight (PGot p)" "\<not> is_flight (PFailed e)" "\<not> is_flight PNil"
  "\<not> is_flight (PSend p)" "\<not> is_flight (PSent p)" "\<not> is_flight PDead"
  "is_finished (PSent p)" "is_finished PDead"
  by (simp_all add: phase_preds)

lemma finished_quiet: "is_finished ph \<Longrightarrow> quiet ph"
  by (auto simp: quiet_def phase_preds split: pphase.splits)

lemma fetch_start_simps [simp]:
  "attempt_ok (ft_page_attempts f) (g_phase (fetch_start f))"
  "g_tokens (fetch_start f) = 0"
  "\<not> is_flight (g_phase (fetch_start f))"
  "g_phase (fetch_start f) \<noteq> PIdle"
  "looping (g_phase (fetch_start f)) \<or> returned (g_phase (fetch_start f))"
  "rem_requests (ft_page_attempts f) (g_phase (fetch_start f)) = max 0 (ft_page_attempts f)"
  by (auto simp: fetch_start_def phase_preds)

lemma set_g_simps [simp]:
  "pp_gs (set_g p g s) = (pp_gs s)(p := g)"
  "pp_main (set_g p g s) = pp_main s" "pp_meta (set_g p g s) = pp_meta s"
  "pp_first (set_g p g s) = pp_first s" "pp_net (set_g p g s) = pp_net s"
  "pp_gerr (set_g p g s) = pp_gerr s" "pp_tokens (set_g p g s) = pp_tokens s"
  "pp_count (set_g p g s) = pp_count s" "pp_mismatch (set_g p g s) = pp_mismatch s"
  "pp_grew (set_g p g s) = pp_grew s" "pp_chan (set_g p g s) = pp_chan s"
  "pp_recv (set_g p g s) = pp_recv s" "pp_copy (set_g p g s) = pp_copy s"
  "pp_cancel (set_g p g s) = pp_cancel s" "pp_start (set_g p g s) = pp_start s"
  by (simp_all add: set_g_def)

lemma group_error_simps [simp]:
  "pp_gs (group_error e s) = pp_gs s"
  "pp_main (group_error e s) = pp_main s" "pp_meta (group_error e s) = pp_meta s"
  "pp_first (group_error e s) = pp_first s" "pp_net (group_error e s) = pp_net s"
  "pp_tokens (group_error e s) = pp_tokens s"
  "pp_count (group_error e s) = pp_count s" "pp_mismatch (group_error e s) = pp_mismatch s"
  "pp_grew (group_error e s) = pp_grew s" "pp_chan (group_error e s) = pp_chan s"
  "pp_recv (group_error e s) = pp_recv s" "pp_copy (group_error e s) = pp_copy s"
  "pp_cancel (group_error e s) = pp_cancel s" "pp_start (group_error e s) = pp_start s"
  "pp_gerr (group_error e s) \<noteq> None"
  by (simp_all add: group_error_def split: option.split)

lemma page_range_cong:
  "sm_pages (pp_meta s') = sm_pages (pp_meta s) \<Longrightarrow> page_range s' = page_range s"
  by (simp add: page_range_def)

lemma pipe_shape_init: "pipe_shape cfg (pipe_init n)"
  by (simp add: pipe_shape_def main_shape_def pipe_init_def g_idle_def group_clean_def meta_init_def)

text \<open>A goroutine that is not idle runs for a page of the region.\<close>

lemma shape_page: "pipe_shape cfg s \<Longrightarrow> g_phase (pp_gs s p) \<noteq> PIdle \<Longrightarrow> p \<in> page_range s"
  by (auto simp: pipe_shape_def)

lemma local_page: "pipe_shape cfg s \<Longrightarrow> local_move cfg p s g n \<Longrightarrow> p \<in> page_range s"
  by (rule shape_page) (auto simp: local_move_def Let_def)

lemma pipe_shape_local:
  assumes "pipe_shape cfg s" "local_move cfg p s g n" "s' = (set_g p g s)\<lparr>pp_net := n\<rparr>"
  shows "pipe_shape cfg s'"
proof -
  have p: "p \<in> page_range s" using assms(1,2) by (rule local_page)
  have range': "page_range s' = page_range s" using assms(3) by (simp add: page_range_def)
  have phases: "looping (g_phase (pp_gs s p))" "looping (g_phase g) \<or> returned (g_phase g)"
    "attempt_ok (ft_page_attempts (pc_fetcher cfg)) (g_phase g)"
    using assms(1,2) by (auto simp: local_move_def Let_def pipe_shape_def)
  then have nonidle: "g_phase g \<noteq> PIdle" by auto
  have "main_shape cfg s" using assms(1) by (simp add: pipe_shape_def)
  then have "main_shape cfg s'"
  proof (cases "pp_main s")
    case MStart
    with \<open>main_shape cfg s\<close> phases show ?thesis by (simp add: main_shape_def)
  next
    case MPage1
    with \<open>main_shape cfg s\<close> phases(1) have "p = 1" by (auto simp: main_shape_def)
    with MPage1 \<open>main_shape cfg s\<close> phases(2) assms(3) show ?thesis
      by (simp add: main_shape_def group_clean_def)
  next
    case MSend1
    with \<open>main_shape cfg s\<close> phases(1) show ?thesis by (cases "p = 1") (auto simp: main_shape_def)
  next
    case MWait
    with \<open>main_shape cfg s\<close> phases(1) have "p \<noteq> 1" by (auto simp: main_shape_def)
    with MWait \<open>main_shape cfg s\<close> nonidle assms(3) show ?thesis by (auto simp: main_shape_def)
  next
    case (MDone r)
    with \<open>main_shape cfg s\<close> phases(1) show ?thesis by (auto simp: main_shape_def quiet_def)
  next
    case MPanic
    with assms(3) show ?thesis by (simp add: main_shape_def)
  qed
  with assms(1,3) p range' phases(3) show ?thesis
    by (auto simp: pipe_shape_def)
qed

lemma pipe_shape_step:
  assumes "pipe_step cfg e s = Some s'" "pipe_shape cfg s"
  shows "pipe_shape cfg s'"
  using assms(1)
proof (cases rule: pipe_step_cases)
  case (local p g n)
  with assms(2) show ?thesis by (blast intro: pipe_shape_local)
next
  case (wait)
  have "quiet (g_phase (pp_gs s p))" for p
  proof (cases "2 \<le> p \<and> p \<le> sm_pages (pp_meta s)")
    case True
    with wait(2) show ?thesis by (auto intro: finished_quiet)
  next
    case False
    then have "p = 1 \<or> p \<notin> page_range s" by (auto simp: page_range_def)
    with assms(2) wait(1) show ?thesis by (auto simp: pipe_shape_def main_shape_def)
  qed
  with wait assms(2) show ?thesis by (auto simp: pipe_shape_def main_shape_def page_range_def)
next
  case (spawn p)
  then show ?thesis using assms(2)
    by (auto simp: pipe_shape_def main_shape_def page_range_def meta_of_page_def)
next
  case stop
  have "quiet (g_phase (pp_gs s p))" for p
    using assms(2) stop(1) by (cases "p = 1") (auto simp: pipe_shape_def main_shape_def)
  with stop assms(2) show ?thesis by (auto simp: pipe_shape_def main_shape_def page_range_def)
qed (use assms(2) in \<open>auto simp: pipe_shape_def main_shape_def page_range_def meta_of_page_def group_clean_def sweep_returned_def split: main_phase.splits\<close>)

text \<open>Runs keep what steps keep.\<close>

lemma pipe_run_keeps:
  assumes "\<And>e s s'. pipe_step cfg e s = Some s' \<Longrightarrow> I s \<Longrightarrow> I s'"
  shows "pipe_run cfg es s = Some s' \<Longrightarrow> I s \<Longrightarrow> I s'"
proof (induction es arbitrary: s)
  case Nil
  then show ?case by simp
next
  case (Cons e es)
  then show ?case by (auto split: option.splits dest: assms)
qed

lemma pipe_shape_run: "pipe_run cfg es (pipe_init n) = Some s \<Longrightarrow> pipe_shape cfg s"
  by (rule pipe_run_keeps [where I = "pipe_shape cfg"]) (auto simp: pipe_shape_step pipe_shape_init)

section \<open>What the consistency flags know\<close>

text \<open>The page a goroutine has checked against page 1.\<close>

definition checked_page :: "pphase \<Rightarrow> order_page option" where
  "checked_page ph = (case ph of PSend p \<Rightarrow> Some p | PSent p \<Rightarrow> Some p | _ \<Rightarrow> None)"

definition group_consistent :: "order_page \<Rightarrow> pipe \<Rightarrow> bool" where
  "group_consistent f s \<longleftrightarrow>
     (\<forall>p \<in> {2..sm_pages (pp_meta s)}.
        (g_phase (pp_gs s p) = PDead \<longrightarrow> pp_gerr s \<noteq> None) \<and>
        (\<forall>pg. checked_page (g_phase (pp_gs s p)) = Some pg \<longrightarrow>
           (\<not> pp_mismatch s \<longrightarrow> pg_last_modified pg = pg_last_modified f) \<and>
           (\<not> pp_grew s \<longrightarrow> pg_pages pg = pg_pages f)))"

text \<open>A complete page set of one snapshot, every page of it in the channel.\<close>

definition page_set_sent :: "pipe \<Rightarrow> bool" where
  "page_set_sent s \<longleftrightarrow>
     (\<exists>f. pp_first s = Some f \<and> g_phase (pp_gs s 1) = PSent f \<and> meta_of_page (pp_meta s) f \<and>
        (\<forall>p \<in> {2..sm_pages (pp_meta s)}. \<exists>pg. g_phase (pp_gs s p) = PSent pg \<and>
           pg_last_modified pg = pg_last_modified f \<and> pg_pages pg = pg_pages f))"

definition pipe_consistent :: "pcfg \<Rightarrow> pipe \<Rightarrow> bool" where
  "pipe_consistent cfg s \<longleftrightarrow> pipe_shape cfg s \<and>
     (pp_main s = MWait \<longrightarrow> (\<forall>f. pp_first s = Some f \<longrightarrow> group_consistent f s)) \<and>
     (pp_main s = MDone None \<longrightarrow> pp_gerr s = None \<and> page_set_sent s)"

lemma checked_page_simps [simp]:
  "checked_page (PSend p) = Some p" "checked_page (PSent p) = Some p"
  "checked_page PIdle = None" "checked_page (PTrying k) = None" "checked_page (PFlight k) = None"
  "checked_page (PDecide k e) = None" "checked_page (PBackoff k t e) = None"
  "checked_page (PGot p) = None" "checked_page (PFailed e) = None" "checked_page PNil = None"
  "checked_page PDead = None"
  by (simp_all add: checked_page_def)

lemma checked_page_loop:
  "looping ph \<or> returned ph \<Longrightarrow> checked_page ph = None"
  "looping ph \<or> returned ph \<Longrightarrow> ph \<noteq> PDead"
  by (auto simp: phase_preds checked_page_def split: pphase.splits)

lemma pipe_consistent_init: "pipe_consistent cfg (pipe_init n)"
  by (simp add: pipe_consistent_def pipe_shape_init) (simp add: pipe_init_def)

lemma wait_page_set:
  assumes "pipe_consistent cfg s" "pp_main s = MWait"
    "\<forall>p \<in> set (later_pages s). is_finished (g_phase (pp_gs s p))"
    "pp_gerr s = None" "\<not> pp_mismatch s" "\<not> pp_grew s"
  shows "page_set_sent s"
proof -
  from assms(1,2) obtain f where f: "pp_first s = Some f" "g_phase (pp_gs s 1) = PSent f"
    "meta_of_page (pp_meta s) f" "group_consistent f s"
    by (auto simp: pipe_consistent_def pipe_shape_def main_shape_def)
  have "\<exists>pg. g_phase (pp_gs s p) = PSent pg \<and> pg_last_modified pg = pg_last_modified f \<and> pg_pages pg = pg_pages f"
    if p: "p \<in> {2..sm_pages (pp_meta s)}" for p
  proof -
    from p assms(3) have "is_finished (g_phase (pp_gs s p))" by simp
    moreover have "g_phase (pp_gs s p) \<noteq> PDead" using p f(4) assms(4) by (auto simp: group_consistent_def)
    ultimately obtain pg where pg: "g_phase (pp_gs s p) = PSent pg"
      by (auto simp: is_finished_def split: pphase.splits)
    with p f(4) assms(5,6) show ?thesis by (auto simp: group_consistent_def)
  qed
  with f(1-3) show ?thesis by (auto simp: page_set_sent_def)
qed

lemma page_set_sent_cong:
  "pp_first s' = pp_first s \<Longrightarrow> pp_gs s' = pp_gs s \<Longrightarrow>
   sm_pages (pp_meta s') = sm_pages (pp_meta s) \<Longrightarrow> sm_expires (pp_meta s') = sm_expires (pp_meta s) \<Longrightarrow>
   sm_last_modified (pp_meta s') = sm_last_modified (pp_meta s) \<Longrightarrow>
   page_set_sent s' = page_set_sent s"
  by (simp add: page_set_sent_def meta_of_page_def)

lemma pipe_consistent_cong:
  assumes "pipe_consistent cfg s" "pipe_shape cfg s'"
    "pp_main s' = pp_main s" "pp_first s' = pp_first s" "pp_gs s' = pp_gs s" "pp_meta s' = pp_meta s"
    "pp_gerr s' = pp_gerr s" "pp_mismatch s' = pp_mismatch s" "pp_grew s' = pp_grew s"
  shows "pipe_consistent cfg s'"
proof -
  have "page_set_sent s' = page_set_sent s" using assms(3-) by (intro page_set_sent_cong) simp_all
  moreover have "group_consistent f s' = group_consistent f s" for f
    using assms(3-) by (simp add: group_consistent_def)
  ultimately show ?thesis using assms by (simp add: pipe_consistent_def)
qed

lemma pipe_consistent_step:
  assumes "pipe_step cfg e s = Some s'" "pipe_consistent cfg s"
  shows "pipe_consistent cfg s'"
proof -
  from assms have shape: "pipe_shape cfg s'" by (auto simp: pipe_consistent_def intro: pipe_shape_step)
  from assms(2) have old: "pipe_shape cfg s" "main_shape cfg s"
    by (auto simp: pipe_consistent_def pipe_shape_def)
  from assms(1) show ?thesis
  proof (cases rule: pipe_step_cases)
    case (local p g n)
    then have lp: "looping (g_phase (pp_gs s p))" "looping (g_phase g) \<or> returned (g_phase g)"
      by (auto simp: local_move_def Let_def)
    then have "pp_main s \<noteq> MDone None" using old(2) by (auto simp: main_shape_def quiet_def)
    moreover have "group_consistent f s'" if "group_consistent f s" for f
      using that local(2) checked_page_loop [OF lp(2)] by (simp add: group_consistent_def)
    ultimately show ?thesis using local(2) assms(2) shape by (simp add: pipe_consistent_def)
  next
    case (wait)
    show ?thesis
    proof (cases "pp_main s' = MDone None")
      case True
      with wait(3) have "pp_gerr s = None" "\<not> pp_mismatch s" "\<not> pp_grew s"
        by (auto split: option.splits if_splits)
      then have "page_set_sent s" using wait_page_set [OF assms(2) wait(1,2)] by simp
      moreover have "page_set_sent s' = page_set_sent s"
        by (rule page_set_sent_cong) (simp_all add: wait(3))
      moreover have "pp_gerr s' = None" "pp_main s' \<noteq> MWait"
        using wait(3) \<open>pp_gerr s = None\<close> by simp_all
      ultimately show ?thesis using shape by (simp add: pipe_consistent_def)
    next
      case False
      moreover have "pp_main s' \<noteq> MWait" using wait(3) by simp
      ultimately show ?thesis using shape by (simp only: pipe_consistent_def simp_thms)
    qed
  next
    case (single p)
    with old(2) shape show ?thesis
      by (auto simp: pipe_consistent_def page_set_sent_def main_shape_def meta_of_page_def group_clean_def)
  next
    case (spawn p)
    let ?g = "fetch_start (pc_fetcher cfg)"
    have "checked_page (g_phase ?g) = None" "g_phase ?g \<noteq> PDead"
      using checked_page_loop [OF fetch_start_simps(5) [of "pc_fetcher cfg"]] by auto
    moreover have "sm_pages (pp_meta s) = pg_pages p"
      using spawn(1,2) old(2) by (auto simp: main_shape_def meta_of_page_def)
    ultimately have "group_consistent f s'" for f using spawn(5) by (simp add: group_consistent_def)
    with spawn(5) shape show ?thesis by (simp add: pipe_consistent_def)
  next
    case (recv b rest)
    show ?thesis by (rule pipe_consistent_cong [OF assms(2) shape]) (simp_all add: recv)
  next
    case (recv_drain b rest f)
    show ?thesis by (rule pipe_consistent_cong [OF assms(2) shape]) (simp_all add: recv_drain)
  next
    case copy_end
    show ?thesis by (rule pipe_consistent_cong [OF assms(2) shape]) (simp_all add: copy_end)
  next
    case (copy_fail f)
    show ?thesis by (rule pipe_consistent_cong [OF assms(2) shape]) (simp_all add: copy_fail)
  next
    case (join_fail p er)
    have "group_consistent f s \<Longrightarrow> group_consistent f s'" for f
      by (simp add: join_fail(5) group_consistent_def)
    with join_fail assms(2) shape show ?thesis by (simp add: pipe_consistent_def)
  next
    case (join_ok p pg f)
    have "group_consistent f s \<Longrightarrow> group_consistent f s'"
      by (auto simp add: join_ok(6) group_consistent_def)
    with join_ok assms(2) shape show ?thesis by (simp add: pipe_consistent_def)
  next
    case (send p pg)
    have "group_consistent f s \<Longrightarrow> group_consistent f s'" for f
      using send(3) by (auto simp add: send(5) group_consistent_def)
    with send assms(2) shape show ?thesis by (simp add: pipe_consistent_def)
  next
    case (send_stop p pg)
    have "group_consistent f s \<Longrightarrow> group_consistent f s'" for f
      by (simp add: send_stop(5) group_consistent_def)
    with send_stop assms(2) shape show ?thesis by (simp add: pipe_consistent_def)
  qed (use shape in \<open>simp_all add: pipe_consistent_def\<close>)
qed

lemma pipe_consistent_run: "pipe_run cfg es (pipe_init n) = Some s \<Longrightarrow> pipe_consistent cfg s"
  by (rule pipe_run_keeps [where I = "pipe_consistent cfg"]) (auto simp: pipe_consistent_step pipe_consistent_init)

end
