(* ===== verification/Sweep_Laws.thy ===== *)
theory Sweep_Laws
  imports Sweep_Inv "HOL-Library.Multiset"
begin

text \<open>
  The conservation laws of a sweep. Each quantity is a sum over the page goroutines
  (\<open>page_sum\<close>), so a move of one goroutine is one update of the sum: batches
  in the channel, orders counted, tokens booked, requests sent, slots held.
\<close>

section \<open>Sums over the page goroutines\<close>

definition page_sum :: "(pgo \<Rightarrow> 'a::comm_monoid_add) \<Rightarrow> pipe \<Rightarrow> 'a" where
  "page_sum h s = (\<Sum>p\<in>page_range s. h (pp_gs s p))"

lemma page_sum_upd:
  assumes "p \<in> page_range s"
    "pp_gs s' = (pp_gs s)(p := g)" "sm_pages (pp_meta s') = sm_pages (pp_meta s)"
  shows "page_sum h s' + h (pp_gs s p) = page_sum h s + h g"
  using sum_fun_upd_in [of "page_range s" p h "pp_gs s" g] assms
  by (simp add: page_sum_def page_range_cong [of s' s])

lemma page_sum_cong:
  "pp_gs s' = pp_gs s \<Longrightarrow> sm_pages (pp_meta s') = sm_pages (pp_meta s) \<Longrightarrow> page_sum h s' = page_sum h s"
  by (simp add: page_sum_def page_range_def)

text \<open>Only page 1 has a goroutine that is not idle.\<close>

definition only_first :: "pipe \<Rightarrow> bool" where
  "only_first s \<longleftrightarrow> (\<forall>p. p \<noteq> 1 \<longrightarrow> pp_gs s p = g_idle)"

lemma page_sum_first:
  assumes "only_first s" "h g_idle = 0"
  shows "page_sum h s = h (pp_gs s 1)"
proof -
  have "(\<Sum>p\<in>page_range s. h (pp_gs s p)) = h (pp_gs s 1) + (\<Sum>p\<in>page_range s - {1}. h (pp_gs s p))"
    by (simp add: sum.remove [of "page_range s" 1])
  also have "(\<Sum>p\<in>page_range s - {1}. h (pp_gs s p)) = 0"
    using assms by (intro sum.neutral) (auto simp: only_first_def)
  finally show ?thesis by (simp add: page_sum_def)
qed

lemma shape_only_first:
  "main_shape cfg s \<Longrightarrow> pp_main s \<in> {MStart, MPage1, MSend1} \<Longrightarrow> only_first s"
  by (auto simp: main_shape_def only_first_def)

lemma page_sum_spawn:
  assumes "1 \<le> N \<Longrightarrow> sm_pages (pp_meta s') = N" "N < 1 \<Longrightarrow> sm_pages (pp_meta s') = N"
    "pp_gs s' = (\<lambda>q. if 2 \<le> q \<and> q \<le> N then g else if q = 1 then g1 else g_idle)"
  shows "page_sum h s' = h g1 + (\<Sum>p\<in>{2..N}. h g)"
proof -
  have "sm_pages (pp_meta s') = N" using assms(1,2) by linarith
  then have "page_range s' = insert 1 {2..N}" by (auto simp: page_range_def)
  then show ?thesis using assms(3) by (simp add: page_sum_def)
qed

text \<open>What a step does to a sum, when idle and fresh goroutines weigh nothing.\<close>

lemma page_sum_first_upd:
  assumes "only_first s" "pp_gs s' = (pp_gs s)(1 := g)" "h g_idle = 0"
  shows "page_sum h s' = h g" "page_sum h s = h (pp_gs s 1)"
proof -
  have "only_first s'" using assms(1,2) by (simp add: only_first_def)
  with assms show "page_sum h s' = h g" by (simp add: page_sum_first)
  from assms show "page_sum h s = h (pp_gs s 1)" by (simp add: page_sum_first)
qed

lemma spawn_gs:
  assumes "main_shape cfg s" "pp_main s = MSend1" "g_phase (pp_gs s 1) = PSend p"
    "pp_gs s' = (\<lambda>q. if 2 \<le> q \<and> q \<le> pg_pages p then g else ((pp_gs s)(1 := g1)) q)"
    "sm_pages (pp_meta s') = sm_pages (pp_meta s)"
  shows "page_sum h s' = h g1 + (\<Sum>q\<in>{2..pg_pages p}. h g)"
proof (rule page_sum_spawn)
  show "sm_pages (pp_meta s') = pg_pages p" using assms by (auto simp: main_shape_def meta_of_page_def)
  show "sm_pages (pp_meta s') = pg_pages p" using assms by (auto simp: main_shape_def meta_of_page_def)
  show "pp_gs s' = (\<lambda>q. if 2 \<le> q \<and> q \<le> pg_pages p then g else if q = 1 then g1 else g_idle)"
    using assms by (auto simp: main_shape_def fun_eq_iff)
qed

lemma shape_first: "pipe_shape cfg s \<Longrightarrow> pp_main s \<in> {MStart, MPage1, MSend1} \<Longrightarrow> only_first s"
  using shape_only_first [of cfg s] by (simp add: pipe_shape_def)

lemma sum_local:
  assumes "pipe_shape cfg s" "local_move cfg p s g n" "s' = (set_g p g s)\<lparr>pp_net := n\<rparr>"
  shows "page_sum h s' + h (pp_gs s p) = page_sum h s + h g"
  by (rule page_sum_upd) (use assms local_page in \<open>auto\<close>)

lemma sum_one:
  assumes "pipe_shape cfg s" "pp_main s = MWait" "2 \<le> p"
    "pp_gs s' = (pp_gs s)(p := g)" "sm_pages (pp_meta s') = sm_pages (pp_meta s)"
    "g_phase (pp_gs s p) \<noteq> PIdle"
  shows "page_sum h s' + h (pp_gs s p) = page_sum h s + h g"
  by (rule page_sum_upd) (use assms shape_page in \<open>auto\<close>)

section \<open>Batches\<close>

text \<open>The batches a goroutine has put into the channel.\<close>

definition g_sent :: "pgo \<Rightarrow> esi_order list multiset" where
  "g_sent g = (case g_phase g of PSent p \<Rightarrow> {#pg_orders p#} | _ \<Rightarrow> {#})"

definition batch_law :: "pipe \<Rightarrow> bool" where
  "batch_law s \<longleftrightarrow> ((\<forall>f. pp_copy s \<noteq> CFailed f) \<longrightarrow> mset (pp_recv s @ pp_chan s) = page_sum g_sent s)"

lemma g_sent_simps [simp]:
  "g_sent g_idle = {#}"
  "g_sent \<lparr>g_phase = PSent p, g_tokens = t\<rparr> = {#pg_orders p#}"
  "g_sent \<lparr>g_phase = PSend p, g_tokens = t\<rparr> = {#}"
  "g_sent \<lparr>g_phase = PDead, g_tokens = t\<rparr> = {#}"
  "g_phase g = PSend p \<Longrightarrow> g_sent g = {#}"
  "g_sent (g\<lparr>g_phase := PSent p\<rparr>) = {#pg_orders p#}"
  "g_sent (g\<lparr>g_phase := PDead\<rparr>) = {#}"
  by (simp_all add: g_sent_def)

lemma g_sent_loop [simp]:
  "looping (g_phase g) \<Longrightarrow> g_sent g = {#}" "returned (g_phase g) \<Longrightarrow> g_sent g = {#}"
  by (auto simp: g_sent_def phase_preds split: pphase.splits)

lemma g_sent_start [simp]: "g_sent (fetch_start f) = {#}"
  by (rule disjE [OF fetch_start_simps(5) [of f]]) simp_all

lemma batch_law_init: "batch_law (pipe_init n)"
  by (simp add: batch_law_def page_sum_def pipe_init_def page_range_def meta_init_def g_sent_def)

lemma batch_law_step:
  assumes "pipe_step cfg e s = Some s'" "pipe_shape cfg s" "batch_law s"
  shows "batch_law s'"
  using assms(1)
proof (cases rule: pipe_step_cases)
  case (local p g n)
  have "page_sum g_sent s' = page_sum g_sent s"
    using sum_local [OF assms(2) local(1,2), of g_sent] local(1) by (auto simp: local_move_def Let_def)
  with assms(3) local(2) show ?thesis by (simp add: batch_law_def)
next
  case start
  note f = page_sum_first_upd [OF shape_first [OF assms(2)], of s' "fetch_start (pc_fetcher cfg)" g_sent]
  have "pp_gs s 1 = g_idle" using assms(2) start(1) by (simp add: pipe_shape_def main_shape_def)
  with f start assms(3) show ?thesis by (simp add: batch_law_def)
next
  case (p1_fail er)
  note f = page_sum_first_upd [OF shape_first [OF assms(2)], of s' "\<lparr>g_phase = PDead, g_tokens = 0\<rparr>" g_sent]
  from f p1_fail assms(3) show ?thesis by (simp add: batch_law_def)
next
  case (p1_defer p r)
  note f = page_sum_first_upd [OF shape_first [OF assms(2)], of s' "\<lparr>g_phase = PSend p, g_tokens = 0\<rparr>" g_sent]
  from f p1_defer assms(3) show ?thesis by (simp add: batch_law_def)
next
  case (p1_ok p)
  note f = page_sum_first_upd [OF shape_first [OF assms(2)], of s' "\<lparr>g_phase = PSend p, g_tokens = 0\<rparr>" g_sent]
  from f p1_ok assms(3) show ?thesis by (simp add: batch_law_def)
next
  case (single p)
  note f = page_sum_first_upd [OF shape_first [OF assms(2)], of s' "\<lparr>g_phase = PSent p, g_tokens = 0\<rparr>" g_sent]
  have "page_sum g_sent s' = {#pg_orders p#}" "page_sum g_sent s = {#}" using f single(1,2) by (simp_all add: single(5))
  moreover have "pp_recv s' = pp_recv s" "pp_chan s' = pp_chan s @ [pg_orders p]" "pp_copy s' = pp_copy s"
    by (simp_all add: single(5))
  ultimately show ?thesis using assms(3) by (simp add: batch_law_def)
next
  case (spawn p)
  have "page_sum g_sent s' = {#pg_orders p#}"
    by (subst spawn_gs [OF _ spawn(1,2), of cfg s' "fetch_start (pc_fetcher cfg)" "\<lparr>g_phase = PSent p, g_tokens = 0\<rparr>"])
      (use assms(2) spawn in \<open>simp_all add: pipe_shape_def\<close>)
  moreover have "page_sum g_sent s = {#}"
    using page_sum_first [OF shape_first [OF assms(2)], of g_sent] spawn(1,2) by simp
  moreover have "pp_recv s' = pp_recv s" "pp_chan s' = pp_chan s @ [pg_orders p]" "pp_copy s' = pp_copy s"
    by (simp_all add: spawn(5))
  ultimately show ?thesis using assms(3) by (simp add: batch_law_def)
next
  case (join_fail p er)
  have "page_sum g_sent s' = page_sum g_sent s"
    using sum_one [OF assms(2) join_fail(1,2), of s' "\<lparr>g_phase = PDead, g_tokens = 0\<rparr>" g_sent] join_fail by simp
  with assms(3) join_fail(5) show ?thesis by (simp add: batch_law_def)
next
  case (join_ok p pg f)
  have "page_sum g_sent s' = page_sum g_sent s"
    using sum_one [OF assms(2) join_ok(1,2), of s' "\<lparr>g_phase = PSend pg, g_tokens = 0\<rparr>" g_sent] join_ok by simp
  with assms(3) join_ok(6) show ?thesis by (simp add: batch_law_def)
next
  case (send p pg)
  have "page_sum g_sent s' = page_sum g_sent s + {#pg_orders pg#}"
    using sum_one [OF assms(2) send(1,2), of s' "(pp_gs s p)\<lparr>g_phase := PSent pg\<rparr>" g_sent] send by simp
  with assms(3) send(5) show ?thesis by (simp add: batch_law_def)
next
  case (send_stop p pg)
  have "page_sum g_sent s' = page_sum g_sent s"
    using sum_one [OF assms(2) send_stop(1,2), of s' "(pp_gs s p)\<lparr>g_phase := PDead\<rparr>" g_sent] send_stop by simp
  with assms(3) send_stop(5) show ?thesis by (simp add: batch_law_def)
next
  case (recv b rest)
  with assms(3) page_sum_cong [of s' s g_sent] show ?thesis by (simp add: batch_law_def)
qed (use assms(3) in \<open>simp_all add: batch_law_def page_sum_def page_range_def\<close>)

section \<open>Orders counted\<close>

text \<open>The orders of the page a goroutine has counted.\<close>

definition g_held :: "pgo \<Rightarrow> int" where
  "g_held g = (case checked_page (g_phase g) of Some p \<Rightarrow> int (length (pg_orders p)) | None \<Rightarrow> 0)"

definition count_law :: "pipe \<Rightarrow> bool" where
  "count_law s \<longleftrightarrow>
     (pp_main s = MWait \<longrightarrow> pp_gerr s = None \<longrightarrow>
        sm_order_count (pp_meta s) + pp_count s = page_sum g_held s) \<and>
     (pp_main s = MDone None \<longrightarrow> sm_order_count (pp_meta s) = page_sum g_held s)"

lemma g_held_simps [simp]:
  "g_held g_idle = 0"
  "g_phase g = PSent p \<Longrightarrow> g_held g = int (length (pg_orders p))"
  "g_phase g = PSend p \<Longrightarrow> g_held g = int (length (pg_orders p))"
  "g_phase g = PGot p \<Longrightarrow> g_held g = 0"
  "g_phase g = PDead \<Longrightarrow> g_held g = 0"
  by (simp_all add: g_held_def)

lemma g_held_loop [simp]:
  "looping (g_phase g) \<Longrightarrow> g_held g = 0" "returned (g_phase g) \<Longrightarrow> g_held g = 0"
  by (simp_all add: g_held_def checked_page_loop)

lemma g_held_start [simp]: "g_held (fetch_start f) = 0"
  by (rule disjE [OF fetch_start_simps(5) [of f]]) simp_all

lemma count_law_init: "count_law (pipe_init n)"
  by (simp add: count_law_def pipe_init_def)

lemma count_law_idle: "pp_main s' \<noteq> MWait \<Longrightarrow> pp_main s' \<noteq> MDone None \<Longrightarrow> count_law s'"
  by (simp add: count_law_def)

lemma count_law_cong:
  "count_law s \<Longrightarrow> pp_main s' = pp_main s \<Longrightarrow> pp_gerr s' = pp_gerr s \<Longrightarrow> pp_meta s' = pp_meta s \<Longrightarrow>
   pp_count s' = pp_count s \<Longrightarrow> page_sum g_held s' = page_sum g_held s \<Longrightarrow> count_law s'"
  by (simp add: count_law_def)

lemma count_law_step:
  assumes "pipe_step cfg e s = Some s'" "pipe_shape cfg s" "count_law s"
  shows "count_law s'"
  using assms(1)
proof (cases rule: pipe_step_cases)
  case (local p g n)
  have "page_sum g_held s' = page_sum g_held s"
    using sum_local [OF assms(2) local(1,2), of g_held] local(1) by (auto simp: local_move_def Let_def)
  then show ?thesis by (rule count_law_cong [OF assms(3), rotated -1]) (simp_all add: local(2))
next
  case (single p)
  have "page_sum g_held s' = int (length (pg_orders p))"
    using page_sum_first_upd [OF shape_first [OF assms(2)], of s' "\<lparr>g_phase = PSent p, g_tokens = 0\<rparr>" g_held]
      single(1) by (simp add: single(5))
  moreover have "sm_order_count (pp_meta s) = 0"
    using assms(2) single(1) by (simp add: pipe_shape_def main_shape_def group_clean_def)
  moreover have "pp_main s' = MDone None"
    "sm_order_count (pp_meta s') = sm_order_count (pp_meta s) + int (length (pg_orders p))"
    by (simp_all add: single(5))
  ultimately show ?thesis by (simp add: count_law_def)
next
  case (spawn p)
  have "page_sum g_held s' = int (length (pg_orders p))"
    by (subst spawn_gs [OF _ spawn(1,2), of cfg s' "fetch_start (pc_fetcher cfg)" "\<lparr>g_phase = PSent p, g_tokens = 0\<rparr>"])
      (use assms(2) spawn in \<open>simp_all add: pipe_shape_def\<close>)
  moreover have "sm_order_count (pp_meta s) = 0" "pp_count s = 0"
    using assms(2) spawn(1) by (simp_all add: pipe_shape_def main_shape_def group_clean_def)
  moreover have "pp_main s' = MWait" "pp_count s' = pp_count s"
    "sm_order_count (pp_meta s') = sm_order_count (pp_meta s) + int (length (pg_orders p))"
    by (simp_all add: spawn(5))
  ultimately show ?thesis by (simp add: count_law_def)
next
  case wait
  have "page_sum g_held s' = page_sum g_held s" by (rule page_sum_cong) (simp_all add: wait(3))
  moreover have "sm_order_count (pp_meta s') = sm_order_count (pp_meta s) + pp_count s" "pp_main s' \<noteq> MWait"
    by (simp_all add: wait(3))
  moreover have "pp_main s' = MDone None \<Longrightarrow> pp_gerr s = None" by (auto simp: wait(3) split: option.splits)
  ultimately show ?thesis using assms(3) wait(1) by (auto simp: count_law_def)
next
  case (join_ok p pg f)
  have "page_sum g_held s' = page_sum g_held s + int (length (pg_orders pg))"
    using sum_one [OF assms(2) join_ok(1,2), of s' "\<lparr>g_phase = PSend pg, g_tokens = 0\<rparr>" g_held] join_ok(4)
    by (simp add: join_ok(6))
  moreover have "pp_main s' = pp_main s" "pp_gerr s' = pp_gerr s" "pp_meta s' = pp_meta s"
    "pp_count s' = pp_count s + int (length (pg_orders pg))"
    by (simp_all add: join_ok(6))
  ultimately show ?thesis using assms(3) join_ok(1) by (simp add: count_law_def)
next
  case (send p pg)
  have "page_sum g_held s' = page_sum g_held s"
    using sum_one [OF assms(2) send(1,2), of s' "(pp_gs s p)\<lparr>g_phase := PSent pg\<rparr>" g_held] send(3)
    by (simp add: send(5))
  then show ?thesis by (rule count_law_cong [OF assms(3), rotated -1]) (simp_all add: send(5))
next
  case (join_fail p er)
  then show ?thesis by (simp add: count_law_def)
next
  case (send_stop p pg)
  then show ?thesis by (simp add: count_law_def)
next
  case (recv b rest)
  show ?thesis by (rule count_law_cong [OF assms(3)]) (simp_all add: recv page_sum_def page_range_def)
next
  case (recv_drain b rest)
  show ?thesis by (rule count_law_cong [OF assms(3)]) (simp_all add: recv_drain page_sum_def page_range_def)
next
  case copy_end
  show ?thesis by (rule count_law_cong [OF assms(3)]) (simp_all add: copy_end page_sum_def page_range_def)
next
  case (copy_fail f)
  show ?thesis by (rule count_law_cong [OF assms(3)]) (simp_all add: copy_fail page_sum_def page_range_def)
qed (simp_all add: count_law_idle)

section \<open>Tokens booked\<close>

text \<open>\<open>c0\<close> is what the log had cost when the sweep began.\<close>

definition token_law :: "int \<Rightarrow> pipe \<Rightarrow> bool" where
  "token_law c0 s \<longleftrightarrow>
     (pp_main s \<noteq> MPanic \<longrightarrow>
        log_cost (nt_log (pp_net s)) =
          c0 + sm_tokens (pp_meta s) + (if pp_main s = MWait then pp_tokens s else 0) + page_sum g_tokens s) \<and>
     (\<forall>p. quiet (g_phase (pp_gs s p)) \<longrightarrow> g_tokens (pp_gs s p) = 0)"

lemma token_law_init: "token_law (log_cost (nt_log n)) (pipe_init n)"
  by (simp add: token_law_def pipe_init_def page_sum_def meta_init_def)

lemma token_law_intro:
  assumes "token_law c0 s" "pp_main s \<noteq> MPanic"
    "log_cost (nt_log (pp_net s')) + sm_tokens (pp_meta s) + (if pp_main s = MWait then pp_tokens s else 0) +
       page_sum g_tokens s =
     log_cost (nt_log (pp_net s)) + sm_tokens (pp_meta s') + (if pp_main s' = MWait then pp_tokens s' else 0) +
       page_sum g_tokens s'"
    "\<And>p. quiet (g_phase (pp_gs s' p)) \<Longrightarrow> pp_gs s' p = pp_gs s p \<or> g_tokens (pp_gs s' p) = 0"
  shows "token_law c0 s'"
proof -
  have "g_tokens (pp_gs s' p) = 0" if "quiet (g_phase (pp_gs s' p))" for p
    using assms(1) assms(4) [of p] that by (auto simp: token_law_def)
  with assms(1-3) show ?thesis by (simp add: token_law_def)
qed

lemma token_law_panic:
  "token_law c0 s \<Longrightarrow> pp_main s' = MPanic \<Longrightarrow> pp_gs s' = pp_gs s \<Longrightarrow> token_law c0 s'"
  by (simp add: token_law_def)

lemma token_law_cong:
  assumes "token_law c0 s" "pp_main s' = pp_main s" "pp_net s' = pp_net s" "pp_meta s' = pp_meta s"
    "pp_tokens s' = pp_tokens s" "pp_gs s' = pp_gs s"
  shows "token_law c0 s'"
  using assms by (simp add: token_law_def page_sum_def page_range_def)

lemma looping_not_quiet: "looping ph \<or> returned ph \<Longrightarrow> \<not> quiet ph"
  by (auto simp: quiet_def)

lemma token_law_step:
  assumes "pipe_step cfg e s = Some s'" "pipe_shape cfg s" "token_law c0 s"
  shows "token_law c0 s'"
  using assms(1)
proof (cases rule: pipe_step_cases)
  case (local p g n)
  note lm = local_moveD(3) [OF local(1)] looping_not_quiet [OF local_moveD(2) [OF local(1)]]
  have sum: "page_sum g_tokens s' + g_tokens (pp_gs s p) = page_sum g_tokens s + g_tokens g"
    by (rule sum_local [OF assms(2) local(1,2)])
  have "pp_net s' = n" "pp_main s' = pp_main s" "pp_meta s' = pp_meta s" "pp_tokens s' = pp_tokens s"
    "pp_gs s' = (pp_gs s)(p := g)"
    by (simp_all add: local(2))
  with lm sum assms(3) show ?thesis by (auto simp: token_law_def)
next
  case start
  note f = page_sum_first_upd [OF shape_first [OF assms(2)], of s' "fetch_start (pc_fetcher cfg)" g_tokens]
  have "pp_gs s 1 = g_idle" using assms(2) start(1) by (simp add: pipe_shape_def main_shape_def)
  with f start(1) show ?thesis
    by (intro token_law_intro [OF assms(3)]) (simp_all add: start(3))
next
  case (p1_fail er)
  note f = page_sum_first_upd [OF shape_first [OF assms(2)], of s' "\<lparr>g_phase = PDead, g_tokens = 0\<rparr>" g_tokens]
  from f p1_fail(1) show ?thesis by (intro token_law_intro [OF assms(3)]) (simp_all add: p1_fail(3))
next
  case (p1_defer p r)
  note f = page_sum_first_upd [OF shape_first [OF assms(2)], of s' "\<lparr>g_phase = PSend p, g_tokens = 0\<rparr>" g_tokens]
  from f p1_defer(1) show ?thesis by (intro token_law_intro [OF assms(3)]) (simp_all add: p1_defer(4))
next
  case (p1_ok p)
  note f = page_sum_first_upd [OF shape_first [OF assms(2)], of s' "\<lparr>g_phase = PSend p, g_tokens = 0\<rparr>" g_tokens]
  from f p1_ok(1) show ?thesis by (intro token_law_intro [OF assms(3)]) (simp_all add: p1_ok(4))
next
  case (single p)
  note f = page_sum_first_upd [OF shape_first [OF assms(2)], of s' "\<lparr>g_phase = PSent p, g_tokens = 0\<rparr>" g_tokens]
  have "g_tokens (pp_gs s 1) = 0" using assms(3) single(2) by (simp add: token_law_def)
  with f single(1) show ?thesis by (intro token_law_intro [OF assms(3)]) (simp_all add: single(5))
next
  case (spawn p)
  have "page_sum g_tokens s' = 0"
    by (subst spawn_gs [OF _ spawn(1,2), of cfg s' "fetch_start (pc_fetcher cfg)" "\<lparr>g_phase = PSent p, g_tokens = 0\<rparr>"])
      (use assms(2) spawn in \<open>simp_all add: pipe_shape_def\<close>)
  moreover have "page_sum g_tokens s = 0"
    using page_sum_first [OF shape_first [OF assms(2)], of g_tokens] spawn(1,2) assms(3) by (simp add: token_law_def)
  moreover have "pp_tokens s = 0" using assms(2) spawn(1) by (simp add: pipe_shape_def main_shape_def group_clean_def)
  moreover have "pp_gs s' q = pp_gs s q \<or> g_tokens (pp_gs s' q) = 0" for q by (simp add: spawn(5))
  moreover have "sm_tokens (pp_meta s') = sm_tokens (pp_meta s)" "pp_net s' = pp_net s"
    "pp_tokens s' = pp_tokens s" "pp_main s' = MWait"
    by (simp_all add: spawn(5))
  ultimately show ?thesis using spawn(1) by (intro token_law_intro [OF assms(3)]) auto
next
  case wait
  have "page_sum g_tokens s' = page_sum g_tokens s" by (rule page_sum_cong) (simp_all add: wait(3))
  moreover have "sm_tokens (pp_meta s') = sm_tokens (pp_meta s) + pp_tokens s" "pp_net s' = pp_net s"
    "pp_main s' \<noteq> MWait" "pp_gs s' = pp_gs s"
    by (simp_all add: wait(3))
  ultimately show ?thesis using wait(1) by (intro token_law_intro [OF assms(3)]) auto
next
  case stop
  show ?thesis
    by (rule token_law_intro [OF assms(3)]) (use stop in \<open>simp_all add: page_sum_def page_range_def\<close>)
next
  case (join_fail p er)
  have "page_sum g_tokens s' + g_tokens (pp_gs s p) = page_sum g_tokens s"
    using sum_one [OF assms(2) join_fail(1,2), of s' "\<lparr>g_phase = PDead, g_tokens = 0\<rparr>" g_tokens] join_fail(4)
    by (simp add: join_fail(5))
  moreover have "pp_tokens s' = pp_tokens s + g_tokens (pp_gs s p)" "pp_net s' = pp_net s" "pp_main s' = pp_main s"
    "pp_meta s' = pp_meta s" "pp_gs s' = (pp_gs s)(p := \<lparr>g_phase = PDead, g_tokens = 0\<rparr>)"
    by (simp_all add: join_fail(5))
  ultimately show ?thesis using join_fail(1) by (intro token_law_intro [OF assms(3)]) auto
next
  case (join_ok p pg f)
  have "page_sum g_tokens s' + g_tokens (pp_gs s p) = page_sum g_tokens s"
    using sum_one [OF assms(2) join_ok(1,2), of s' "\<lparr>g_phase = PSend pg, g_tokens = 0\<rparr>" g_tokens] join_ok(4)
    by (simp add: join_ok(6))
  moreover have "pp_tokens s' = pp_tokens s + g_tokens (pp_gs s p)" "pp_net s' = pp_net s" "pp_main s' = pp_main s"
    "pp_meta s' = pp_meta s" "pp_gs s' = (pp_gs s)(p := \<lparr>g_phase = PSend pg, g_tokens = 0\<rparr>)"
    by (simp_all add: join_ok(6))
  ultimately show ?thesis using join_ok(1) by (intro token_law_intro [OF assms(3)]) auto
next
  case (send p pg)
  have "page_sum g_tokens s' = page_sum g_tokens s"
    using sum_one [OF assms(2) send(1,2), of s' "(pp_gs s p)\<lparr>g_phase := PSent pg\<rparr>" g_tokens] send(3)
    by (simp add: send(5))
  moreover have "g_tokens (pp_gs s p) = 0" using assms(3) send(3) by (simp add: token_law_def)
  moreover have "pp_tokens s' = pp_tokens s" "pp_net s' = pp_net s" "pp_main s' = pp_main s"
    "pp_meta s' = pp_meta s" "pp_gs s' = (pp_gs s)(p := (pp_gs s p)\<lparr>g_phase := PSent pg\<rparr>)"
    by (simp_all add: send(5))
  ultimately show ?thesis using send(1) by (intro token_law_intro [OF assms(3)]) auto
next
  case (send_stop p pg)
  have "page_sum g_tokens s' = page_sum g_tokens s"
    using sum_one [OF assms(2) send_stop(1,2), of s' "(pp_gs s p)\<lparr>g_phase := PDead\<rparr>" g_tokens] send_stop(3)
    by (simp add: send_stop(5))
  moreover have "g_tokens (pp_gs s p) = 0" using assms(3) send_stop(3) by (simp add: token_law_def)
  moreover have "pp_tokens s' = pp_tokens s" "pp_net s' = pp_net s" "pp_main s' = pp_main s"
    "pp_meta s' = pp_meta s" "pp_gs s' = (pp_gs s)(p := (pp_gs s p)\<lparr>g_phase := PDead\<rparr>)"
    by (simp_all add: send_stop(5))
  ultimately show ?thesis using send_stop(1) by (intro token_law_intro [OF assms(3)]) auto
next
  case (defer0 r)
  then show ?thesis
    by (intro token_law_intro [OF assms(3)]) (simp_all add: page_sum_def page_range_def)
next
  case p1_nil
  then show ?thesis by (intro token_law_panic [OF assms(3)]) simp_all
next
  case (join_nil p)
  then show ?thesis by (intro token_law_panic [OF assms(3)]) simp_all
next
  case (recv b rest)
  show ?thesis by (rule token_law_cong [OF assms(3)]) (simp_all add: recv)
next
  case (recv_drain b rest)
  show ?thesis by (rule token_law_cong [OF assms(3)]) (simp_all add: recv_drain)
next
  case copy_end
  show ?thesis by (rule token_law_cong [OF assms(3)]) (simp_all add: copy_end)
next
  case (copy_fail f)
  show ?thesis by (rule token_law_cong [OF assms(3)]) (simp_all add: copy_fail)
qed

section \<open>Requests sent\<close>

text \<open>The pages whose loop has started so far, at most.\<close>

definition pages_started :: "pipe \<Rightarrow> int" where
  "pages_started s = (case pp_main s of MStart \<Rightarrow> 0 | MPage1 \<Rightarrow> 1 | MSend1 \<Rightarrow> 1 | _ \<Rightarrow> max 1 (sm_pages (pp_meta s)))"

lemma pages_started_cong:
  "pp_main s' = pp_main s \<Longrightarrow> sm_pages (pp_meta s') = sm_pages (pp_meta s) \<Longrightarrow> pages_started s' = pages_started s"
  by (simp add: pages_started_def split: main_phase.split)

definition g_rem :: "int \<Rightarrow> pgo \<Rightarrow> int" where
  "g_rem A g = rem_requests A (g_phase g)"

definition request_law :: "int \<Rightarrow> int \<Rightarrow> pipe \<Rightarrow> bool" where
  "request_law A n0 s \<longleftrightarrow>
     int (length (nt_log (pp_net s))) + page_sum (g_rem A) s \<le> n0 + max 0 A * pages_started s"

lemma g_rem_simps [simp]:
  "g_rem A g_idle = 0" "g_rem A \<lparr>g_phase = PDead, g_tokens = t\<rparr> = 0"
  "g_rem A \<lparr>g_phase = PSend p, g_tokens = t\<rparr> = 0" "g_rem A \<lparr>g_phase = PSent p, g_tokens = t\<rparr> = 0"
  "g_rem A (g\<lparr>g_phase := PDead\<rparr>) = 0" "g_rem A (g\<lparr>g_phase := PSent p\<rparr>) = 0"
  "g_phase g = PFailed e \<Longrightarrow> g_rem A g = 0" "g_phase g = PGot p \<Longrightarrow> g_rem A g = 0"
  "g_phase g = PSend p \<Longrightarrow> g_rem A g = 0"
  "g_rem (ft_page_attempts f) (fetch_start f) = max 0 (ft_page_attempts f)"
  by (simp_all add: g_rem_def)

lemma request_law_init: "request_law A (int (length (nt_log n))) (pipe_init n)"
  by (simp add: request_law_def pages_started_def page_sum_def pipe_init_def g_rem_def)

lemma request_law_intro:
  assumes "request_law A n0 s" "pp_net s' = pp_net s" "page_sum (g_rem A) s' = page_sum (g_rem A) s"
    "pages_started s \<le> pages_started s'"
  shows "request_law A n0 s'"
proof -
  have "max 0 A * pages_started s \<le> max 0 A * pages_started s'" using assms(4) by (rule mult_left_mono) simp
  with assms(1-3) show ?thesis by (simp add: request_law_def)
qed

lemma request_law_same:
  assumes "request_law A n0 s" "page_sum (g_rem A) s' = page_sum (g_rem A) s" "pp_net s' = pp_net s"
    "pp_main s' = pp_main s" "sm_pages (pp_meta s') = sm_pages (pp_meta s)"
  shows "request_law A n0 s'"
  using assms(1-3) pages_started_cong [OF assms(4,5)] by (simp add: request_law_def)

lemma request_law_step:
  assumes "pipe_step cfg e s = Some s'" "pipe_shape cfg s" "request_law (ft_page_attempts (pc_fetcher cfg)) n0 s"
  shows "request_law (ft_page_attempts (pc_fetcher cfg)) n0 s'"
  using assms(1)
proof (cases rule: pipe_step_cases)
  let ?A = "ft_page_attempts (pc_fetcher cfg)"
  note first = page_sum_first_upd [OF shape_first [OF assms(2)], of s' _ "g_rem ?A"]
  {
    case (local p g n)
    have ok: "attempt_ok ?A (g_phase (pp_gs s p))" using assms(2) by (simp add: pipe_shape_def)
    have sum: "page_sum (g_rem ?A) s' + g_rem ?A (pp_gs s p) = page_sum (g_rem ?A) s + g_rem ?A g"
      by (rule sum_local [OF assms(2) local(1,2)])
    have net: "pp_net s' = n" by (simp add: local(2))
    have st: "pages_started s' = pages_started s" by (rule pages_started_cong) (simp_all add: local(2))
    have "int (length (nt_log n)) + page_sum (g_rem ?A) s' \<le>
        int (length (nt_log (pp_net s))) + page_sum (g_rem ?A) s"
      using local_moveD(5) [OF local(1) ok] sum unfolding g_rem_def by linarith
    with assms(3) show ?thesis unfolding request_law_def net st by linarith
  next
    case start
    have "pp_gs s 1 = g_idle" using assms(2) start(1) by (simp add: pipe_shape_def main_shape_def)
    then have "page_sum (g_rem ?A) s' = max 0 ?A" "page_sum (g_rem ?A) s = 0"
      using first [of "fetch_start (pc_fetcher cfg)"] start(1) by (simp_all add: start(3))
    moreover have "pp_net s' = pp_net s" "pages_started s' = 1" "pages_started s = 0"
      using start(1) by (simp_all add: start(3) pages_started_def)
    ultimately show ?thesis using assms(3) by (simp add: request_law_def)
  next
    case (p1_fail er)
    have "page_sum (g_rem ?A) s' = page_sum (g_rem ?A) s"
      using first [of "\<lparr>g_phase = PDead, g_tokens = 0\<rparr>"] p1_fail(1,2) by (simp add: p1_fail(3))
    then show ?thesis by (rule request_law_intro [OF assms(3), rotated])
        (use p1_fail(1) in \<open>simp_all add: p1_fail(3) pages_started_def\<close>)
  next
    case (p1_defer p r)
    have "page_sum (g_rem ?A) s' = page_sum (g_rem ?A) s"
      using first [of "\<lparr>g_phase = PSend p, g_tokens = 0\<rparr>"] p1_defer(1,2) by (simp add: p1_defer(4))
    then show ?thesis by (rule request_law_intro [OF assms(3), rotated])
        (use p1_defer(1) in \<open>simp_all add: p1_defer(4) pages_started_def\<close>)
  next
    case (p1_ok p)
    have "page_sum (g_rem ?A) s' = page_sum (g_rem ?A) s"
      using first [of "\<lparr>g_phase = PSend p, g_tokens = 0\<rparr>"] p1_ok(1,2) by (simp add: p1_ok(4))
    then show ?thesis by (rule request_law_intro [OF assms(3), rotated])
        (use p1_ok(1) in \<open>simp_all add: p1_ok(4) pages_started_def\<close>)
  next
    case (single p)
    have "page_sum (g_rem ?A) s' = page_sum (g_rem ?A) s"
      using first [of "\<lparr>g_phase = PSent p, g_tokens = 0\<rparr>"] single(1,2) by (simp add: single(5))
    then show ?thesis by (rule request_law_intro [OF assms(3), rotated])
        (use single(1) in \<open>simp_all add: single(5) pages_started_def\<close>)
  next
    case (spawn p)
    have pages: "sm_pages (pp_meta s) = pg_pages p"
      using assms(2) spawn(1,2) by (auto simp: pipe_shape_def main_shape_def meta_of_page_def)
    have "page_sum (g_rem ?A) s' = (\<Sum>q\<in>{2..pg_pages p}. max 0 ?A)"
      by (subst spawn_gs [OF _ spawn(1,2), of cfg s' "fetch_start (pc_fetcher cfg)" "\<lparr>g_phase = PSent p, g_tokens = 0\<rparr>"])
        (use assms(2) spawn in \<open>simp_all add: pipe_shape_def\<close>)
    also have "\<dots> = max 0 ?A * (max 1 (pg_pages p) - 1)" by (simp add: max_def)
    finally have "page_sum (g_rem ?A) s' + max 0 ?A = max 0 ?A * pages_started s'"
      by (simp add: spawn(5) pages_started_def pages right_diff_distrib)
    moreover have "page_sum (g_rem ?A) s = 0"
      using page_sum_first [OF shape_first [OF assms(2)], of "g_rem ?A"] spawn(1,2) by simp
    moreover have "pages_started s = 1" "pp_net s' = pp_net s" using spawn(1) by (simp_all add: pages_started_def spawn(5))
    ultimately show ?thesis using assms(3) by (simp add: request_law_def)
  next
    case wait
    show ?thesis by (rule request_law_intro [OF assms(3)])
        (use wait(1) in \<open>simp_all add: wait(3) pages_started_def page_sum_def page_range_def\<close>)
  next
    case (join_fail p er)
    have "page_sum (g_rem ?A) s' = page_sum (g_rem ?A) s"
      using sum_one [OF assms(2) join_fail(1,2), of s' "\<lparr>g_phase = PDead, g_tokens = 0\<rparr>" "g_rem ?A"] join_fail(4)
      by (simp add: join_fail(5))
    then show ?thesis by (rule request_law_same [OF assms(3)]) (simp_all add: join_fail(5))
  next
    case (join_ok p pg f)
    have "page_sum (g_rem ?A) s' = page_sum (g_rem ?A) s"
      using sum_one [OF assms(2) join_ok(1,2), of s' "\<lparr>g_phase = PSend pg, g_tokens = 0\<rparr>" "g_rem ?A"] join_ok(4)
      by (simp add: join_ok(6))
    then show ?thesis by (rule request_law_same [OF assms(3)]) (simp_all add: join_ok(6))
  next
    case (send p pg)
    have "page_sum (g_rem ?A) s' = page_sum (g_rem ?A) s"
      using sum_one [OF assms(2) send(1,2), of s' "(pp_gs s p)\<lparr>g_phase := PSent pg\<rparr>" "g_rem ?A"] send(3)
      by (simp add: send(5))
    then show ?thesis by (rule request_law_same [OF assms(3)]) (simp_all add: send(5))
  next
    case (send_stop p pg)
    have "page_sum (g_rem ?A) s' = page_sum (g_rem ?A) s"
      using sum_one [OF assms(2) send_stop(1,2), of s' "(pp_gs s p)\<lparr>g_phase := PDead\<rparr>" "g_rem ?A"] send_stop(3)
      by (simp add: send_stop(5))
    then show ?thesis by (rule request_law_same [OF assms(3)]) (simp_all add: send_stop(5))
  }
qed (rule request_law_intro [OF assms(3)], (simp_all add: page_sum_def page_range_def pages_started_def split: main_phase.split)[3])+

section \<open>Slots held\<close>

definition g_slot :: "pgo \<Rightarrow> int" where
  "g_slot g = (if is_flight (g_phase g) then 1 else 0)"

lemma g_slot_simps [simp]:
  "g_slot g_idle = 0" "g_slot (fetch_start f) = 0"
  "g_slot \<lparr>g_phase = PDead, g_tokens = t\<rparr> = 0"
  "g_slot \<lparr>g_phase = PSend p, g_tokens = t\<rparr> = 0" "g_slot \<lparr>g_phase = PSent p, g_tokens = t\<rparr> = 0"
  "g_slot (g\<lparr>g_phase := PDead\<rparr>) = 0" "g_slot (g\<lparr>g_phase := PSent p\<rparr>) = 0"
  by (simp_all add: g_slot_def)

lemma g_slot_nonneg: "0 \<le> g_slot g"
  by (simp add: g_slot_def)

lemma in_flight_sum: "in_flight s = page_sum g_slot s"
  by (simp add: in_flight_def all_pages_def sum_list_upto page_sum_def page_range_def g_slot_def)

lemma slots_init: "in_flight (pipe_init n) = 0"
  by (simp add: in_flight_sum page_sum_def pipe_init_def g_slot_def)

lemma slots_step:
  assumes "pipe_step cfg e s = Some s'" "pipe_shape cfg s" "in_flight s \<le> max 0 (pc_conc cfg)"
  shows "in_flight s' \<le> max 0 (pc_conc cfg)"
proof -
  note first = page_sum_first_upd [OF shape_first [OF assms(2)], of s' _ g_slot]
  have same: "in_flight s' \<le> max 0 (pc_conc cfg)" if "page_sum g_slot s' = page_sum g_slot s"
    using assms(3) that by (simp add: in_flight_sum)
  have fewer: "in_flight s' \<le> max 0 (pc_conc cfg)"
    if "page_sum g_slot s' + g_slot g = page_sum g_slot s + 0" for g
    using assms(3) that g_slot_nonneg [of g] by (simp add: in_flight_sum)
  show ?thesis
    using assms(1)
  proof (cases rule: pipe_step_cases)
    case (local p g n)
    have sum: "page_sum g_slot s' + g_slot (pp_gs s p) = page_sum g_slot s + g_slot g"
      by (rule sum_local [OF assms(2) local(1,2)])
    show ?thesis
    proof (cases "is_flight (g_phase g)")
      case True
      then have "in_flight s < pc_conc cfg" by (rule local_moveD(6) [OF local(1)])
      with sum True g_slot_nonneg [of "pp_gs s p"] show ?thesis by (simp add: in_flight_sum g_slot_def)
    next
      case False
      with sum show ?thesis by (intro fewer [of "pp_gs s p"]) (simp add: g_slot_def)
    qed
  next
    case start
    then have "page_sum g_slot s' = 0"
      using first [of "fetch_start (pc_fetcher cfg)"] by simp
    then show ?thesis by (simp add: in_flight_sum)
  next
    case (p1_fail er)
    then have "page_sum g_slot s' = 0"
      using first [of "\<lparr>g_phase = PDead, g_tokens = 0\<rparr>"] by simp
    then show ?thesis by (simp add: in_flight_sum)
  next
    case (p1_defer p r)
    then have "page_sum g_slot s' = 0"
      using first [of "\<lparr>g_phase = PSend p, g_tokens = 0\<rparr>"] by simp
    then show ?thesis by (simp add: in_flight_sum)
  next
    case (p1_ok p)
    then have "page_sum g_slot s' = 0"
      using first [of "\<lparr>g_phase = PSend p, g_tokens = 0\<rparr>"] by simp
    then show ?thesis by (simp add: in_flight_sum)
  next
    case (single p)
    then have "page_sum g_slot s' = 0"
      using first [of "\<lparr>g_phase = PSent p, g_tokens = 0\<rparr>"] by simp
    then show ?thesis by (simp add: in_flight_sum)
  next
    case (spawn p)
    have "page_sum g_slot s' = 0"
      by (subst spawn_gs [OF _ spawn(1,2), of cfg s' "fetch_start (pc_fetcher cfg)" "\<lparr>g_phase = PSent p, g_tokens = 0\<rparr>"])
        (use assms(2) spawn in \<open>simp_all add: pipe_shape_def\<close>)
    then show ?thesis by (simp add: in_flight_sum)
  next
    case (join_fail p er)
    then show ?thesis
      using sum_one [OF assms(2) join_fail(1,2), of s' "\<lparr>g_phase = PDead, g_tokens = 0\<rparr>" g_slot]
      by (intro fewer) simp
  next
    case (join_ok p pg f)
    then show ?thesis
      using sum_one [OF assms(2) join_ok(1,2), of s' "\<lparr>g_phase = PSend pg, g_tokens = 0\<rparr>" g_slot]
      by (intro fewer) simp
  next
    case (send p pg)
    then show ?thesis
      using sum_one [OF assms(2) send(1,2), of s' "(pp_gs s p)\<lparr>g_phase := PSent pg\<rparr>" g_slot]
      by (intro fewer) simp
  next
    case (send_stop p pg)
    then show ?thesis
      using sum_one [OF assms(2) send_stop(1,2), of s' "(pp_gs s p)\<lparr>g_phase := PDead\<rparr>" g_slot]
      by (intro fewer) simp
  qed (rule same, simp add: page_sum_def page_range_def)+
qed

end
