(* ===== verification/Sweep_Live.thy ===== *)
theory Sweep_Live
  imports Sweep_Correct
begin

text \<open>
  Liveness of the sweep: every step brings the system closer to its end, and until
  the end some goroutine can move. So every interleaving is finite, and one that
  goes as far as it can ends with the sweep and the copy both returned.
\<close>

section \<open>Every step is progress\<close>

definition main_rank :: "main_phase \<Rightarrow> nat" where
  "main_rank m = (case m of MStart \<Rightarrow> 4 | MPage1 \<Rightarrow> 3 | MSend1 \<Rightarrow> 2 | MWait \<Rightarrow> 1 | MDone r \<Rightarrow> 0 | MPanic \<Rightarrow> 0)"

definition g_rank :: "int \<Rightarrow> pgo \<Rightarrow> nat" where
  "g_rank A g = go_rank A (g_phase g)"

definition pipe_rank :: "pcfg \<Rightarrow> pipe \<Rightarrow> nat" where
  "pipe_rank cfg s =
     page_sum (g_rank (ft_page_attempts (pc_fetcher cfg))) s + length (pp_chan s) +
     (if pp_copy s = CRunning then 1 else 0)"

lemma main_rank_simps [simp]:
  "main_rank MStart = 4" "main_rank MPage1 = 3" "main_rank MSend1 = 2" "main_rank MWait = 1"
  "main_rank (MDone r) = 0" "main_rank MPanic = 0"
  by (simp_all add: main_rank_def)

lemma g_rank_simps [simp]:
  "g_phase g = PFailed e \<Longrightarrow> g_rank A g = 4" "g_phase g = PGot p \<Longrightarrow> g_rank A g = 4"
  "g_phase g = PSend p \<Longrightarrow> g_rank A g = 3" "g_phase g = PSent p \<Longrightarrow> g_rank A g = 1"
  "g_phase g = PDead \<Longrightarrow> g_rank A g = 1"
  by (simp_all add: g_rank_def go_rank_def)

lemma rank_step:
  assumes "pipe_step cfg e s = Some s'" "pipe_shape cfg s"
  shows "main_rank (pp_main s') < main_rank (pp_main s) \<or>
    pp_main s' = pp_main s \<and> pipe_rank cfg s' < pipe_rank cfg s"
  using assms(1)
proof (cases rule: pipe_step_cases)
  let ?h = "g_rank (ft_page_attempts (pc_fetcher cfg))"
  {
    case (local p g n)
    have ok: "attempt_ok (ft_page_attempts (pc_fetcher cfg)) (g_phase (pp_gs s p))"
      using assms(2) by (simp add: pipe_shape_def)
    have "page_sum ?h s' + ?h (pp_gs s p) = page_sum ?h s + ?h g" by (rule sum_local [OF assms(2) local(1,2)])
    with local_moveD(7) [OF local(1) ok] have "page_sum ?h s' < page_sum ?h s" by (simp add: g_rank_def)
    then show ?thesis by (simp add: pipe_rank_def local(2))
  next
    case (join_fail p er)
    have "page_sum ?h s' + 4 = page_sum ?h s + 1"
      using sum_one [OF assms(2) join_fail(1,2), of s' "\<lparr>g_phase = PDead, g_tokens = 0\<rparr>" ?h] join_fail(4)
      by (simp add: join_fail(5))
    then show ?thesis by (simp add: pipe_rank_def join_fail(5))
  next
    case (join_ok p pg f)
    have "page_sum ?h s' + 4 = page_sum ?h s + 3"
      using sum_one [OF assms(2) join_ok(1,2), of s' "\<lparr>g_phase = PSend pg, g_tokens = 0\<rparr>" ?h] join_ok(4)
      by (simp add: join_ok(6))
    then show ?thesis by (simp add: pipe_rank_def join_ok(6))
  next
    case (send p pg)
    have "page_sum ?h s' + 3 = page_sum ?h s + 1"
      using sum_one [OF assms(2) send(1,2), of s' "(pp_gs s p)\<lparr>g_phase := PSent pg\<rparr>" ?h] send(3)
      by (simp add: send(5))
    then show ?thesis by (simp add: pipe_rank_def send(5))
  next
    case (send_stop p pg)
    have "page_sum ?h s' + 3 = page_sum ?h s + 1"
      using sum_one [OF assms(2) send_stop(1,2), of s' "(pp_gs s p)\<lparr>g_phase := PDead\<rparr>" ?h] send_stop(3)
      by (simp add: send_stop(5))
    then show ?thesis by (simp add: pipe_rank_def send_stop(5))
  next
    case (recv b rest)
    then show ?thesis by (simp add: pipe_rank_def page_sum_def page_range_def)
  next
    case (recv_drain b rest f)
    then show ?thesis by (simp add: pipe_rank_def page_sum_def page_range_def)
  next
    case copy_end
    then show ?thesis by (simp add: pipe_rank_def page_sum_def page_range_def)
  next
    case (copy_fail f)
    then show ?thesis by (simp add: pipe_rank_def page_sum_def page_range_def)
  }
qed simp_all

definition step_relation :: "pcfg \<Rightarrow> (pipe \<times> pipe) set" where
  "step_relation cfg = {(s', s). pipe_shape cfg s \<and> (\<exists>e. pipe_step cfg e s = Some s')}"

lemma step_relation_wf: "wf (step_relation cfg)"
proof (rule wf_subset)
  let ?R = "inv_image (less_than <*lex*> less_than) (\<lambda>s. (main_rank (pp_main s), pipe_rank cfg s))"
  show "wf ?R" by (intro wf_inv_image wf_lex_prod wf_less_than)
  show "step_relation cfg \<subseteq> ?R" using rank_step by (fastforce simp: step_relation_def)
qed

section \<open>Somebody can move\<close>

text \<open>A move of the program, the network or the database's ordinary work: not a failure of the copy.\<close>

definition can_move :: "pcfg \<Rightarrow> pipe \<Rightarrow> bool" where
  "can_move cfg s \<longleftrightarrow> (\<exists>e s'. pipe_step cfg e s = Some s' \<and> (\<forall>f. e \<noteq> EvCopyFail f))"

lemma can_moveI: "pipe_step cfg e s \<noteq> None \<Longrightarrow> (\<And>f. e \<noteq> EvCopyFail f) \<Longrightarrow> can_move cfg s"
  by (auto simp: can_move_def)

lemma flight_moves: "g_phase (pp_gs s p) = PFlight k \<Longrightarrow> can_move cfg s"
  by (intro can_moveI [of cfg "EvAnswer p x" for x]) (simp_all split: prod.split)

lemma loop_moves:
  assumes "looping (g_phase (pp_gs s p))" "1 \<le> pc_conc cfg"
  shows "can_move cfg s"
proof (cases "g_phase (pp_gs s p)")
  case (PTrying k)
  show ?thesis
  proof (cases "in_flight s < pc_conc cfg")
    case True
    with PTrying show ?thesis by (intro can_moveI [of cfg "EvGo p"]) simp_all
  next
    case False
    with assms(2) have "page_sum g_slot s \<noteq> 0" by (simp add: in_flight_sum)
    then obtain q where "g_slot (pp_gs s q) \<noteq> 0" unfolding page_sum_def by (meson sum.neutral)
    then show ?thesis by (auto simp: g_slot_def is_flight_def split: if_splits pphase.splits intro: flight_moves)
  qed
next
  case (PFlight k)
  then show ?thesis by (rule flight_moves)
next
  case (PDecide k e)
  then show ?thesis by (intro can_moveI [of cfg "EvDecide p"]) simp_all
next
  case (PBackoff k t e)
  show ?thesis
  proof (cases "ctx_done (pc_ctx cfg) (max (nt_now (pp_net s)) t)")
    case True
    with PBackoff show ?thesis
      by (intro can_moveI [of cfg "EvInterrupt p"]) (simp_all split: prod.splits)
  next
    case False
    with PBackoff show ?thesis
      by (intro can_moveI [of cfg "EvWake p"]) (simp_all split: prod.splits)
  qed
qed (use assms(1) in simp_all)

lemma cancel_run:
  assumes "pipe_run cfg es (pipe_init n) = Some s"
  shows "(\<exists>f. pp_copy s = CFailed f) \<longrightarrow> pp_cancel s"
proof (rule pipe_run_keeps [where I = "\<lambda>s. (\<exists>f. pp_copy s = CFailed f) \<longrightarrow> pp_cancel s", OF _ assms])
  show "(\<exists>f. pp_copy (pipe_init n) = CFailed f) \<longrightarrow> pp_cancel (pipe_init n)" by (simp add: pipe_init_def)
next
  fix e s s'
  assume step: "pipe_step cfg e s = Some s'" and "(\<exists>f. pp_copy s = CFailed f) \<longrightarrow> pp_cancel s"
  from step this show "(\<exists>f. pp_copy s' = CFailed f) \<longrightarrow> pp_cancel s'"
    by (cases rule: pipe_step_cases) simp_all
qed

lemma full_chan:
  assumes "sweep_laws cfg n s" "(\<exists>f. pp_copy s = CFailed f) \<longrightarrow> pp_cancel s"
    "\<not> sweep_returned s" "\<not> length (pp_chan s) < chan_capacity"
  shows "can_move cfg s \<or> pp_cancel s"
proof -
  obtain b rest where chan: "pp_chan s = b # rest"
    using assms(4) by (cases "pp_chan s") (auto simp: chan_capacity_def)
  show ?thesis
  proof (cases "pp_copy s")
    case CRunning
    with chan show ?thesis by (intro disjI1 can_moveI [of cfg EvRecv]) simp_all
  next
    case CDone
    with assms(1,3) show ?thesis by (simp add: sweep_laws_def)
  next
    case (CFailed f)
    with assms(2) show ?thesis by simp
  qed
qed

lemma send_moves:
  assumes "sweep_laws cfg n s" "(\<exists>f. pp_copy s = CFailed f) \<longrightarrow> pp_cancel s"
    "pp_main s = MWait" "2 \<le> p" "g_phase (pp_gs s p) = PSend pg"
  shows "can_move cfg s"
proof (cases "length (pp_chan s) < chan_capacity")
  case True
  with assms show ?thesis by (intro can_moveI [of cfg "EvSend p"]) simp_all
next
  case False
  from assms(3) have "\<not> sweep_returned s" by (simp add: sweep_returned_def)
  from full_chan [OF assms(1,2) this False] show ?thesis
  proof
    assume "pp_cancel s"
    with assms show ?thesis by (intro can_moveI [of cfg "EvSendStop p"]) (simp_all add: cancelled_def)
  qed
qed

lemma group_moves:
  assumes "sweep_laws cfg n s" "(\<exists>f. pp_copy s = CFailed f) \<longrightarrow> pp_cancel s" "1 \<le> pc_conc cfg"
    "pp_main s = MWait" "p \<in> {2..sm_pages (pp_meta s)}" "\<not> is_finished (g_phase (pp_gs s p))"
  shows "can_move cfg s"
proof -
  from assms(1,4) obtain f where first: "pp_first s = Some f" and "g_phase (pp_gs s p) \<noteq> PIdle"
    using assms(5) by (auto simp: sweep_laws_def pipe_consistent_def pipe_shape_def main_shape_def)
  then consider "looping (g_phase (pp_gs s p))" | "returned (g_phase (pp_gs s p))"
    | pg where "g_phase (pp_gs s p) = PSend pg"
    using assms(6) by (cases "g_phase (pp_gs s p)") simp_all
  then show ?thesis
  proof cases
    case 1
    then show ?thesis using assms(3) by (rule loop_moves)
  next
    case 2
    with first assms(4,5) show ?thesis
      by (intro can_moveI [of cfg "EvJoin p"])
        (auto simp: page_join_def Let_def returned_def split: pphase.splits)
  next
    case (3 pg)
    with assms(5) show ?thesis by (intro send_moves [OF assms(1,2,4)]) simp_all
  qed
qed

text \<open>All that can be left to happen is that the copy fails, and then only on rows it cannot store.\<close>

definition copy_must_fail :: "pcfg \<Rightarrow> pipe \<Rightarrow> bool" where
  "copy_must_fail cfg s \<longleftrightarrow> sweep_returned s \<and> pp_copy s = CRunning \<and> pp_chan s = [] \<and>
     \<not> (pc_staged cfg \<and> list_all (pc_castable cfg) (concat (pp_recv s)))"

lemma sweep_moves:
  assumes "pipe_run cfg es (pipe_init n) = Some s" "1 \<le> pc_conc cfg"
  shows "can_move cfg s \<or> pipe_final s \<or> pp_main s = MPanic \<or> copy_must_fail cfg s"
proof -
  note laws = sweep_laws_run [OF assms(1)] and cancel = cancel_run [OF assms(1)]
  then have shape: "main_shape cfg s" by (simp add: sweep_laws_def pipe_consistent_def pipe_shape_def)
  show ?thesis
  proof (cases "pp_main s")
    case MStart
    then show ?thesis by (intro disjI1 can_moveI [of cfg EvMain]) simp_all
  next
    case MPage1
    with shape consider "looping (g_phase (pp_gs s 1))" | "returned (g_phase (pp_gs s 1))"
      by (auto simp: main_shape_def)
    then show ?thesis
    proof cases
      case 1
      with assms(2) show ?thesis by (intro disjI1 loop_moves)
    next
      case 2
      with MPage1 show ?thesis
        by (intro disjI1 can_moveI [of cfg EvMain]) (auto simp: main_page1_def Let_def returned_def split: pphase.splits)
    qed
  next
    case MSend1
    with shape obtain f where f: "g_phase (pp_gs s 1) = PSend f" by (auto simp: main_shape_def)
    show ?thesis
    proof (cases "length (pp_chan s) < chan_capacity")
      case True
      with MSend1 f show ?thesis
        by (intro disjI1 can_moveI [of cfg EvMain]) (simp_all add: main_send1_def Let_def)
    next
      case False
      from MSend1 have "\<not> sweep_returned s" by (simp add: sweep_returned_def)
      from full_chan [OF laws cancel this False] show ?thesis
      proof
        assume "pp_cancel s"
        with MSend1 show ?thesis
          by (intro disjI1 can_moveI [of cfg EvMainStop]) (simp_all add: cancelled_def)
      qed simp
    qed
  next
    case MWait
    show ?thesis
    proof (cases "\<forall>p \<in> {2..sm_pages (pp_meta s)}. is_finished (g_phase (pp_gs s p))")
      case True
      with MWait show ?thesis
        by (intro disjI1 can_moveI [of cfg EvMain]) (simp_all add: main_wait_def list_all_iff Let_def)
    next
      case False
      then show ?thesis using group_moves [OF laws cancel assms(2) MWait] by blast
    qed
  next
    case (MDone r)
    then have ret: "sweep_returned s" by (simp add: sweep_returned_def)
    show ?thesis
    proof (cases "pp_copy s")
      case CRunning
      with ret show ?thesis
        by (cases "pp_chan s")
          (auto simp: copy_must_fail_def intro: can_moveI [of cfg EvRecv] can_moveI [of cfg EvCopyEnd])
    next
      case CDone
      with ret show ?thesis by (simp add: pipe_final_def)
    next
      case (CFailed f)
      with ret show ?thesis by (simp add: pipe_final_def)
    qed
  qed simp
qed

end
