(* ===== verification/Sweep_Governor.thy ===== *)
theory Sweep_Governor
  imports Sweep_Live
begin

text \<open>
  What the token budget lets a sweep do: nothing below the floor, and the pages after
  the first only once their cost was found to leave the reserve.
\<close>

section \<open>The governor\<close>

text \<open>
  The moment of the run at which the sweep let the later pages start: page 1 had just
  arrived, and the cost of the pages it announced fitted the budget known then.
\<close>

definition let_through :: "pcfg \<Rightarrow> net \<Rightarrow> ev list \<Rightarrow> pipe \<Rightarrow> order_page \<Rightarrow> bool" where
  "let_through cfg n es s pg \<longleftrightarrow>
     pipe_run cfg es (pipe_init n) = Some s \<and> pp_main s = MPage1 \<and>
     g_phase (pp_gs s 1) = PGot pg \<and> (\<forall>q. 2 \<le> q \<longrightarrow> g_phase (pp_gs s q) = PIdle) \<and>
     budget_fits (remaining_cost (pg_pages pg)) (ft_reserve (pc_fetcher cfg)) (ec_budget (nt_esi (pp_net s)))"

definition was_let_through :: "pcfg \<Rightarrow> net \<Rightarrow> ev list \<Rightarrow> int \<Rightarrow> bool" where
  "was_let_through cfg n es pages \<longleftrightarrow>
     (\<exists>es1 es2 s pg. es = es1 @ EvMain # es2 \<and> let_through cfg n es1 s pg \<and> pg_pages pg = pages)"

lemma was_let_through_later: "was_let_through cfg n es pages \<Longrightarrow> was_let_through cfg n (es @ [e]) pages"
  unfolding was_let_through_def by fastforce

definition past_first :: "pipe \<Rightarrow> bool" where
  "past_first s \<longleftrightarrow> pp_main s \<in> {MSend1, MWait} \<or> (\<exists>q. 2 \<le> q \<and> g_phase (pp_gs s q) \<noteq> PIdle)"

lemma send1_by_main:
  "pipe_step cfg e s = Some s' \<Longrightarrow> pp_main s = MPage1 \<Longrightarrow> pp_main s' = MSend1 \<Longrightarrow> e = EvMain"
  by (cases e) (auto simp: fetch_answer_def split: pphase.splits if_splits prod.splits list.splits copy_phase.splits)

lemma past_first_step:
  assumes "pipe_step cfg e s = Some s'" "pipe_shape cfg s" "past_first s'"
  shows "past_first s \<and> sm_pages (pp_meta s') = sm_pages (pp_meta s) \<or>
    (\<exists>p. e = EvMain \<and> pp_main s = MPage1 \<and> g_phase (pp_gs s 1) = PGot p \<and>
       budget_fits (remaining_cost (pg_pages p)) (ft_reserve (pc_fetcher cfg)) (ec_budget (nt_esi (pp_net s))) \<and>
       sm_pages (pp_meta s') = pg_pages p)"
  using assms(1)
proof (cases rule: pipe_step_cases)
  case (p1_ok p)
  with send1_by_main [OF assms(1)] show ?thesis by auto
next
  case (local p g n)
  with assms(3) local_moveD(1) [OF local(1)] show ?thesis
    by (auto simp: past_first_def split: if_splits)
qed (use assms(2,3) in \<open>auto simp: past_first_def pipe_shape_def main_shape_def split: if_splits\<close>)

lemma governed:
  "pipe_run cfg es (pipe_init n) = Some s \<Longrightarrow> past_first s \<Longrightarrow> was_let_through cfg n es (sm_pages (pp_meta s))"
proof (induction es arbitrary: s rule: rev_induct)
  case Nil
  then show ?case by (auto simp: past_first_def pipe_init_def)
next
  case (snoc e es)
  then obtain t where t: "pipe_run cfg es (pipe_init n) = Some t" "pipe_step cfg e t = Some s"
    by (auto simp: pipe_run_append split: option.splits)
  note shape = pipe_shape_run [OF t(1)]
  from past_first_step [OF t(2) shape snoc.prems(2)] show ?case
  proof (elim disjE exE conjE)
    assume "past_first t" "sm_pages (pp_meta s) = sm_pages (pp_meta t)"
    with snoc.IH [OF t(1)] show ?thesis by (simp add: was_let_through_later)
  next
    fix p
    assume p: "e = EvMain" "pp_main t = MPage1" "g_phase (pp_gs t 1) = PGot p" "sm_pages (pp_meta s) = pg_pages p"
      "budget_fits (remaining_cost (pg_pages p)) (ft_reserve (pc_fetcher cfg)) (ec_budget (nt_esi (pp_net t)))"
    with shape t(1) have "let_through cfg n es t p"
      by (auto simp: let_through_def pipe_shape_def main_shape_def)
    with p(1) have "es @ [e] = es @ EvMain # [] \<and> let_through cfg n es t p \<and> pg_pages p = pg_pages p" by simp
    then show ?thesis unfolding was_let_through_def p(4) by blast
  qed
qed

lemma remaining_cost_small: "1 \<le> p \<Longrightarrow> p \<le> 2 ^ 61 \<Longrightarrow> remaining_cost p = 2 * (p - 1)"
  by (simp add: remaining_cost_def token_cost_def wrap64_id int64_ok_def)

text \<open>Below the floor nothing is sent, and the sweep says so.\<close>

lemma floor_defers:
  assumes "pipe_run cfg es (pipe_init n) = Some s"
    "below_floor (ft_floor (pc_fetcher cfg)) (ec_budget (nt_esi n))"
  shows "pp_net s = n \<and> pp_recv s = [] \<and> (\<forall>p. pp_gs s p = g_idle) \<and>
    (pp_main s = MStart \<or>
     pp_main s = MDone (Some (EDeferred (floor_reason (fst (budget_remaining (ec_budget (nt_esi n))))))))"
proof -
  let ?D = "MDone (Some (EDeferred (floor_reason (fst (budget_remaining (ec_budget (nt_esi n)))))))"
  let ?I = "\<lambda>s. pp_net s = n \<and> pp_recv s = [] \<and> pp_chan s = [] \<and> (\<forall>p. pp_gs s p = g_idle) \<and>
     (pp_main s = MStart \<or> pp_main s = ?D)"
  have "?I s"
  proof (rule pipe_run_keeps [where I = ?I, OF _ assms(1)])
    show "?I (pipe_init n)" by (simp add: pipe_init_def g_idle_def)
  next
    fix e s s'
    assume "pipe_step cfg e s = Some s'" "?I s"
    with assms(2) show "?I s'"
      by (cases e) (auto simp: main_start_def Let_def split: if_splits copy_phase.splits)
  qed
  then show ?thesis by blast
qed

lemma let_through_pages:
  assumes "let_through cfg n es s pg" "bg_known (ec_budget (nt_esi (pp_net s)))"
    "int64_ok (bg_remaining (ec_budget (nt_esi (pp_net s))))" "0 \<le> bg_remaining (ec_budget (nt_esi (pp_net s)))"
    "1 \<le> pg_pages pg" "pg_pages pg \<le> 2 ^ 61"
  shows "ft_reserve (pc_fetcher cfg) + 2 * (pg_pages pg - 1) \<le> bg_remaining (ec_budget (nt_esi (pp_net s)))"
proof -
  let ?b = "ec_budget (nt_esi (pp_net s))" and ?c = "2 * (pg_pages pg - 1)"
  have "budget_fits ?c (ft_reserve (pc_fetcher cfg)) ?b"
    using assms(1) remaining_cost_small [OF assms(5,6)] by (simp add: let_through_def)
  moreover have "int64_ok (bg_remaining ?b - ?c)"
    using assms(3-6) by (simp add: int64_ok_def)
  ultimately show ?thesis using budget_fits_keeps_reserve [OF assms(2)] by fastforce
qed

end
