(* ===== verification/Sweep_Props.thy ===== *)
theory Sweep_Props
  imports Sweep_Governor
begin

text \<open>
  The properties of a region's sweep, each with a run on concrete data: a region of
  two pages downloaded, received and stored.
\<close>

section \<open>A concrete run\<close>

definition demo_order :: "int \<Rightarrow> esi_order" where
  "demo_order i = \<lparr>eo_order_id = i, eo_type_id = 34, eo_location_id = 60003760, eo_system_id = 30000142,
     eo_is_buy = False, eo_price = ''4.25'', eo_volume_remain = 100, eo_volume_total = 200, eo_min_volume = 1,
     eo_duration = 90, eo_range = ''region'', eo_issued = 63000000000000000000\<rparr>"

text \<open>A decoder that knows two bodies, and one date.\<close>

definition demo_codec :: codec where
  "demo_codec = \<lparr>cd_http_time = (\<lambda>s. if s = ''T'' then Some 64000000000000000000 else None),
     cd_orders = (\<lambda>s. if s = ''a'' then Inr [demo_order 1, demo_order 2]
                      else if s = ''b'' then Inr [demo_order 3] else Inl (EText ''bad json''))\<rparr>"

definition demo_headers :: headers where
  "demo_headers k = (if k = ''X-Pages'' then ''2'' else if k = ''Last-Modified'' then ''T''
     else if k = ''Expires'' then ''T'' else if k = ''X-Ratelimit-Remaining'' then ''10000'' else [])"

definition demo_fetcher :: fetcher where
  "demo_fetcher = \<lparr>ft_reserve = 500, ft_floor = 1000, ft_page_attempts = 3, ft_error_limit_floor = 20,
     ft_backoff_unit = second\<rparr>"

definition demo_net :: net where
  "demo_net = \<lparr>nt_now = 64000000000000000000, nt_esi = esi_client_init, nt_log = []\<rparr>"

definition demo_cfg :: pcfg where
  "demo_cfg = \<lparr>pc_codec = demo_codec, pc_fetcher = demo_fetcher, pc_ctx = None, pc_region = 7, pc_conc = 8,
     pc_staged = True, pc_castable = (\<lambda>o'. True)\<rparr>"

definition demo_answer :: "string \<Rightarrow> exchange" where
  "demo_answer body = \<lparr>ex_wait = millisecond, ex_outcome = Answered 200 demo_headers body\<rparr>"

definition demo_events :: "ev list" where
  "demo_events =
     [EvMain, EvGo 1, EvAnswer 1 (demo_answer ''a''), EvMain, EvMain, EvGo 2,
      EvAnswer 2 (demo_answer ''b''), EvJoin 2, EvRecv, EvSend 2, EvMain, EvRecv, EvCopyEnd]"

definition demo_page :: "esi_order list \<Rightarrow> order_page" where
  "demo_page os = \<lparr>pg_orders = os, pg_pages = 2, pg_expires = 64000000000000000000,
     pg_last_modified = 64000000000000000000, pg_status = 200\<rparr>"

definition demo_observed :: "int \<Rightarrow> net \<Rightarrow> net" where
  "demo_observed p n = n\<lparr>nt_now := nt_now n + millisecond,
     nt_log := nt_log n @ [(orders_path 7 p, Some 200)],
     nt_esi := (nt_esi n)\<lparr>ec_budget := \<lparr>bg_remaining = 10000, bg_known = True\<rparr>,
        ec_outage := \<lparr>og_consecutive = 0, og_paused_until = 0\<rparr>\<rparr>\<rparr>"

lemma demo_header_ints:
  "header_int demo_headers ''X-Pages'' = Some 2"
  "header_int demo_headers ''X-Ratelimit-Remaining'' = Some 10000"
  by (simp_all add: header_int_def demo_headers_def atoi_def is_digit_def digit_val_def int64_ok_def)

lemma demo_call:
  "client_orders_page demo_codec (demo_answer ''a'') 7 p n =
     (Fetched (demo_page [demo_order 1, demo_order 2]), demo_observed p n)"
  "client_orders_page demo_codec (demo_answer ''b'') 7 p n = (Fetched (demo_page [demo_order 3]), demo_observed p n)"
  by (simp_all add: client_orders_page_def get_json_def client_get_def demo_answer_def Let_def
      read_response_def demo_header_ints page_of_def demo_page_def parse_http_time_def demo_codec_def
      observe_response_def demo_observed_def budget_observe_def outage_observe_def millisecond_def
      zero_time_def demo_headers_def max_page_bytes_def)

lemmas demo_simps = demo_events_def pipe_init_def demo_cfg_def demo_net_def main_start_def below_floor_def
  esi_client_init_def budget_init_def Let_def set_g_def fetch_start_def demo_fetcher_def in_flight_def
  all_pages_def meta_init_def is_flight_def fetch_go_def fetch_answer_def demo_call main_page1_def
  demo_observed_def millisecond_def page_tokens_def demo_page_def token_cost_def budget_fits_def
  remaining_cost_def wrap64_def main_send1_def chan_capacity_def upto.simps page_join_def main_wait_def
  later_pages_def is_finished_def sweep_returned_def

lemma demo_run:
  "\<exists>s. pipe_run demo_cfg demo_events (pipe_init demo_net) = Some s \<and> pp_main s = MDone None \<and>
     pp_copy s = CDone \<and> pp_recv s = [[demo_order 1, demo_order 2], [demo_order 3]] \<and>
     sm_pages (pp_meta s) = 2 \<and> nt_log (pp_net s) = [(orders_path 7 1, Some 200), (orders_path 7 2, Some 200)]"
  by (simp add: demo_simps)

section \<open>Properties\<close>

text \<open>
  C5: a sweep that returns no error and whose rows the copy stored has delivered one
  consistent snapshot of the region: as many pages as page 1 announced, each read
  from an answer to the request of its own number, all of one \<open>Last-Modified\<close> and
  page count; the batches stored are exactly those pages, each once; and the order
  count it reports is the number of rows stored. Whatever the interleaving of the
  page goroutines, retries and the copy was.
\<close>
theorem sweep_snapshot:
  assumes "pipe_run cfg es (pipe_init n) = Some s" "pp_main s = MDone None" "pp_copy s = CDone"
  shows "page_set cfg es (pp_meta s) (sent_page s) \<and>
    mset (pp_recv s) = mset (map (\<lambda>p. pg_orders (sent_page s p)) (all_pages s)) \<and>
    sm_order_count (pp_meta s) = int (length (concat (pp_recv s)))"
  using sweep_success [OF assms] by simp

theorem sweep_snapshot_witness:
  "\<exists>s. pipe_run demo_cfg demo_events (pipe_init demo_net) = Some s \<and> sm_order_count (pp_meta s) = 3 \<and>
     page_set demo_cfg demo_events (pp_meta s) (sent_page s)"
proof -
  obtain s where s: "pipe_run demo_cfg demo_events (pipe_init demo_net) = Some s" "pp_main s = MDone None"
    "pp_copy s = CDone" "pp_recv s = [[demo_order 1, demo_order 2], [demo_order 3]]"
    using demo_run by blast
  with sweep_snapshot [OF s(1-3)] show ?thesis by auto
qed



text \<open>
  C35: at no moment has a sweep sent more requests than the attempts allowed per page
  times the number of pages, so the traffic of a region is bounded however badly
  the upstream behaves.
\<close>
theorem sweep_requests_bounded:
  assumes "pipe_run cfg es (pipe_init n) = Some s"
  shows "int (length (nt_log (pp_net s))) - int (length (nt_log n))
    \<le> max 0 (ft_page_attempts (pc_fetcher cfg)) * max 1 (sm_pages (pp_meta s))"
  using assms by (rule sweep_requests)

theorem sweep_requests_bounded_witness:
  "\<exists>s. pipe_run demo_cfg demo_events (pipe_init demo_net) = Some s \<and> int (length (nt_log (pp_net s))) \<le> 6"
proof -
  obtain s where s: "pipe_run demo_cfg demo_events (pipe_init demo_net) = Some s" "sm_pages (pp_meta s) = 2"
    using demo_run by blast
  with sweep_requests_bounded [OF s(1)] show ?thesis
    by (simp add: demo_net_def demo_cfg_def demo_fetcher_def)
qed

text \<open>A sweep never has more requests in flight than the client has slots.\<close>
theorem sweep_slots_bounded:
  assumes "pipe_run cfg es (pipe_init n) = Some s"
  shows "in_flight s \<le> max 0 (pc_conc cfg)"
  using assms by (rule sweep_slots)

theorem sweep_slots_bounded_witness:
  "\<exists>s. pipe_run demo_cfg [EvMain, EvGo 1] (pipe_init demo_net) = Some s \<and> in_flight s = 1 \<and> in_flight s \<le> 8"
proof -
  have "\<exists>s. pipe_run demo_cfg [EvMain, EvGo 1] (pipe_init demo_net) = Some s \<and> in_flight s = 1"
    by (simp add: demo_simps)
  then obtain s where s: "pipe_run demo_cfg [EvMain, EvGo 1] (pipe_init demo_net) = Some s" "in_flight s = 1" by blast
  with sweep_slots_bounded [OF s(1)] show ?thesis by (simp add: demo_cfg_def)
qed

text \<open>
  C12: the sweep and the copy never block each other. As long as they have not both
  returned, somebody can move: a page goroutine, the sweep, the copy or the network;
  at the very end it may be the copy failing on rows its table cannot hold. (With a
  page goroutine configured to make no attempt at all the sweep panics instead.)
\<close>
theorem sweep_never_stuck:
  assumes "pipe_run cfg es (pipe_init n) = Some s" "1 \<le> pc_conc cfg"
  shows "can_move cfg s \<or> pipe_final s \<or> pp_main s = MPanic \<or> copy_must_fail cfg s"
  using assms by (rule sweep_moves)

theorem sweep_never_stuck_witness:
  "\<exists>s. pipe_run demo_cfg [EvMain, EvGo 1] (pipe_init demo_net) = Some s \<and> can_move demo_cfg s"
proof -
  have "\<exists>s. pipe_run demo_cfg [EvMain, EvGo 1] (pipe_init demo_net) = Some s \<and> pp_main s = MPage1"
    by (simp add: demo_simps)
  then obtain s where s: "pipe_run demo_cfg [EvMain, EvGo 1] (pipe_init demo_net) = Some s" "pp_main s = MPage1"
    by blast
  have "1 \<le> pc_conc demo_cfg" by (simp add: demo_cfg_def)
  from sweep_never_stuck [OF s(1) this] s show ?thesis
    by (auto simp: pipe_final_def copy_must_fail_def sweep_returned_def)
qed

text \<open>
  C15: no interleaving goes on for ever: every step of a state the program can be in
  brings the whole system nearer to its end.
\<close>
theorem sweep_terminates: "wf (step_relation cfg)"
  by (rule step_relation_wf)

text \<open>
  Below the floor of the token budget a sweep sends no request at all: it is
  deferred with the budget in its reason, and delivers no batch.
\<close>
theorem sweep_floor_defers:
  assumes "pipe_run cfg es (pipe_init n) = Some s"
    "below_floor (ft_floor (pc_fetcher cfg)) (ec_budget (nt_esi n))"
  shows "pp_net s = n \<and> pp_recv s = [] \<and>
    (pp_main s = MStart \<or>
     pp_main s = MDone (Some (EDeferred (floor_reason (fst (budget_remaining (ec_budget (nt_esi n))))))))"
  using floor_defers [OF assms] by blast

theorem sweep_floor_defers_witness:
  "\<exists>s n. pipe_run demo_cfg [EvMain] (pipe_init n) = Some s \<and> nt_log (pp_net s) = [] \<and> pp_main s \<noteq> MStart \<and>
     pp_main s = MDone (Some (EDeferred (floor_reason 10)))"
proof -
  let ?n = "demo_net\<lparr>nt_esi := esi_client_init\<lparr>ec_budget := budget_observe 10 budget_init\<rparr>\<rparr>"
  have low: "below_floor (ft_floor (pc_fetcher demo_cfg)) (ec_budget (nt_esi ?n))"
    by (simp add: below_floor_def demo_cfg_def demo_fetcher_def)
  have "\<exists>s. pipe_run demo_cfg [EvMain] (pipe_init ?n) = Some s \<and> pp_main s \<noteq> MStart"
    using low by (simp add: main_start_def pipe_init_def Let_def)
  then obtain s where s: "pipe_run demo_cfg [EvMain] (pipe_init ?n) = Some s" "pp_main s \<noteq> MStart" by blast
  with sweep_floor_defers [OF s(1) low] show ?thesis
    by (intro exI [of _ s] exI [of _ ?n]) (simp add: budget_remaining_def demo_net_def)
qed



section \<open>One page\<close>

end
