(* ===== verification/Db.thy ===== *)
theory Db
  imports Client
begin

text \<open>
  The database as the store sees it: the tables this service owns
  (migrations/0001_init.sql), and one statement or transaction at a time against
  them. PostgreSQL itself is not under the repository; what the model takes from
  its documentation is the meaning of the statements the store sends, atomicity of
  a statement and of a transaction, and the constraints of the schema.

  Everything PostgreSQL decides by itself is in a \<open>db_env\<close>: which statement
  fails and whether a failed statement took effect all the same (the reply was
  lost), how long it takes, which of several rows with one key \<open>DISTINCT ON\<close>
  keeps, how a numeric literal is read, the text of a value and the hash of a text.
\<close>

section \<open>Rows\<close>

text \<open>\<open>market.orders\<close> and the staging tables; a price is in hundredths.\<close>

record order_row =
  or_region :: int
  or_order :: int
  or_type :: int
  or_location :: int
  or_system :: int
  or_buy :: bool
  or_price :: int
  or_volume_remain :: int
  or_volume_total :: int
  or_min_volume :: int
  or_duration :: int
  or_range :: string
  or_issued :: time

text \<open>\<open>market.region_status\<close>; \<open>None\<close> is \<open>NULL\<close>.\<close>

record status_row =
  st_name :: string
  st_priority :: int
  st_refreshed_at :: "time option"
  st_expires :: "time option"
  st_last_modified :: "time option"
  st_pages :: "int option"
  st_order_count :: "int option"
  st_consecutive_errors :: int
  st_last_error :: "string option"
  st_last_error_at :: "time option"

text \<open>\<open>market.ingest_log\<close>.\<close>

record ingest_row =
  il_region :: int
  il_started :: time
  il_pages :: int
  il_tokens :: int
  il_remaining :: int
  il_fetch_ms :: int
  il_copy_ms :: int
  il_apply_ms :: int
  il_verify_ms :: int
  il_inserted :: int
  il_updated :: int
  il_deleted :: int
  il_duplicates :: int
  il_outcome :: string
  il_deferred_reason :: "string option"

text \<open>
  \<open>market.history\<close>: a date is the number of days since 1 January of year 1, a price is
  in hundredths. \<open>market.everef_day\<close>, each row with its key, the day. The history has
  one partition per year.
\<close>

record hist_row =
  hr_region :: int
  hr_type :: int
  hr_date :: int
  hr_average :: int
  hr_highest :: int
  hr_lowest :: int
  hr_volume :: int
  hr_order_count :: int
  hr_last_modified :: time

record everef_row =
  ev_totals :: int
  ev_upserted :: int
  ev_watermark :: "time option"
  ev_imported_at :: time

record hist_tables =
  ht_staging :: "hist_row list option"
  ht_years :: "int set"
  ht_rows :: "hist_row list"
  ht_days :: "(int \<times> everef_row) list"

record db =
  db_stg :: "int \<rightharpoonup> order_row list"   \<comment> \<open>staging table of a region\<close>
  db_part :: "int \<rightharpoonup> order_row list"  \<comment> \<open>partition of a region\<close>
  db_status :: "int \<rightharpoonup> status_row"
  db_log :: "ingest_row list"
  db_hist :: hist_tables
  db_applied :: "string list"         \<comment> \<open>versions in \<open>schema_migrations\<close>, as inserted\<close>
  db_ops :: nat                       \<comment> \<open>calls made so far, the index into the environment\<close>
  db_now :: time

section \<open>The environment\<close>

datatype db_fault =
    NoFault
  | Fault gerr           \<comment> \<open>the call failed\<close>
  | LostReply gerr       \<comment> \<open>the call took effect, its reply was an error\<close>

record db_env =
  de_fault :: "nat \<Rightarrow> db_fault"
  de_latency :: "nat \<Rightarrow> dur"
  de_pick :: "nat \<Rightarrow> order_row list \<Rightarrow> order_row"
  de_pick_hist :: "nat \<Rightarrow> hist_row list \<Rightarrow> hist_row"
  de_numeric :: "string \<Rightarrow> int option"
  de_price_text :: "int \<Rightarrow> string"
  de_issued_text :: "time \<Rightarrow> string"
  de_hash :: "string \<Rightarrow> int"

text \<open>\<open>DISTINCT ON\<close> keeps one of the rows it is given.\<close>

definition picks_a_row :: "db_env \<Rightarrow> bool" where
  "picks_a_row env \<longleftrightarrow> (\<forall>k rs. rs \<noteq> [] \<longrightarrow> de_pick env k rs \<in> set rs)"

definition picks_hist :: "db_env \<Rightarrow> bool" where
  "picks_hist env \<longleftrightarrow> (\<forall>k rs. rs \<noteq> [] \<longrightarrow> de_pick_hist env k rs \<in> set rs)"

section \<open>Calls\<close>

type_synonym 'a db_call = "db \<Rightarrow> (gerr + 'a) \<times> db"

definition db_tick :: "db_env \<Rightarrow> db \<Rightarrow> db" where
  "db_tick env d = d\<lparr>db_ops := db_ops d + 1, db_now := db_now d + max 0 (de_latency env (db_ops d))\<rparr>"

definition db_return :: "'a \<Rightarrow> 'a db_call" where
  "db_return a d = (Inr a, d)"

definition db_then :: "'a db_call \<Rightarrow> ('a \<Rightarrow> 'b db_call) \<Rightarrow> 'b db_call" where
  "db_then m f d = (case m d of (Inl e, d') \<Rightarrow> (Inl e, d') | (Inr a, d') \<Rightarrow> f a d')"

text \<open>\<open>fmt.Errorf("pre: %w", err)\<close> around the error of a call.\<close>

definition db_wrap :: "string \<Rightarrow> 'a db_call \<Rightarrow> 'a db_call" where
  "db_wrap pre m d = (case m d of (Inl e, d') \<Rightarrow> (Inl (EWrap pre e []), d') | r \<Rightarrow> r)"

text \<open>A call with no effect of its own: acquiring a connection, beginning a transaction, a setting.\<close>

definition db_ping :: "db_env \<Rightarrow> unit db_call" where
  "db_ping env d =
     (case de_fault env (db_ops d) of
        NoFault \<Rightarrow> (Inr (), db_tick env d)
      | Fault e \<Rightarrow> (Inl e, db_tick env d)
      | LostReply e \<Rightarrow> (Inl e, db_tick env d))"

text \<open>
  One statement in its own transaction. \<open>f k\<close> is its meaning, \<open>k\<close> the number
  of the call; an \<open>Inl\<close> is an error the database raises, which changes nothing.
\<close>

definition db_exec :: "db_env \<Rightarrow> (nat \<Rightarrow> db \<Rightarrow> gerr + ('a \<times> db)) \<Rightarrow> 'a db_call" where
  "db_exec env f d =
     (let d1 = db_tick env d
      in case de_fault env (db_ops d) of
           Fault e \<Rightarrow> (Inl e, d1)
         | LostReply e \<Rightarrow> (case f (db_ops d) d1 of Inl e' \<Rightarrow> (Inl e', d1) | Inr (a, d2) \<Rightarrow> (Inl e, d2))
         | NoFault \<Rightarrow> (case f (db_ops d) d1 of Inl e' \<Rightarrow> (Inl e', d1) | Inr (a, d2) \<Rightarrow> (Inr a, d2)))"

text \<open>A statement inside a transaction: an error, of whatever kind, aborts the transaction.\<close>

definition db_stmt :: "db_env \<Rightarrow> (nat \<Rightarrow> db \<Rightarrow> gerr + ('a \<times> db)) \<Rightarrow> 'a db_call" where
  "db_stmt env f d =
     (let d1 = db_tick env d
      in case de_fault env (db_ops d) of
           NoFault \<Rightarrow> (case f (db_ops d) d1 of Inl e' \<Rightarrow> (Inl e', d1) | Inr (a, d2) \<Rightarrow> (Inr a, d2))
         | Fault e \<Rightarrow> (Inl e, d1)
         | LostReply e \<Rightarrow> (Inl e, d1))"

text \<open>The tables of \<open>d\<close> with the clock and the call counter of \<open>d'\<close>.\<close>

definition rolled_back :: "db \<Rightarrow> db \<Rightarrow> db" where
  "rolled_back d d' = d\<lparr>db_ops := db_ops d', db_now := db_now d'\<rparr>"

text \<open>
  A transaction: \<open>Begin\<close>, the statements, \<open>Commit\<close>, and the deferred
  \<open>Rollback\<close>. A commit whose reply is lost has published the transaction.
\<close>

definition db_tx :: "db_env \<Rightarrow> string option \<Rightarrow> 'a db_call \<Rightarrow> 'a db_call" where
  "db_tx env commit_pre body d =
     (case db_ping env d of
        (Inl e, d0) \<Rightarrow> (Inl e, d0)
      | (Inr u, d0) \<Rightarrow>
          (case body d0 of
             (Inl e, d1) \<Rightarrow> (Inl e, rolled_back d0 d1)
           | (Inr a, d1) \<Rightarrow>
               (let d2 = db_tick env d1;
                    wrap = (\<lambda>e. case commit_pre of None \<Rightarrow> e | Some pre \<Rightarrow> EWrap pre e [])
                in case de_fault env (db_ops d1) of
                     NoFault \<Rightarrow> (Inr a, d2)
                   | Fault e \<Rightarrow> (Inl (wrap e), rolled_back d0 d2)
                   | LostReply e \<Rightarrow> (Inl (wrap e), d2))))"

section \<open>Facts\<close>

text \<open>The tables alone, without clock and counter.\<close>

definition same_tables :: "db \<Rightarrow> db \<Rightarrow> bool" where
  "same_tables d d' \<longleftrightarrow> db_stg d' = db_stg d \<and> db_part d' = db_part d \<and> db_status d' = db_status d \<and>
     db_log d' = db_log d \<and> db_hist d' = db_hist d \<and> db_applied d' = db_applied d"

lemma same_tables_refl [simp]: "same_tables d d"
  by (simp add: same_tables_def)

lemma same_tables_trans: "same_tables a b \<Longrightarrow> same_tables b c \<Longrightarrow> same_tables a c"
  by (simp add: same_tables_def)

lemma db_tick_simps [simp]:
  "db_stg (db_tick env d) = db_stg d" "db_part (db_tick env d) = db_part d"
  "db_status (db_tick env d) = db_status d" "db_log (db_tick env d) = db_log d"
  "db_hist (db_tick env d) = db_hist d" "db_applied (db_tick env d) = db_applied d"
  "db_ops (db_tick env d) = db_ops d + 1"
  "same_tables d (db_tick env d)"
  by (simp_all add: db_tick_def same_tables_def)

lemma db_tick_time: "db_now d \<le> db_now (db_tick env d)"
  by (simp add: db_tick_def)

lemma rolled_back_simps [simp]:
  "db_stg (rolled_back d d') = db_stg d" "db_part (rolled_back d d') = db_part d"
  "db_status (rolled_back d d') = db_status d" "db_log (rolled_back d d') = db_log d"
  "db_hist (rolled_back d d') = db_hist d" "db_applied (rolled_back d d') = db_applied d"
  "db_now (rolled_back d d') = db_now d'" "db_ops (rolled_back d d') = db_ops d'"
  "same_tables d (rolled_back d d')"
  by (simp_all add: rolled_back_def same_tables_def)

lemma db_ping_tables: "same_tables d (snd (db_ping env d))"
  by (simp add: db_ping_def split: db_fault.split)

lemma db_then_Inr:
  "db_then m f d = (Inr b, d'') \<longleftrightarrow> (\<exists>a d'. m d = (Inr a, d') \<and> f a d' = (Inr b, d''))"
  by (auto simp: db_then_def split: prod.splits sum.splits)

lemma db_then_Inl:
  "db_then m f d = (Inl e, d'') \<longleftrightarrow>
     m d = (Inl e, d'') \<or> (\<exists>a d'. m d = (Inr a, d') \<and> f a d' = (Inl e, d''))"
  by (auto simp: db_then_def split: prod.splits sum.splits)

lemma db_wrap_Inr [simp]: "db_wrap pre m d = (Inr a, d') \<longleftrightarrow> m d = (Inr a, d')"
  by (auto simp: db_wrap_def split: prod.splits sum.splits)

lemma db_wrap_Inl: "db_wrap pre m d = (Inl e, d') \<longleftrightarrow> (\<exists>x. e = EWrap pre x [] \<and> m d = (Inl x, d'))"
  by (auto simp: db_wrap_def split: prod.splits sum.splits)

lemma db_wrap_snd [simp]: "snd (db_wrap pre m d) = snd (m d)"
  by (auto simp: db_wrap_def split: prod.splits sum.splits)

text \<open>A statement that only reads leaves the tables alone.\<close>

lemma db_exec_reads:
  assumes "\<And>k d. f k d = Inr (q d, d)"
  shows "same_tables d (snd (db_exec env f d))"
    "db_exec env f d = (Inr a, d') \<Longrightarrow> a = q d' \<and> d' = db_tick env d"
  using assms by (auto simp: db_exec_def Let_def split: db_fault.splits)

lemma db_stmt_Inr:
  "db_stmt env f d = (Inr a, d') \<longleftrightarrow>
     de_fault env (db_ops d) = NoFault \<and> f (db_ops d) (db_tick env d) = Inr (a, d')"
  by (auto simp: db_stmt_def Let_def split: db_fault.splits sum.splits)

lemma db_ping_Inr:
  "db_ping env d = (Inr u, d') \<longleftrightarrow> de_fault env (db_ops d) = NoFault \<and> d' = db_tick env d"
  by (auto simp: db_ping_def split: db_fault.splits)

text \<open>
  A transaction publishes its body's tables or none of them, and it reports an error
  although it published only when the reply to its commit was lost.
\<close>

lemma db_tx_Inr:
  assumes "db_tx env pre body d = (Inr a, d')"
  obtains d0 d1 where "db_ping env d = (Inr (), d0)" "body d0 = (Inr a, d1)" "d' = db_tick env d1"
  using assms
  by (auto simp: db_tx_def Let_def split: prod.splits sum.splits db_fault.splits)

lemma db_tx_Inl:
  assumes "db_tx env pre body d = (Inl e, d')"
  shows "same_tables d d' \<or>
    (\<exists>d0 d1 a x. db_ping env d = (Inr (), d0) \<and> body d0 = (Inr a, d1) \<and> d' = db_tick env d1 \<and>
       de_fault env (db_ops d1) = LostReply x)"
proof -
  obtain r0 d0 where p: "db_ping env d = (r0, d0)" by force
  with db_ping_tables [of d env] have t0: "same_tables d d0" by simp
  show ?thesis
  proof (cases r0)
    case (Inl x)
    with p assms t0 show ?thesis by (simp add: db_tx_def)
  next
    case (Inr u)
    obtain r1 d1 where b: "body d0 = (r1, d1)" by force
    from t0 have undo: "same_tables d (rolled_back d0 x)" for x
      by (rule same_tables_trans) simp
    show ?thesis
    proof (cases r1)
      case Inl
      with p b Inr assms undo show ?thesis by (auto simp: db_tx_def)
    next
      case r1: (Inr a)
      with p b Inr assms undo show ?thesis
        by (auto simp: db_tx_def Let_def split: db_fault.splits)
    qed
  qed
qed

end
