(* ===== verification/Copy_Source.thy ===== *)
theory Copy_Source
  imports Client
begin

text \<open>
  The iterator interface between the store and the database driver: the driver's
  \<open>CopyFrom\<close> calls \<open>Next\<close> and \<open>Values\<close> until \<open>Next\<close> answers false. Both
  sources of internal/store provide it: \<open>orderCopySource\<close> (orders.go), fed by
  the sweep's channel, and \<open>historyCopySource\<close> (history.go), fed by a slice.
\<close>

text \<open>
  What the driver does with a source whose \<open>Next\<close> followed by \<open>Values\<close> is
  \<open>nxt\<close>: at most \<open>fuel\<close> calls, \<open>None\<close> when they did not reach the end.
\<close>

fun copy_from :: "('s \<Rightarrow> ('r \<times> 's) option) \<Rightarrow> nat \<Rightarrow> 's \<Rightarrow> 'r list option" where
  "copy_from nxt 0 s = None"
| "copy_from nxt (Suc fuel) s =
     (case nxt s of
        None \<Rightarrow> Some []
      | Some (r, s') \<Rightarrow> map_option (Cons r) (copy_from nxt fuel s'))"

locale copy_source =
  fixes nxt :: "'s \<Rightarrow> ('r \<times> 's) option"
    and remaining :: "'s \<Rightarrow> 'r list"
  assumes nxt_end: "nxt s = None \<Longrightarrow> remaining s = []"
    and nxt_row: "nxt s = Some (r, s') \<Longrightarrow> remaining s = r # remaining s'"
begin

text \<open>The driver receives exactly the remaining rows, in order, and stops.\<close>

lemma copy_all: "length (remaining s) < fuel \<Longrightarrow> copy_from nxt fuel s = Some (remaining s)"
proof (induction fuel arbitrary: s)
  case 0
  then show ?case by simp
next
  case (Suc fuel)
  show ?case
  proof (cases "nxt s")
    case None
    then show ?thesis by (simp add: nxt_end)
  next
    case (Some rs)
    then obtain r s' where next': "nxt s = Some (r, s')" by (cases rs) auto
    from nxt_row [OF next'] Suc.prems have "length (remaining s') < fuel" by simp
    from Suc.IH [OF this] show ?thesis by (simp add: next' nxt_row [OF next'])
  qed
qed

lemma copy_only_all: "copy_from nxt fuel s = Some rs \<Longrightarrow> rs = remaining s"
proof (induction fuel arbitrary: s rs)
  case (Suc fuel)
  then show ?case by (auto split: option.splits dest: nxt_end nxt_row)
qed simp

end

section \<open>orderCopySource\<close>

text \<open>
  The channel is the list of the batches that a receive will still yield before it
  reports the channel closed. A row is the region followed by the order's fields,
  the price as its text.
\<close>

record order_source =
  os_in :: "esi_order list list"
  os_region :: int
  os_batch :: "esi_order list"
  os_idx :: nat

definition order_source_init :: "int \<Rightarrow> esi_order list list \<Rightarrow> order_source" where
  "order_source_init rg batches = \<lparr>os_in = batches, os_region = rg, os_batch = [], os_idx = 0\<rparr>"

text \<open>The inner loop of \<open>Next\<close>: receive until a batch has an element at the index.\<close>

fun os_fill :: "esi_order list list \<Rightarrow> esi_order list \<Rightarrow> nat \<Rightarrow> (esi_order list list \<times> esi_order list \<times> nat) option" where
  "os_fill chan batch idx =
     (if idx < length batch then Some (chan, batch, idx)
      else case chan of
        [] \<Rightarrow> None
      | b # rest \<Rightarrow> os_fill rest b 0)"

declare os_fill.simps [simp del]

definition os_next :: "order_source \<Rightarrow> ((int \<times> esi_order) \<times> order_source) option" where
  "os_next s =
     (case os_fill (os_in s) (os_batch s) (os_idx s) of
        None \<Rightarrow> None
      | Some (chan, batch, idx) \<Rightarrow>
          Some ((os_region s, batch ! idx), s\<lparr>os_in := chan, os_batch := batch, os_idx := idx + 1\<rparr>))"

definition os_remaining :: "order_source \<Rightarrow> (int \<times> esi_order) list" where
  "os_remaining s = map (Pair (os_region s)) (drop (os_idx s) (os_batch s) @ concat (os_in s))"

lemma os_fill_eqs [simp]:
  "idx < length batch \<Longrightarrow> os_fill chan batch idx = Some (chan, batch, idx)"
  "\<not> idx < length batch \<Longrightarrow> os_fill [] batch idx = None"
  "\<not> idx < length batch \<Longrightarrow> os_fill (b # rest) batch idx = os_fill rest b 0"
  by (subst os_fill.simps, simp)+

lemma os_fill_None: "os_fill chan batch idx = None \<Longrightarrow> drop idx batch @ concat chan = []"
proof (induction chan arbitrary: batch idx)
  case Nil
  then show ?case by (cases "idx < length batch") auto
next
  case (Cons b rest)
  then show ?case using Cons.IH [of b 0] by (cases "idx < length batch") auto
qed

lemma os_fill_Some:
  "os_fill chan batch idx = Some (chan', batch', idx') \<Longrightarrow>
   idx' < length batch' \<and> drop idx batch @ concat chan = drop idx' batch' @ concat chan'"
proof (induction chan arbitrary: batch idx)
  case Nil
  then show ?case by (cases "idx < length batch") auto
next
  case (Cons b rest)
  then show ?case using Cons.IH [of b 0] by (cases "idx < length batch") auto
qed

interpretation osrc: copy_source os_next os_remaining
proof
  fix s :: order_source
  assume "os_next s = None"
  then have "os_fill (os_in s) (os_batch s) (os_idx s) = None"
    by (auto simp: os_next_def split: option.splits)
  from os_fill_None [OF this] show "os_remaining s = []" by (simp add: os_remaining_def)
next
  fix s r s'
  assume "os_next s = Some (r, s')"
  then obtain chan batch idx where f: "os_fill (os_in s) (os_batch s) (os_idx s) = Some (chan, batch, idx)"
    and r: "r = (os_region s, batch ! idx)" "s' = s\<lparr>os_in := chan, os_batch := batch, os_idx := idx + 1\<rparr>"
    by (auto simp: os_next_def split: option.splits)
  from os_fill_Some [OF f] show "os_remaining s = r # os_remaining s'"
    unfolding os_remaining_def by (simp add: r flip: Cons_nth_drop_Suc)
qed

text \<open>The rows of a whole sweep: every order of every batch, in order of arrival.\<close>

definition copy_order_rows :: "int \<Rightarrow> esi_order list list \<Rightarrow> (int \<times> esi_order) list option" where
  "copy_order_rows rg batches =
     copy_from os_next (length (concat batches) + 1) (order_source_init rg batches)"

lemma copy_order_rows: "copy_order_rows rg batches = Some (map (Pair rg) (concat batches))"
  unfolding copy_order_rows_def
  by (subst osrc.copy_all) (simp_all add: os_remaining_def order_source_init_def)

section \<open>historyCopySource\<close>

text \<open>\<open>Next\<close> advances the index first; \<open>Values\<close> then reads the row before it.\<close>

record 'r history_source =
  hs_rows :: "'r list"
  hs_i :: nat

definition hs_next :: "'r history_source \<Rightarrow> ('r \<times> 'r history_source) option" where
  "hs_next s =
     (let i = hs_i s + 1
      in if i \<le> length (hs_rows s) then Some (hs_rows s ! (i - 1), s\<lparr>hs_i := i\<rparr>) else None)"

definition hs_remaining :: "'r history_source \<Rightarrow> 'r list" where
  "hs_remaining s = drop (hs_i s) (hs_rows s)"

interpretation hsrc: copy_source hs_next hs_remaining
  by unfold_locales
    (auto simp: hs_next_def hs_remaining_def Let_def Cons_nth_drop_Suc split: if_splits)

definition copy_history_rows :: "'r list \<Rightarrow> 'r list option" where
  "copy_history_rows rows = copy_from hs_next (length rows + 1) \<lparr>hs_rows = rows, hs_i = 0\<rparr>"

lemma copy_history_rows: "copy_history_rows rows = Some rows"
  unfolding copy_history_rows_def by (subst hsrc.copy_all) (simp_all add: hs_remaining_def)

end
