(* ===== verification/Orders_Store.thy ===== *)
theory Orders_Store
  imports Db Copy_Source Sweep
begin

text \<open>
  internal/store/orders.go: the names of a region's tables, the copy of a sweep
  into the staging table, the delta statement \<open>applySQL\<close> and the transaction
  around it, the checksum that guards against drift, and the rebuild.
\<close>

section \<open>Names\<close>

definition Schema :: string where
  "Schema = ''market''"

definition partition_name :: "int \<Rightarrow> string" where
  "partition_name i = ''orders_'' @ show_int i"

definition staging_name :: "int \<Rightarrow> string" where
  "staging_name i = ''stg_'' @ show_int i"

lemma partition_name_inj: "partition_name i = partition_name j \<longleftrightarrow> i = j"
  by (auto simp: partition_name_def dest: show_int_inj)

lemma staging_name_inj: "staging_name i = staging_name j \<longleftrightarrow> i = j"
  by (auto simp: staging_name_def dest: show_int_inj)

lemma partition_not_staging: "partition_name i \<noteq> staging_name j"
  by (simp add: partition_name_def staging_name_def)

section \<open>Copying a sweep\<close>

text \<open>
  A row of the copy as the staging table stores it: the price through the type
  \<open>numeric(20,2)\<close>, the issue date at the resolution of \<open>timestamptz\<close>, a
  microsecond.
\<close>

definition cast_row :: "db_env \<Rightarrow> int \<Rightarrow> esi_order \<Rightarrow> order_row option" where
  "cast_row env rg o' =
     (case de_numeric env (eo_price o') of
        None \<Rightarrow> None
      | Some p \<Rightarrow> Some \<lparr>or_region = rg, or_order = eo_order_id o', or_type = eo_type_id o',
          or_location = eo_location_id o', or_system = eo_system_id o', or_buy = eo_is_buy o', or_price = p,
          or_volume_remain = eo_volume_remain o', or_volume_total = eo_volume_total o',
          or_min_volume = eo_min_volume o', or_duration = eo_duration o', or_range = eo_range o',
          or_issued = eo_issued o' div 1000 * 1000\<rparr>)"

definition cast_rows :: "db_env \<Rightarrow> (int \<times> esi_order) list \<Rightarrow> order_row list" where
  "cast_rows env rows = List.map_filter (\<lambda>(rg, o'). cast_row env rg o') rows"

definition set_staging :: "int \<Rightarrow> order_row list \<Rightarrow> db \<Rightarrow> db" where
  "set_staging rg rows d =
     (case db_stg d rg of None \<Rightarrow> d | Some old \<Rightarrow> d\<lparr>db_stg := (db_stg d)(rg \<mapsto> rows)\<rparr>)"

text \<open>
  \<open>CopyOrders\<close> once it returned. Its concurrent half, the receives from the
  sweep's channel, are steps of the sweep's transition system; \<open>c\<close> is how the
  copy ended there and \<open>batches\<close> what it received.
\<close>

definition copy_orders :: "db_env \<Rightarrow> int \<Rightarrow> copy_phase \<Rightarrow> esi_order list list \<Rightarrow> db \<Rightarrow> (int \<times> gerr option) \<times> db" where
  "copy_orders env rg c batches d =
     (let rows = (case copy_order_rows rg batches of None \<Rightarrow> [] | Some rs \<Rightarrow> cast_rows env rs)
      in case c of
           CDone \<Rightarrow> ((int (length rows), None), set_staging rg rows d)
         | CFailed (AcquireFailed e) \<Rightarrow> ((0, Some (EWrap ''acquire copy conn: '' e [])), d)
         | CFailed (TruncateFailed e took) \<Rightarrow>
             ((0, Some (EWrap (''truncate staging '' @ staging_name rg @ '': '') e [])),
              if took then set_staging rg [] d else d)
         | CFailed (CopyFailed e n took) \<Rightarrow>
             ((n, Some (EWrap (''copy into '' @ staging_name rg @ '': '') e [])),
              set_staging rg (if took then rows else []) d)
         | CRunning \<Rightarrow> ((0, None), d))"

section \<open>The delta\<close>

text \<open>\<open>SELECT DISTINCT ON (order_id) ... ORDER BY order_id\<close>.\<close>

definition distinct_on :: "(order_row list \<Rightarrow> order_row) \<Rightarrow> order_row list \<Rightarrow> order_row list" where
  "distinct_on pick rows =
     map (\<lambda>i. pick (filter (\<lambda>r. or_order r = i) rows)) (remdups (sort (map or_order rows)))"

text \<open>\<open>compareCols\<close>: the columns that decide whether a surviving order changed.\<close>

definition compare_cols where
  "compare_cols r = (or_type r, or_location r, or_system r, or_buy r, or_price r, or_volume_remain r,
     or_volume_total r, or_min_volume r, or_duration r, or_range r, or_issued r)"

definition set_compare_cols :: "order_row \<Rightarrow> order_row \<Rightarrow> order_row" where
  "set_compare_cols d l = l\<lparr>or_type := or_type d, or_location := or_location d, or_system := or_system d,
     or_buy := or_buy d, or_price := or_price d, or_volume_remain := or_volume_remain d,
     or_volume_total := or_volume_total d, or_min_volume := or_min_volume d, or_duration := or_duration d,
     or_range := or_range d, or_issued := or_issued d\<rparr>"

text \<open>The rows of the common table expression \<open>d\<close>; a deletion has only its key.\<close>

datatype delta_row =
    DIns order_row
  | DUpd order_row
  | DDel int

definition has_order :: "int \<Rightarrow> order_row list \<Rightarrow> bool" where
  "has_order i rows = list_ex (\<lambda>r. or_order r = i) rows"

definition delta_rows :: "order_row list \<Rightarrow> order_row list \<Rightarrow> delta_row list" where
  "delta_rows s l =
     [DIns r. r \<leftarrow> s, \<not> has_order (or_order r) l] @
     [DUpd r. r \<leftarrow> s, q \<leftarrow> l, or_order q = or_order r \<and> compare_cols r \<noteq> compare_cols q] @
     [DDel (or_order q). q \<leftarrow> l, \<not> has_order (or_order q) s]"

definition delta_inserts :: "delta_row list \<Rightarrow> order_row list" where
  "delta_inserts ds = List.map_filter (\<lambda>d. case d of DIns r \<Rightarrow> Some r | _ \<Rightarrow> None) ds"

definition deletes :: "delta_row list \<Rightarrow> order_row \<Rightarrow> bool" where
  "deletes ds q = list_ex (\<lambda>d. case d of DDel i \<Rightarrow> or_order q = i | _ \<Rightarrow> False) ds"

fun update_for :: "delta_row list \<Rightarrow> order_row \<Rightarrow> order_row option" where
  "update_for [] q = None"
| "update_for (DUpd r # ds) q =
     (if or_region q = or_region r \<and> or_order q = or_order r then Some r else update_for ds q)"
| "update_for (DIns r # ds) q = update_for ds q"
| "update_for (DDel i # ds) q = update_for ds q"

definition updated_row :: "delta_row list \<Rightarrow> order_row \<Rightarrow> order_row" where
  "updated_row ds q = (case update_for ds q of Some r \<Rightarrow> set_compare_cols r q | None \<Rightarrow> q)"

text \<open>The partition constraint and the primary key, which every insert is held against.\<close>

definition insert_ok :: "int \<Rightarrow> order_row list \<Rightarrow> order_row list \<Rightarrow> bool" where
  "insert_ok rg old new \<longleftrightarrow>
     list_all (\<lambda>r. or_region r = rg) new \<and>
     distinct (map (\<lambda>r. (or_region r, or_order r)) new) \<and>
     list_all (\<lambda>r. \<not> list_ex (\<lambda>q. or_region q = or_region r \<and> or_order q = or_order r) old) new"

record delta_result =
  dl_inserted :: int
  dl_updated :: int
  dl_deleted :: int
  dl_duplicates :: int

definition delta_zero :: delta_result where
  "delta_zero = \<lparr>dl_inserted = 0, dl_updated = 0, dl_deleted = 0, dl_duplicates = 0\<rparr>"

text \<open>\<open>applySQL\<close>: one statement; its four expressions all read the tables as they were before it.\<close>

definition apply_sql :: "db_env \<Rightarrow> int \<Rightarrow> nat \<Rightarrow> db \<Rightarrow> gerr + ((int \<times> int \<times> int) \<times> db)" where
  "apply_sql env rg k d =
     (case (db_stg d rg, db_part d rg) of
        (Some stg, Some live) \<Rightarrow>
          (let ds = delta_rows (distinct_on (de_pick env k) stg) live;
               ins = delta_inserts ds;
               kept = filter (\<lambda>q. \<not> deletes ds q) live;
               upd = filter (\<lambda>q. update_for ds q \<noteq> None) kept
           in if insert_ok rg live ins
              then Inr ((int (length ins), int (length upd), int (length live) - int (length kept)),
                        d\<lparr>db_part := (db_part d)(rg \<mapsto> map (updated_row ds) kept @ ins)\<rparr>)
              else Inl (EText ''constraint violated''))
      | _ \<Rightarrow> Inl (EText ''undefined table''))"

text \<open>How many staged rows repeat an order of another row.\<close>

definition count_duplicates :: "int \<Rightarrow> nat \<Rightarrow> db \<Rightarrow> gerr + (int \<times> db)" where
  "count_duplicates rg k d =
     (case db_stg d rg of
        None \<Rightarrow> Inl (EText ''undefined table'')
      | Some stg \<Rightarrow> Inr (int (length stg) - int (length (remdups (map or_order stg))), d))"

definition apply_delta :: "db_env \<Rightarrow> int \<Rightarrow> delta_result db_call" where
  "apply_delta env rg =
     db_then (db_wrap ''acquire apply conn: '' (db_ping env)) (\<lambda>_.
     db_tx env (Some ''commit delta: '')
       (db_then (db_wrap ''set work_mem: '' (db_ping env)) (\<lambda>_.
        db_then (db_wrap ''count duplicates: '' (db_stmt env (count_duplicates rg))) (\<lambda>dup.
        db_then (db_wrap (''apply delta for region '' @ show_int rg @ '': '') (db_stmt env (apply_sql env rg)))
          (\<lambda>(i, u, x). db_return \<lparr>dl_inserted = i, dl_updated = u, dl_deleted = x, dl_duplicates = dup\<rparr>)))))"

section \<open>Rebuild\<close>

definition truncate_part :: "int \<Rightarrow> nat \<Rightarrow> db \<Rightarrow> gerr + (unit \<times> db)" where
  "truncate_part rg k d =
     (case db_part d rg of
        None \<Rightarrow> Inl (EText ''undefined table'')
      | Some live \<Rightarrow> Inr ((), d\<lparr>db_part := (db_part d)(rg \<mapsto> [])\<rparr>))"

definition insert_staged :: "db_env \<Rightarrow> int \<Rightarrow> nat \<Rightarrow> db \<Rightarrow> gerr + (int \<times> db)" where
  "insert_staged env rg k d =
     (case (db_stg d rg, db_part d rg) of
        (Some stg, Some live) \<Rightarrow>
          (let new = distinct_on (de_pick env k) stg
           in if insert_ok rg live new
              then Inr (int (length new), d\<lparr>db_part := (db_part d)(rg \<mapsto> live @ new)\<rparr>)
              else Inl (EText ''constraint violated''))
      | _ \<Rightarrow> Inl (EText ''undefined table''))"

definition resync_region :: "db_env \<Rightarrow> int \<Rightarrow> int db_call" where
  "resync_region env rg =
     db_then (db_ping env) (\<lambda>_.
     db_tx env None
       (db_then (db_ping env) (\<lambda>_.
        db_then (db_wrap (''truncate '' @ Schema @ ''.'' @ partition_name rg @ '': '') (db_stmt env (truncate_part rg))) (\<lambda>_.
        db_wrap (''resync insert '' @ Schema @ ''.'' @ partition_name rg @ '': '') (db_stmt env (insert_staged env rg))))))"

section \<open>The drift guard\<close>

record checksum =
  ck_rows :: int
  ck_hash :: string

text \<open>The text that is hashed: five columns, with nothing between them.\<close>

definition checksum_text :: "db_env \<Rightarrow> order_row \<Rightarrow> string" where
  "checksum_text env r = show_int (or_region r) @ show_int (or_order r) @ de_price_text env (or_price r) @
     show_int (or_volume_remain r) @ de_issued_text env (or_issued r)"

definition checksum_of :: "db_env \<Rightarrow> order_row list \<Rightarrow> checksum" where
  "checksum_of env rows =
     \<lparr>ck_rows = int (length rows),
      ck_hash = show_int (sum_list (map (\<lambda>r. de_hash env (checksum_text env r)) rows))\<rparr>"

definition checksum_query :: "db_env \<Rightarrow> (nat \<Rightarrow> db \<Rightarrow> order_row list option) \<Rightarrow> nat \<Rightarrow> db \<Rightarrow> gerr + (checksum \<times> db)" where
  "checksum_query env from k d =
     (case from k d of None \<Rightarrow> Inl (EText ''undefined table'') | Some rows \<Rightarrow> Inr (checksum_of env rows, d))"

definition verify_region :: "db_env \<Rightarrow> int \<Rightarrow> (checksum \<times> checksum) db_call" where
  "verify_region env rg =
     db_then (db_wrap ''checksum live: '' (db_exec env (checksum_query env (\<lambda>k d. db_part d rg)))) (\<lambda>live.
     db_then (db_wrap ''checksum staging: '' (db_exec env (checksum_query env
        (\<lambda>k d. map_option (distinct_on (de_pick env k)) (db_stg d rg))))) (\<lambda>staged.
     db_return (live, staged)))"

text \<open>\<open>RegionRowCount\<close>, of internal/store/status.go.\<close>

definition count_live :: "int \<Rightarrow> nat \<Rightarrow> db \<Rightarrow> gerr + (int \<times> db)" where
  "count_live rg k d =
     (case db_part d rg of None \<Rightarrow> Inl (EText ''undefined table'') | Some live \<Rightarrow> Inr (int (length live), d))"

definition region_row_count :: "db_env \<Rightarrow> int \<Rightarrow> int db_call" where
  "region_row_count env rg = db_wrap (''count region '' @ show_int rg @ '': '') (db_exec env (count_live rg))"

end
