(* ===== verification/Publish.thy ===== *)
theory Publish
  imports Orders_Store
begin

text \<open>
  What the two ways to publish a staged snapshot promise, as one contract:
  \<open>ApplyDelta\<close> and \<open>ResyncRegion\<close> are both a \<open>publish_op\<close>. After
  success the region's partition holds exactly the staged snapshot without its
  duplicates; after a failure it holds what it held before, unless the reply to a
  commit was lost; nothing else is touched.
\<close>

section \<open>A snapshot without duplicates\<close>

definition is_dedup :: "order_row list \<Rightarrow> order_row list \<Rightarrow> bool" where
  "is_dedup rows s \<longleftrightarrow>
     distinct (map or_order s) \<and> set s \<subseteq> set rows \<and> or_order ` set s = or_order ` set rows"

lemma is_dedup_self: "distinct (map or_order rows) \<Longrightarrow> is_dedup rows rows"
  by (simp add: is_dedup_def)

lemma filter_order_nonempty: "i \<in> or_order ` set rows \<Longrightarrow> filter (\<lambda>r. or_order r = i) rows \<noteq> []"
  by (auto simp: filter_empty_conv)

lemma pick_row:
  assumes "\<And>rs. rs \<noteq> [] \<Longrightarrow> pick rs \<in> set rs" "i \<in> or_order ` set rows"
  shows "pick (filter (\<lambda>r. or_order r = i) rows) \<in> set rows"
    "or_order (pick (filter (\<lambda>r. or_order r = i) rows)) = i"
  using assms(1) [OF filter_order_nonempty [OF assms(2)]] by auto

lemma distinct_on_orders:
  assumes "\<And>rs. rs \<noteq> [] \<Longrightarrow> pick rs \<in> set rs"
  shows "map or_order (distinct_on pick rows) = remdups (sort (map or_order rows))"
proof -
  have "map (\<lambda>i. or_order (pick (filter (\<lambda>r. or_order r = i) rows))) is = is"
    if "set is \<subseteq> or_order ` set rows" for "is"
    using that pick_row(2) [where pick = pick and rows = rows, OF assms] by (induction "is") auto
  from this [of "remdups (sort (map or_order rows))"] show ?thesis
    by (simp add: distinct_on_def comp_def)
qed

lemma distinct_on_dedup:
  assumes "\<And>rs. rs \<noteq> [] \<Longrightarrow> pick rs \<in> set rs"
  shows "is_dedup rows (distinct_on pick rows)"
proof -
  have orders: "map or_order (distinct_on pick rows) = remdups (sort (map or_order rows))"
    using assms by (rule distinct_on_orders)
  have "distinct (map or_order (distinct_on pick rows))" unfolding orders by simp
  moreover have "set (distinct_on pick rows) \<subseteq> set rows"
    using pick_row(1) [where pick = pick and rows = rows, OF assms] by (auto simp: distinct_on_def)
  moreover have "or_order ` set (distinct_on pick rows) = or_order ` set rows"
    using arg_cong [OF orders, of set] by simp
  ultimately show ?thesis by (simp add: is_dedup_def)
qed

text \<open>Without duplicates the statement keeps every row.\<close>

lemma distinct_on_distinct:
  assumes "\<And>rs. rs \<noteq> [] \<Longrightarrow> pick rs \<in> set rs" "distinct (map or_order rows)"
  shows "mset (distinct_on pick rows) = mset rows"
proof -
  have dd: "is_dedup rows (distinct_on pick rows)" by (rule distinct_on_dedup [OF assms(1)])
  have "set rows \<subseteq> set (distinct_on pick rows)"
  proof
    fix r assume r: "r \<in> set rows"
    then obtain r' where r': "r' \<in> set (distinct_on pick rows)" "or_order r' = or_order r"
      using dd by (metis image_iff is_dedup_def)
    with dd have "r' \<in> set rows" by (auto simp: is_dedup_def)
    from map_of_key_distinct [OF assms(2) this r r'(2)] r'(1) show "r \<in> set (distinct_on pick rows)" by simp
  qed
  with dd have "set (distinct_on pick rows) = set rows" by (auto simp: is_dedup_def)
  moreover have "distinct (distinct_on pick rows)" "distinct rows"
    using dd assms(2) by (auto simp: is_dedup_def distinct_map)
  ultimately show ?thesis by (simp add: set_eq_iff_mset_eq_distinct)
qed

section \<open>The delta statement\<close>

lemma has_order_iff: "has_order i rows \<longleftrightarrow> i \<in> or_order ` set rows"
  by (auto simp: has_order_def list_ex_iff)

lemma row_eqI:
  assumes "or_region r = or_region q" "or_order r = or_order q" "compare_cols r = compare_cols q"
  shows "r = (q :: order_row)"
  using assms by (cases r; cases q) (simp add: compare_cols_def)

lemma set_compare_cols_id:
  assumes "or_region r = or_region q" "or_order r = or_order q"
  shows "set_compare_cols r q = r"
  by (rule row_eqI) (simp_all add: set_compare_cols_def compare_cols_def assms)

lemma delta_inserts_rows: "delta_inserts (delta_rows s l) = filter (\<lambda>r. \<not> has_order (or_order r) l) s"
proof -
  have none: "List.map_filter (\<lambda>d. case d of DIns r \<Rightarrow> Some r | _ \<Rightarrow> None) xs = []"
    if "\<forall>d \<in> set xs. \<forall>r. d \<noteq> DIns r" for xs
    using that by (induction xs) (auto simp: List.map_filter_simps split: delta_row.splits)
  have some: "List.map_filter (\<lambda>d. case d of DIns r \<Rightarrow> Some r | _ \<Rightarrow> None)
      (concat (map (\<lambda>r. if P r then [DIns r] else []) xs)) = filter P xs" for P xs
    by (induction xs) (auto simp: List.map_filter_simps)
  have app: "List.map_filter f (xs @ ys) = List.map_filter f xs @ List.map_filter f ys" for f :: "delta_row \<Rightarrow> order_row option" and xs ys
    by (simp add: List.map_filter_def)
  show ?thesis
    unfolding delta_inserts_def delta_rows_def app some
    by (subst (1 2) none) auto
qed

lemma in_delta_rows:
  "DDel i \<in> set (delta_rows s l) \<longleftrightarrow> i \<in> or_order ` set l \<and> \<not> has_order i s"
  "DUpd r \<in> set (delta_rows s l) \<longleftrightarrow>
     r \<in> set s \<and> (\<exists>q \<in> set l. or_order q = or_order r \<and> compare_cols r \<noteq> compare_cols q)"
  by (auto simp: delta_rows_def)

lemma deletes_iff: "deletes ds q \<longleftrightarrow> DDel (or_order q) \<in> set ds"
  by (induction ds) (auto simp: deletes_def split: delta_row.splits)

lemma update_for_Some:
  "update_for ds q = Some r \<Longrightarrow> DUpd r \<in> set ds \<and> or_region q = or_region r \<and> or_order q = or_order r"
  by (induction ds q rule: update_for.induct) (auto split: if_splits)

lemma update_for_None:
  "update_for ds q = None \<Longrightarrow> DUpd r \<in> set ds \<Longrightarrow> or_region q = or_region r \<Longrightarrow> or_order q \<noteq> or_order r"
  by (induction ds q rule: update_for.induct) (auto split: if_splits)

lemma deletes_rows: "q \<in> set l \<Longrightarrow> deletes (delta_rows s l) q \<longleftrightarrow> \<not> has_order (or_order q) s"
  by (auto simp: deletes_iff in_delta_rows)

text \<open>The partition and the staging table hold rows of their own region, the partition one row per order.\<close>

definition rows_of :: "int \<Rightarrow> order_row list \<Rightarrow> bool" where
  "rows_of rg rows \<longleftrightarrow> (\<forall>r \<in> set rows. or_region r = rg)"

text \<open>A surviving row ends up as its staged version.\<close>

lemma updated_row_staged:
  assumes "rows_of rg s" "rows_of rg l" "distinct (map or_order s)" "distinct (map or_order l)"
    "q \<in> set l" "r \<in> set s" "or_order r = or_order q"
  shows "updated_row (delta_rows s l) q = r"
    "update_for (delta_rows s l) q \<noteq> None \<longleftrightarrow> r \<noteq> q"
proof -
  let ?ds = "delta_rows s l"
  have reg: "or_region r = or_region q" using assms(1,2,5,6) by (simp add: rows_of_def)
  have only: "r' = r" if "DUpd r' \<in> set ?ds" "or_order q = or_order r'" for r'
    using map_of_key_distinct [OF assms(3), of r' r] that assms(6,7) by (simp add: in_delta_rows)
  have upd: "DUpd r \<in> set ?ds \<longleftrightarrow> compare_cols r \<noteq> compare_cols q"
    using assms(5-7) map_of_key_distinct [OF assms(4), of _ q] by (auto simp: in_delta_rows)
  show "updated_row ?ds q = r"
  proof (cases "update_for ?ds q")
    case None
    from update_for_None [OF this, of r] reg assms(7) have "DUpd r \<notin> set ?ds" by auto
    with upd have "r = q" by (intro row_eqI reg assms(7)) simp
    with None show ?thesis by (simp add: updated_row_def)
  next
    case (Some r')
    from update_for_Some [OF this] only have "r' = r" by auto
    with Some show ?thesis by (simp add: updated_row_def set_compare_cols_id reg assms(7))
  qed
  show "update_for ?ds q \<noteq> None \<longleftrightarrow> r \<noteq> q"
  proof
    assume "update_for ?ds q \<noteq> None"
    then obtain r' where "update_for ?ds q = Some r'" by blast
    from update_for_Some [OF this] only have "DUpd r \<in> set ?ds" by auto
    with upd show "r \<noteq> q" by auto
  next
    assume "r \<noteq> q"
    then have "compare_cols r \<noteq> compare_cols q" using row_eqI [of r q] reg assms(7) by blast
    with upd have "DUpd r \<in> set ?ds" by simp
    with update_for_None [of ?ds q r] reg assms(7) show "update_for ?ds q \<noteq> None" by auto
  qed
qed

definition delta_result_rows :: "order_row list \<Rightarrow> order_row list \<Rightarrow> order_row list" where
  "delta_result_rows s l =
     (let ds = delta_rows s l in map (updated_row ds) (filter (\<lambda>q. \<not> deletes ds q) l) @ delta_inserts ds)"

text \<open>The statement turns the live rows into exactly the staged ones.\<close>

lemma delta_correct:
  assumes "rows_of rg s" "rows_of rg l" "distinct (map or_order s)" "distinct (map or_order l)"
  shows "mset (delta_result_rows s l) = mset s"
proof -
  let ?ds = "delta_rows s l"
  let ?kept = "filter (\<lambda>q. \<not> deletes ?ds q) l"
  let ?new = "filter (\<lambda>r. \<not> has_order (or_order r) l) s"
  have kept: "?kept = filter (\<lambda>q. has_order (or_order q) s) l"
    by (rule filter_cong) (simp_all add: deletes_rows)
  have staged: "\<exists>r \<in> set s. or_order r = or_order q \<and> updated_row ?ds q = r" if "q \<in> set ?kept" for q
  proof -
    from that kept have q: "q \<in> set l" "has_order (or_order q) s" by auto
    then obtain r where "r \<in> set s" "or_order r = or_order q" by (auto simp: has_order_iff)
    with updated_row_staged(1) [OF assms q(1)] show ?thesis by blast
  qed
  have orders: "map or_order (map (updated_row ?ds) ?kept) = map or_order ?kept"
    using staged by (auto simp: comp_def)
  have sub: "set (map (updated_row ?ds) ?kept) \<subseteq> set s" using staged by auto
  have "distinct (map or_order (map (updated_row ?ds) ?kept))"
    unfolding orders using assms(4) by (rule distinct_map_filter)
  then have "distinct (map (updated_row ?ds) ?kept)" by (metis distinct_map)
  moreover have "distinct ?new" using assms(3) by (simp add: distinct_map)
  moreover have "set (map (updated_row ?ds) ?kept) \<inter> set ?new = {}"
    using staged by (fastforce simp: has_order_iff)
  ultimately have "distinct (delta_result_rows s l)"
    by (simp add: delta_result_rows_def delta_inserts_rows Let_def)
  moreover have "set (delta_result_rows s l) = set s"
  proof
    show "set (delta_result_rows s l) \<subseteq> set s"
      using sub by (auto simp: delta_result_rows_def delta_inserts_rows Let_def)
    show "set s \<subseteq> set (delta_result_rows s l)"
    proof
      fix r assume r: "r \<in> set s"
      show "r \<in> set (delta_result_rows s l)"
      proof (cases "has_order (or_order r) l")
        case True
        then obtain q where q: "q \<in> set l" "or_order r = or_order q" by (auto simp: has_order_iff)
        then have "q \<in> set ?kept" using r unfolding kept by (simp add: has_order_iff) (metis imageI)
        with updated_row_staged(1) [OF assms q(1) r q(2)] show ?thesis
          by (auto simp: delta_result_rows_def Let_def)
      next
        case False
        with r show ?thesis by (simp add: delta_result_rows_def delta_inserts_rows Let_def)
      qed
    qed
  qed
  moreover have "distinct s" using assms(3) by (simp add: distinct_map)
  ultimately show ?thesis by (simp add: set_eq_iff_mset_eq_distinct)
qed

section \<open>The contract\<close>

text \<open>The invariant of the tables: constraints of the schema, and what the copy writes.\<close>

definition db_ok :: "db \<Rightarrow> bool" where
  "db_ok d \<longleftrightarrow>
     (\<forall>rg rows. db_stg d rg = Some rows \<longrightarrow> rows_of rg rows) \<and>
     (\<forall>rg rows. db_part d rg = Some rows \<longrightarrow> rows_of rg rows \<and> distinct (map or_order rows))"

text \<open>\<open>d'\<close> is \<open>d\<close> with the staged rows of \<open>rg\<close>, without duplicates, as the live rows.\<close>

definition publishes :: "int \<Rightarrow> db \<Rightarrow> db \<Rightarrow> bool" where
  "publishes rg d d' \<longleftrightarrow>
     (\<exists>stg live. db_stg d rg = Some stg \<and> is_dedup stg live \<and> db_part d' = (db_part d)(rg \<mapsto> live)) \<and>
     db_stg d' = db_stg d \<and> db_status d' = db_status d \<and> db_log d' = db_log d"

definition reply_lost :: "db_env \<Rightarrow> bool" where
  "reply_lost env \<longleftrightarrow> (\<exists>k e. de_fault env k = LostReply e)"

locale publish_op =
  fixes publish :: "db_env \<Rightarrow> int \<Rightarrow> 'r db_call"
  assumes publish_done: "picks_a_row env \<Longrightarrow> db_ok d \<Longrightarrow> publish env rg d = (Inr r, d') \<Longrightarrow> publishes rg d d'"
    and publish_failed: "picks_a_row env \<Longrightarrow> db_ok d \<Longrightarrow> publish env rg d = (Inl e, d') \<Longrightarrow>
      same_tables d d' \<or> reply_lost env \<and> publishes rg d d'"
begin

lemma all_or_nothing:
  assumes "picks_a_row env" "db_ok d"
  shows "same_tables d (snd (publish env rg d)) \<or> publishes rg d (snd (publish env rg d))"
proof (cases "publish env rg d")
  case (Pair r d')
  with publish_done [OF assms] publish_failed [OF assms] show ?thesis by (cases r) fastforce+
qed

text \<open>Other regions and the staging tables are untouched, and the invariant stays.\<close>

lemma frame:
  assumes "picks_a_row env" "db_ok d"
  shows "q \<noteq> rg \<Longrightarrow> db_part (snd (publish env rg d)) q = db_part d q"
    "db_stg (snd (publish env rg d)) = db_stg d"
    "db_status (snd (publish env rg d)) = db_status d" "db_log (snd (publish env rg d)) = db_log d"
  using all_or_nothing [OF assms, of rg] by (auto simp: same_tables_def publishes_def)

lemma keeps_ok:
  assumes "picks_a_row env" "db_ok d"
  shows "db_ok (snd (publish env rg d))"
  using all_or_nothing [OF assms, of rg]
proof
  assume "same_tables d (snd (publish env rg d))"
  with assms(2) show ?thesis by (simp add: same_tables_def db_ok_def)
next
  assume "publishes rg d (snd (publish env rg d))"
  then obtain stg live where "db_stg d rg = Some stg" "is_dedup stg live"
    "db_part (snd (publish env rg d)) = (db_part d)(rg \<mapsto> live)" "db_stg (snd (publish env rg d)) = db_stg d"
    by (auto simp: publishes_def)
  with assms(2) show ?thesis by (auto simp: db_ok_def rows_of_def is_dedup_def subset_iff)
qed

text \<open>Without an error the new snapshot is live; with every reply delivered, an error means it is not.\<close>

lemma error_means_old:
  assumes "picks_a_row env" "db_ok d" "\<not> reply_lost env" "fst (publish env rg d) = Inl e"
  shows "db_part (snd (publish env rg d)) = db_part d"
  using publish_failed [OF assms(1,2), of rg e "snd (publish env rg d)"] assms(3,4)
  by (auto simp: same_tables_def prod_eq_iff)

end

section \<open>Both operations keep the contract\<close>

lemma mset_dedup:
  assumes "is_dedup stg s" "mset live = mset s"
  shows "is_dedup stg live"
proof -
  have "set live = set s" using assms(2) by (rule mset_eq_setD)
  moreover have "distinct (map or_order live)"
    using assms mset_eq_imp_distinct_iff [of "map or_order live" "map or_order s"] by (simp add: is_dedup_def)
  ultimately show ?thesis using assms(1) by (simp add: is_dedup_def)
qed

lemma dedup_rows_of: "is_dedup stg s \<Longrightarrow> rows_of rg stg \<Longrightarrow> rows_of rg s"
  by (auto simp: is_dedup_def rows_of_def)

lemma picks_dedup: "picks_a_row env \<Longrightarrow> is_dedup rows (distinct_on (de_pick env k) rows)"
  by (rule distinct_on_dedup) (simp add: picks_a_row_def)

lemma apply_sql_publishes:
  assumes "picks_a_row env" "db_ok d" "apply_sql env rg k d = Inr (r, d')"
  shows "publishes rg d d'"
proof -
  obtain stg live where t: "db_stg d rg = Some stg" "db_part d rg = Some live"
    "db_part d' = (db_part d)(rg \<mapsto> delta_result_rows (distinct_on (de_pick env k) stg) live)"
    "db_stg d' = db_stg d" "db_status d' = db_status d" "db_log d' = db_log d"
    using assms(3)
    by (auto simp: apply_sql_def delta_result_rows_def Let_def split: option.splits if_splits)
  let ?s = "distinct_on (de_pick env k) stg"
  have s: "is_dedup stg ?s" using assms(1) by (rule picks_dedup)
  have "mset (delta_result_rows ?s live) = mset ?s"
    using assms(2) t(1,2) s by (intro delta_correct [of rg]) (auto simp: db_ok_def dedup_rows_of is_dedup_def)
  with s have "is_dedup stg (delta_result_rows ?s live)" by (rule mset_dedup)
  with t show ?thesis by (auto simp: publishes_def)
qed

lemma insert_staged_publishes:
  assumes "picks_a_row env" "insert_staged env rg k d = Inr (r, d')" "db_part d rg = Some []"
  shows "publishes rg d d'"
proof -
  from assms(2,3) obtain stg where "db_stg d rg = Some stg"
    "d' = d\<lparr>db_part := (db_part d)(rg \<mapsto> distinct_on (de_pick env k) stg)\<rparr>"
    by (auto simp: insert_staged_def Let_def split: option.splits if_splits)
  with picks_dedup [OF assms(1), of stg k] show ?thesis by (auto simp: publishes_def)
qed

lemma publishes_cong:
  assumes "publishes rg a b" "db_stg a = db_stg d" "db_status a = db_status d" "db_log a = db_log d"
    "\<And>live. (db_part a)(rg \<mapsto> live) = (db_part d)(rg \<mapsto> live)" "same_tables b d'"
  shows "publishes rg d d'"
  using assms by (simp add: publishes_def same_tables_def)

lemma db_ok_same: "same_tables d d' \<Longrightarrow> db_ok d \<Longrightarrow> db_ok d'"
  by (simp add: same_tables_def db_ok_def)

text \<open>The bodies of the two transactions.\<close>

definition delta_body where
  "delta_body env rg =
     db_then (db_wrap ''set work_mem: '' (db_ping env)) (\<lambda>_.
     db_then (db_wrap ''count duplicates: '' (db_stmt env (count_duplicates rg))) (\<lambda>dup.
     db_then (db_wrap (''apply delta for region '' @ show_int rg @ '': '') (db_stmt env (apply_sql env rg)))
       (\<lambda>(i, u, x). db_return \<lparr>dl_inserted = i, dl_updated = u, dl_deleted = x, dl_duplicates = dup\<rparr>)))"

definition resync_body where
  "resync_body env rg =
     db_then (db_ping env) (\<lambda>_.
     db_then (db_wrap (''truncate '' @ Schema @ ''.'' @ partition_name rg @ '': '') (db_stmt env (truncate_part rg))) (\<lambda>_.
     db_wrap (''resync insert '' @ Schema @ ''.'' @ partition_name rg @ '': '') (db_stmt env (insert_staged env rg))))"

lemma delta_body_publishes:
  assumes "picks_a_row env" "db_ok d" "delta_body env rg d = (Inr r, d')"
  shows "publishes rg d d'"
proof -
  from assms(3) obtain dup d1 x where
    1: "db_stmt env (count_duplicates rg) (db_tick env d) = (Inr dup, d1)" and
    2: "db_stmt env (apply_sql env rg) d1 = (Inr x, d')"
    by (auto simp: delta_body_def db_then_Inr db_ping_Inr db_return_def split: prod.splits)
  have d1: "d1 = db_tick env (db_tick env d)"
    using 1 by (auto simp: db_stmt_Inr count_duplicates_def split: option.splits)
  have "publishes rg (db_tick env d1) d'"
    using 2 assms(1,2) by (intro apply_sql_publishes) (auto simp: db_stmt_Inr d1 db_ok_def)
  then show ?thesis by (rule publishes_cong) (simp_all add: d1)
qed

lemma resync_body_publishes:
  assumes "picks_a_row env" "resync_body env rg d = (Inr r, d')"
  shows "publishes rg d d'"
proof -
  from assms(2) obtain d1 u where
    1: "db_stmt env (truncate_part rg) (db_tick env d) = (Inr u, d1)" and
    2: "db_stmt env (insert_staged env rg) d1 = (Inr r, d')"
    by (auto simp: resync_body_def db_then_Inr db_ping_Inr)
  have d1: "db_part d1 = (db_part d)(rg \<mapsto> [])" "db_stg d1 = db_stg d" "db_status d1 = db_status d"
    "db_log d1 = db_log d"
    using 1 by (auto simp: db_stmt_Inr truncate_part_def split: option.splits)
  have "publishes rg (db_tick env d1) d'"
    using 2 assms(1) by (intro insert_staged_publishes) (auto simp: db_stmt_Inr d1)
  then show ?thesis by (rule publishes_cong) (simp_all add: d1)
qed

text \<open>A transaction after a call that has no effect, with such a body, keeps the contract.\<close>

lemma tx_publishes:
  assumes body: "\<forall>d r d'. db_ok d \<longrightarrow> body d = (Inr r, d') \<longrightarrow> publishes rg d d'"
    and ok: "db_ok d" and pre: "same_tables d d0"
  shows "db_tx env cp body d0 = (Inr r, d') \<Longrightarrow> publishes rg d d'"
    "db_tx env cp body d0 = (Inl e, d') \<Longrightarrow> same_tables d d' \<or> reply_lost env \<and> publishes rg d d'"
proof -
  have pub: "publishes rg d (db_tick env d2)" if "db_ping env d0 = (Inr (), d1)" "body d1 = (Inr a, d2)" for a d1 d2
  proof -
    have "same_tables d d1" using that(1) pre same_tables_trans [OF pre] by (auto simp: db_ping_Inr)
    with ok body that(2) have "publishes rg d1 d2" by (simp add: db_ok_same)
    then show ?thesis by (rule publishes_cong) (use \<open>same_tables d d1\<close> in \<open>simp_all add: same_tables_def\<close>)
  qed
  show "db_tx env cp body d0 = (Inr r, d') \<Longrightarrow> publishes rg d d'"
    by (auto elim!: db_tx_Inr intro: pub)
  assume "db_tx env cp body d0 = (Inl e, d')"
  from db_tx_Inl [OF this] show "same_tables d d' \<or> reply_lost env \<and> publishes rg d d'"
    using same_tables_trans [OF pre] by (auto simp: reply_lost_def intro: pub)
qed

lemma apply_delta_body:
  "apply_delta env rg =
     db_then (db_wrap ''acquire apply conn: '' (db_ping env)) (\<lambda>_. db_tx env (Some ''commit delta: '') (delta_body env rg))"
  by (simp add: apply_delta_def delta_body_def)

lemma resync_region_body:
  "resync_region env rg = db_then (db_ping env) (\<lambda>_. db_tx env None (resync_body env rg))"
  by (simp add: resync_region_def resync_body_def)

interpretation delta_pub: publish_op apply_delta
proof
  fix env d rg r d' e
  assume pk: "picks_a_row env" and ok: "db_ok d"
  have "\<forall>d r d'. db_ok d \<longrightarrow> delta_body env rg d = (Inr r, d') \<longrightarrow> publishes rg d d'"
    using delta_body_publishes [OF pk] by blast
  note tx = tx_publishes [OF this ok]
  show "apply_delta env rg d = (Inr r, d') \<Longrightarrow> publishes rg d d'"
    by (auto simp: apply_delta_body db_then_Inr db_ping_Inr intro: tx(1) [OF db_tick_simps(8)])
  assume "apply_delta env rg d = (Inl e, d')"
  then show "same_tables d d' \<or> reply_lost env \<and> publishes rg d d'"
    unfolding apply_delta_body db_then_Inl
    using db_ping_tables [of d env] by (auto simp: db_ping_Inr db_wrap_Inl dest: tx(2) [OF db_tick_simps(8)])
qed

interpretation resync_pub: publish_op resync_region
proof
  fix env d rg r d' e
  assume pk: "picks_a_row env" and ok: "db_ok d"
  have "\<forall>d r d'. db_ok d \<longrightarrow> resync_body env rg d = (Inr r, d') \<longrightarrow> publishes rg d d'"
    using resync_body_publishes [OF pk] by blast
  note tx = tx_publishes [OF this ok]
  show "resync_region env rg d = (Inr r, d') \<Longrightarrow> publishes rg d d'"
    by (auto simp: resync_region_body db_then_Inr db_ping_Inr intro: tx(1) [OF db_tick_simps(8)])
  assume "resync_region env rg d = (Inl e, d')"
  then show "same_tables d d' \<or> reply_lost env \<and> publishes rg d d'"
    unfolding resync_region_body db_then_Inl
    using db_ping_tables [of d env] by (auto simp: db_ping_Inr dest: tx(2) [OF db_tick_simps(8)])
qed

end
