(* ===== verification/Drift.thy ===== *)
theory Drift
  imports Publish
begin

text \<open>
  What one apply reports, and what the drift guard can and cannot see.
\<close>

section \<open>The counts of an apply\<close>

definition order_ids :: "order_row list \<Rightarrow> int set" where
  "order_ids rows = or_order ` set rows"

lemma length_card: "distinct (map f xs) \<Longrightarrow> length xs = card (f ` set xs)"
  using distinct_card [of "map f xs"] by simp

lemma filter_orders:
  "or_order ` set (filter (\<lambda>r. P (or_order r)) rows) = {i \<in> order_ids rows. P i}"
  by (auto simp: order_ids_def)

lemma filter_order_count:
  "distinct (map or_order rows) \<Longrightarrow> length (filter (\<lambda>r. P (or_order r)) rows) = card {i \<in> order_ids rows. P i}"
  by (subst filter_orders [symmetric]) (rule length_card, simp add: distinct_map_filter)

lemma has_order_ids: "has_order i rows \<longleftrightarrow> i \<in> order_ids rows"
  by (simp add: has_order_iff order_ids_def)

lemma apply_sql_counts:
  assumes "picks_a_row env" "db_ok d" "db_stg d rg = Some stg" "db_part d rg = Some live"
    "apply_sql env rg k d = Inr ((i, u, x), d')"
  defines "s \<equiv> distinct_on (de_pick env k) stg"
  shows "i = int (card (order_ids stg - order_ids live))"
    "x = int (card (order_ids live - order_ids stg))"
    "u = int (card {q \<in> set live. \<exists>r \<in> set s. or_order r = or_order q \<and> r \<noteq> q})"
proof -
  have s: "is_dedup stg s" unfolding s_def using assms(1) by (rule picks_dedup)
  then have ids: "order_ids s = order_ids stg" by (simp add: is_dedup_def order_ids_def)
  have ok: "rows_of rg s" "rows_of rg live" "distinct (map or_order s)" "distinct (map or_order live)"
    using assms(2-4) s by (auto simp: db_ok_def dedup_rows_of is_dedup_def)
  let ?ds = "delta_rows s live"
  let ?kept = "filter (\<lambda>q. \<not> deletes ?ds q) live"
  from assms(3-5) have r: "i = int (length (delta_inserts ?ds))"
    "u = int (length (filter (\<lambda>q. update_for ?ds q \<noteq> None) ?kept))"
    "x = int (length live) - int (length ?kept)"
    by (auto simp: apply_sql_def Let_def s_def split: if_splits)
  have kept: "?kept = filter (\<lambda>q. has_order (or_order q) s) live"
    by (rule filter_cong) (simp_all add: deletes_rows)
  have "length (delta_inserts ?ds) = card {i \<in> order_ids s. \<not> has_order i live}"
    unfolding delta_inserts_rows by (rule filter_order_count [OF ok(3)])
  also have "{i \<in> order_ids s. \<not> has_order i live} = order_ids stg - order_ids live"
    by (auto simp: ids has_order_ids)
  finally show "i = int (card (order_ids stg - order_ids live))" using r(1) by simp
  have "length live = length ?kept + length (filter (\<lambda>q. \<not> has_order (or_order q) s) live)"
    unfolding kept by (simp add: sum_length_filter_compl)
  moreover have "length (filter (\<lambda>q. \<not> has_order (or_order q) s) live) = card {i \<in> order_ids live. \<not> has_order i s}"
    by (rule filter_order_count [OF ok(4)])
  moreover have "{i \<in> order_ids live. \<not> has_order i s} = order_ids live - order_ids stg"
    by (auto simp: ids has_order_ids)
  ultimately show "x = int (card (order_ids live - order_ids stg))" using r(3) by simp
  have "set (filter (\<lambda>q. update_for ?ds q \<noteq> None) ?kept) =
      {q \<in> set live. \<exists>r \<in> set s. or_order r = or_order q \<and> r \<noteq> q}" (is "?L = ?R")
  proof (rule set_eqI)
    fix q
    show "q \<in> ?L \<longleftrightarrow> q \<in> ?R"
    proof (cases "q \<in> set live \<and> has_order (or_order q) s")
      case True
      then obtain r where r: "r \<in> set s" "or_order r = or_order q" by (auto simp: has_order_iff)
      have "q \<in> ?L \<longleftrightarrow> r \<noteq> q"
        using updated_row_staged(2) [OF ok _ r, of] True by (simp add: kept)
      moreover have "(\<exists>r' \<in> set s. or_order r' = or_order q \<and> r' \<noteq> q) \<longleftrightarrow> r \<noteq> q"
        using map_of_key_distinct [OF ok(3) _ r(1)] r by metis
      ultimately show ?thesis using True by simp
    next
      case False
      then have "q \<notin> set live \<or> (\<forall>r \<in> set s. or_order r \<noteq> or_order q)"
        by (auto simp: has_order_iff) (metis imageI)
      with False show ?thesis unfolding kept by auto
    qed
  qed
  moreover have "distinct (filter (\<lambda>q. update_for ?ds q \<noteq> None) ?kept)"
    using ok(4) by (simp add: distinct_map)
  ultimately show "u = int (card {q \<in> set live. \<exists>r \<in> set s. or_order r = or_order q \<and> r \<noteq> q})"
    using r(2) distinct_card by metis
qed

section \<open>The drift guard\<close>

lemma checksum_mset: "mset a = mset b \<Longrightarrow> checksum_of env a = checksum_of env b"
  by (simp add: checksum_of_def flip: sum_mset_sum_list size_mset)

lemma checksum_rows: "checksum_of env a = checksum_of env b \<Longrightarrow> length a = length b"
  by (simp add: checksum_of_def)

text \<open>Rows that agree on the five hashed columns are the same to the guard.\<close>

lemma checksum_blind:
  "map (checksum_text env) a = map (checksum_text env) b \<Longrightarrow> checksum_of env a = checksum_of env b"
proof -
  assume eq: "map (checksum_text env) a = map (checksum_text env) b"
  have "(\<Sum>r\<leftarrow>a. de_hash env (checksum_text env r)) = (\<Sum>r\<leftarrow>b. de_hash env (checksum_text env r))"
    using arg_cong [OF eq, of "\<lambda>ts. sum_list (map (de_hash env) ts)"] by (simp add: comp_def)
  with map_eq_imp_length_eq [OF eq] show ?thesis by (simp add: checksum_of_def)
qed

lemma verify_region_Inr:
  assumes "verify_region env rg d = (Inr (live, staged), d')"
  obtains rows stg k where "db_part d rg = Some rows" "db_stg d rg = Some stg" "same_tables d d'"
    "live = checksum_of env rows" "staged = checksum_of env (distinct_on (de_pick env k) stg)"
proof -
  from assms obtain d1 d2 where
    1: "db_exec env (checksum_query env (\<lambda>k d. db_part d rg)) d = (Inr live, d1)" and
    2: "db_exec env (checksum_query env (\<lambda>k d. map_option (distinct_on (de_pick env k)) (db_stg d rg))) d1 = (Inr staged, d2)"
    and "d' = d2"
    by (auto simp: verify_region_def db_then_Inr db_return_def)
  from 1 obtain rows where r: "db_part d rg = Some rows" "live = checksum_of env rows" "d1 = db_tick env d"
    by (auto simp: db_exec_def checksum_query_def Let_def split: db_fault.splits option.splits)
  from 2 r(3) obtain stg where s: "db_stg d rg = Some stg"
    "staged = checksum_of env (distinct_on (de_pick env (db_ops d1)) stg)" "d2 = db_tick env d1"
    by (auto simp: db_exec_def checksum_query_def Let_def split: db_fault.splits option.splits)
  from r s \<open>d' = d2\<close> show ?thesis by (intro that [of rows stg "db_ops d1"]) (simp_all add: same_tables_def)
qed

lemma checksum_query_tables: "same_tables a (snd (db_exec env (checksum_query env frm) a))"
  by (auto simp: db_exec_def checksum_query_def Let_def split: db_fault.splits option.splits)

lemma db_then_tables:
  assumes "\<And>a. same_tables a (snd (m a))" "\<And>x a. same_tables a (snd (f x a))"
  shows "same_tables d (snd (db_then m f d))"
  using assms(1) [of d] same_tables_trans [OF assms(1) [of d] assms(2)]
  by (cases "m d") (auto simp: db_then_def split: sum.splits)

lemma verify_region_tables: "same_tables d (snd (verify_region env rg d))"
  unfolding verify_region_def
  by (intro db_then_tables) (simp_all add: checksum_query_tables db_return_def)

text \<open>
  Right after a publication the guard agrees, whatever the hash is, when no order
  was staged twice.
\<close>

lemma verify_after_publish:
  assumes "picks_a_row env" "publishes rg d0 d" "db_stg d0 rg = Some stg" "distinct (map or_order stg)"
    "verify_region env rg d = (Inr (live, staged), d')"
  shows "live = staged"
proof -
  from assms(2,3) obtain rows where rows: "db_part d rg = Some rows" "is_dedup stg rows" "db_stg d rg = Some stg"
    by (auto simp: publishes_def)
  from assms(5) obtain k where v: "live = checksum_of env rows" "staged = checksum_of env (distinct_on (de_pick env k) stg)"
    using rows(1,3) by (auto elim!: verify_region_Inr)
  have "mset (distinct_on (de_pick env k) stg) = mset stg"
    using assms(1,4) by (intro distinct_on_distinct) (auto simp: picks_a_row_def)
  moreover have "mset rows = mset stg"
  proof -
    have "set rows = set stg"
    proof
      show "set rows \<subseteq> set stg" using rows(2) by (simp add: is_dedup_def)
      show "set stg \<subseteq> set rows"
      proof
        fix r assume r: "r \<in> set stg"
        then obtain r' where "r' \<in> set rows" "or_order r' = or_order r"
          using rows(2) by (metis imageE imageI is_dedup_def)
        with rows(2) map_of_key_distinct [OF assms(4), of r' r] r show "r \<in> set rows"
          by (auto simp: is_dedup_def)
      qed
    qed
    with rows(2) assms(4) show ?thesis
      by (simp add: is_dedup_def distinct_map set_eq_iff_mset_eq_distinct)
  qed
  ultimately show ?thesis unfolding v by (intro checksum_mset) simp
qed

end
