(* ===== verification/Status_Store.thy ===== *)
theory Status_Store
  imports Db
begin

text \<open>
  internal/store/status.go: the row the consumer polls, the operational log, its
  retention, and the statistics of the partitioned parents. (\<open>RegionRowCount\<close> is in
  \<open>Orders_Store\<close>.)
\<close>

section \<open>Values a column can hold\<close>

text \<open>\<open>timestamptz\<close> has a resolution of one microsecond.\<close>

definition micros :: "time \<Rightarrow> time" where
  "micros t = t div 1000 * 1000"

lemma micros_idem [simp]: "micros (micros t) = micros t"
  by (simp add: micros_def)

lemma micros_mono: "t \<le> u \<Longrightarrow> micros t \<le> micros u"
  by (simp add: micros_def zdiv_mono1)

lemma micros_le: "micros t \<le> t"
  using minus_mod_eq_div_mult [of t 1000] by (simp add: micros_def flip: minus_mod_eq_div_mult)

text \<open>A \<open>text\<close> column holds no zero byte.\<close>

definition text_ok :: "string \<Rightarrow> bool" where
  "text_ok s \<longleftrightarrow> list_all (\<lambda>c. (of_char c :: nat) \<noteq> 0) s"

section \<open>MarkRefreshed and MarkFailed\<close>

record region_status =
  rs_region :: int
  rs_refreshed_at :: time
  rs_st_expires :: time
  rs_st_last_modified :: time
  rs_st_pages :: int
  rs_order_count :: int

definition refreshed_row :: "region_status \<Rightarrow> status_row \<Rightarrow> status_row" where
  "refreshed_row st r = r\<lparr>st_refreshed_at := Some (micros (rs_refreshed_at st)),
     st_expires := Some (micros (rs_st_expires st)), st_last_modified := Some (micros (rs_st_last_modified st)),
     st_pages := Some (rs_st_pages st), st_order_count := Some (rs_order_count st),
     st_consecutive_errors := 0, st_last_error := None, st_last_error_at := None\<rparr>"

text \<open>\<open>UPDATE ... WHERE region_id = $1\<close>: no row, no change and no error.\<close>

definition update_status :: "int \<Rightarrow> (status_row \<Rightarrow> status_row) \<Rightarrow> db \<Rightarrow> db" where
  "update_status rg f d =
     (case db_status d rg of None \<Rightarrow> d | Some r \<Rightarrow> d\<lparr>db_status := (db_status d)(rg \<mapsto> f r)\<rparr>)"

definition refreshed_stmt :: "region_status \<Rightarrow> nat \<Rightarrow> db \<Rightarrow> gerr + (unit \<times> db)" where
  "refreshed_stmt st k d =
     (if int4_ok (rs_st_pages st)
      then Inr ((), update_status (rs_region st) (refreshed_row st) d)
      else Inl (EText ''value out of range for int4''))"

definition mark_refreshed :: "db_env \<Rightarrow> region_status \<Rightarrow> unit db_call" where
  "mark_refreshed env st =
     db_wrap (''mark refreshed '' @ show_int (rs_region st) @ '': '') (db_exec env (refreshed_stmt st))"

definition failed_row :: "string \<Rightarrow> time \<Rightarrow> status_row \<Rightarrow> status_row" where
  "failed_row cause at' r = r\<lparr>st_consecutive_errors := st_consecutive_errors r + 1,
     st_last_error := Some cause, st_last_error_at := Some (micros at')\<rparr>"

definition failed_stmt :: "int \<Rightarrow> string \<Rightarrow> time \<Rightarrow> nat \<Rightarrow> db \<Rightarrow> gerr + (unit \<times> db)" where
  "failed_stmt rg cause at' k d =
     (case db_status d rg of
        None \<Rightarrow> Inr ((), d)
      | Some r \<Rightarrow>
          if \<not> text_ok cause then Inl (EText ''invalid byte sequence for encoding'')
          else if \<not> int4_ok (st_consecutive_errors r + 1) then Inl (EText ''integer out of range'')
          else Inr ((), update_status rg (failed_row cause at') d))"

definition mark_failed :: "db_env \<Rightarrow> int \<Rightarrow> string \<Rightarrow> time \<Rightarrow> unit db_call" where
  "mark_failed env rg cause at' =
     db_wrap (''mark failed '' @ show_int rg @ '': '') (db_exec env (failed_stmt rg cause at'))"

section \<open>LogIngest\<close>

text \<open>The struct \<open>IngestLogEntry\<close>.\<close>

record log_entry =
  le_region :: int
  le_started :: time
  le_pages :: int
  le_tokens :: int
  le_remaining :: int
  le_fetch_ms :: int
  le_copy_ms :: int
  le_verify_ms :: int
  le_apply_ms :: int
  le_inserted :: int
  le_updated :: int
  le_deleted :: int
  le_duplicates :: int
  le_outcome :: string
  le_deferred_reason :: string

definition log_entry_init :: "int \<Rightarrow> time \<Rightarrow> log_entry" where
  "log_entry_init rg started = \<lparr>le_region = rg, le_started = started, le_pages = 0, le_tokens = 0,
     le_remaining = 0, le_fetch_ms = 0, le_copy_ms = 0, le_verify_ms = 0, le_apply_ms = 0, le_inserted = 0,
     le_updated = 0, le_deleted = 0, le_duplicates = 0, le_outcome = [], le_deferred_reason = []\<rparr>"

definition log_row :: "log_entry \<Rightarrow> ingest_row" where
  "log_row e = \<lparr>il_region = le_region e, il_started = micros (le_started e), il_pages = le_pages e,
     il_tokens = le_tokens e, il_remaining = le_remaining e, il_fetch_ms = le_fetch_ms e,
     il_copy_ms = le_copy_ms e, il_apply_ms = le_apply_ms e, il_verify_ms = le_verify_ms e,
     il_inserted = le_inserted e, il_updated = le_updated e, il_deleted = le_deleted e,
     il_duplicates = le_duplicates e, il_outcome = le_outcome e,
     il_deferred_reason = (if le_deferred_reason e = [] then None else Some (le_deferred_reason e))\<rparr>"

definition log_row_ok :: "log_entry \<Rightarrow> bool" where
  "log_row_ok e \<longleftrightarrow>
     list_all int4_ok [le_pages e, le_tokens e, le_remaining e, le_fetch_ms e, le_copy_ms e, le_apply_ms e,
       le_verify_ms e, le_inserted e, le_updated e, le_deleted e, le_duplicates e] \<and>
     text_ok (le_outcome e) \<and> text_ok (le_deferred_reason e)"

definition log_stmt :: "log_entry \<Rightarrow> nat \<Rightarrow> db \<Rightarrow> gerr + (unit \<times> db)" where
  "log_stmt e k d =
     (if log_row_ok e then Inr ((), d\<lparr>db_log := db_log d @ [log_row e]\<rparr>)
      else Inl (EText ''value out of range for int4''))"

definition log_ingest :: "db_env \<Rightarrow> log_entry \<Rightarrow> unit db_call" where
  "log_ingest env e = db_wrap (''log ingest '' @ show_int (le_region e) @ '': '') (db_exec env (log_stmt e))"

section \<open>PruneIngestLog and AnalyzeParents\<close>

text \<open>\<open>server_now\<close> is \<open>now()\<close>, the database server's clock.\<close>

definition prune_stmt :: "time \<Rightarrow> int \<Rightarrow> nat \<Rightarrow> db \<Rightarrow> gerr + (int \<times> db)" where
  "prune_stmt server_now days k d =
     (if \<not> int4_ok days then Inl (EText ''value out of range for int4'')
      else
        let old = (\<lambda>r. il_started r < server_now - days * day_dur)
        in Inr (int (length (filter old (db_log d))), d\<lparr>db_log := filter (\<lambda>r. \<not> old r) (db_log d)\<rparr>))"

definition prune_ingest_log :: "db_env \<Rightarrow> time \<Rightarrow> int \<Rightarrow> int db_call" where
  "prune_ingest_log env server_now days = db_wrap ''prune ingest_log: '' (db_exec env (prune_stmt server_now days))"

definition analyze_parents :: "db_env \<Rightarrow> unit db_call" where
  "analyze_parents env =
     db_then (db_wrap ''analyze orders: '' (db_ping env)) (\<lambda>_. db_wrap ''analyze history: '' (db_ping env))"

section \<open>Facts\<close>

text \<open>Tables a call of this file does not touch.\<close>

definition same_orders :: "db \<Rightarrow> db \<Rightarrow> bool" where
  "same_orders d d' \<longleftrightarrow> db_stg d' = db_stg d \<and> db_part d' = db_part d"

lemma same_orders_refl [simp]: "same_orders d d"
  by (simp add: same_orders_def)

lemma same_orders_trans: "same_orders a b \<Longrightarrow> same_orders b c \<Longrightarrow> same_orders a c"
  by (simp add: same_orders_def)

lemma same_tables_orders: "same_tables d d' \<Longrightarrow> same_orders d d'"
  by (simp add: same_tables_def same_orders_def)

lemma update_status_simps [simp]:
  "db_stg (update_status rg f d) = db_stg d" "db_part (update_status rg f d) = db_part d"
  "db_log (update_status rg f d) = db_log d"
  "db_status (update_status rg f d) q = (if q = rg then map_option f (db_status d rg) else db_status d q)"
  by (simp_all add: update_status_def split: option.split)

lemma db_exec_cases:
  obtains e where "db_exec env f d = (Inl e, db_tick env d)"
  | a d2 where "f (db_ops d) (db_tick env d) = Inr (a, d2)" "db_exec env f d = (Inr a, d2)"
  | a d2 e where "f (db_ops d) (db_tick env d) = Inr (a, d2)" "de_fault env (db_ops d) = LostReply e"
      "db_exec env f d = (Inl e, d2)"
  by (cases "de_fault env (db_ops d)"; cases "f (db_ops d) (db_tick env d)") (auto simp: db_exec_def)

lemma mark_failed_effect:
  "same_orders d (snd (mark_failed env rg c t d)) \<and> db_log (snd (mark_failed env rg c t d)) = db_log d \<and>
   (db_status (snd (mark_failed env rg c t d)) = db_status d \<or>
    db_status (snd (mark_failed env rg c t d)) = db_status (update_status rg (failed_row c t) d))"
  unfolding mark_failed_def db_wrap_snd
  by (cases rule: db_exec_cases [of env "failed_stmt rg c t" d])
    (auto simp: same_orders_def failed_stmt_def fun_eq_iff split: option.splits if_splits)

lemma log_ingest_effect:
  "same_orders d (snd (log_ingest env e d)) \<and> db_status (snd (log_ingest env e d)) = db_status d \<and>
   (db_log (snd (log_ingest env e d)) = db_log d \<or> db_log (snd (log_ingest env e d)) = db_log d @ [log_row e])"
  unfolding log_ingest_def db_wrap_snd
  by (cases rule: db_exec_cases [of env "log_stmt e" d])
    (auto simp: same_orders_def log_stmt_def split: if_splits)

lemma mark_refreshed_effect:
  "same_orders d (snd (mark_refreshed env st d)) \<and> db_log (snd (mark_refreshed env st d)) = db_log d \<and>
   (db_status (snd (mark_refreshed env st d)) = db_status d \<or>
    db_status (snd (mark_refreshed env st d)) = db_status (update_status (rs_region st) (refreshed_row st) d))"
  unfolding mark_refreshed_def db_wrap_snd
  by (cases rule: db_exec_cases [of env "refreshed_stmt st" d])
    (auto simp: same_orders_def refreshed_stmt_def fun_eq_iff split: if_splits)

lemma mark_refreshed_ok:
  assumes "mark_refreshed env st d = (Inr u, d')"
  shows "db_status d' = db_status (update_status (rs_region st) (refreshed_row st) d)"
  using assms
  by (auto simp: mark_refreshed_def db_exec_def refreshed_stmt_def Let_def fun_eq_iff
      split: db_fault.splits if_splits)

text \<open>Retention keeps exactly the rows inside the window, in their order.\<close>

lemma prune_effect:
  assumes "prune_ingest_log env now days d = (Inr n, d')"
  shows "db_log d' = filter (\<lambda>r. now - days * day_dur \<le> il_started r) (db_log d)"
    "n = int (length (db_log d)) - int (length (db_log d'))" "same_orders d d'"
  using assms sum_length_filter_compl [of "\<lambda>r. il_started r < now - days * day_dur" "db_log d"]
  by (auto simp: prune_ingest_log_def db_exec_def prune_stmt_def Let_def same_orders_def not_less
      split: db_fault.splits if_splits)

end
