(* ===== verification/Cycle.thy ===== *)
theory Cycle
  imports Drift Status_Store Sweep_Live
begin

text \<open>
  internal/ingest/cycle.go: one region's refresh. \<open>Cycle.Run\<close> is the concurrent
  part, a run of the sweep's transition system to a final state, followed by
  \<open>cycle_finish\<close>, the sequential rest: classify a failure, or count, apply,
  verify, repair, mark and log.

  The drift guard is a field of the cycle, as in the code; \<open>new_cycle\<close> sets it to
  \<open>verify_region\<close>. Logging to the terminal has no effect on the state and is left
  out.
\<close>

section \<open>Data\<close>

definition OutcomeOK :: string where "OutcomeOK = ''ok''"
definition OutcomeResync :: string where "OutcomeResync = ''resync''"
definition OutcomeDeferred :: string where "OutcomeDeferred = ''deferred''"
definition OutcomeInconsistent :: string where "OutcomeInconsistent = ''inconsistent''"
definition OutcomeFailed :: string where "OutcomeFailed = ''failed''"

lemmas outcome_defs = OutcomeOK_def OutcomeResync_def OutcomeDeferred_def OutcomeInconsistent_def
  OutcomeFailed_def

record timings =
  tm_fetch_ms :: int
  tm_copy_ms :: int
  tm_apply_ms :: int
  tm_verify_ms :: int
  tm_total_ms :: int

record cycle_result =
  rt_region :: region
  rt_outcome :: string
  rt_meta :: sweep_meta
  rt_delta :: delta_result
  rt_staged :: int
  rt_timings :: timings
  rt_err :: "gerr option"

record cycle =
  cy_fetcher :: fetcher
  cy_codec :: codec
  cy_conc :: int
  cy_env :: db_env
  cy_texts :: err_texts
  cy_verify :: "int \<Rightarrow> (checksum \<times> checksum) db_call"

definition new_cycle :: "fetcher \<Rightarrow> codec \<Rightarrow> int \<Rightarrow> db_env \<Rightarrow> err_texts \<Rightarrow> cycle" where
  "new_cycle f cd conc env t = \<lparr>cy_fetcher = f, cy_codec = cd, cy_conc = conc, cy_env = env, cy_texts = t,
     cy_verify = verify_region env\<rparr>"

text \<open>\<open>d.Milliseconds()\<close> of a duration that is not negative.\<close>

definition millis :: "dur \<Rightarrow> int" where
  "millis d = d div millisecond"

definition result_init :: "region \<Rightarrow> cycle_result" where
  "result_init r = \<lparr>rt_region = r, rt_outcome = OutcomeFailed, rt_meta = meta_init, rt_delta = delta_zero,
     rt_staged = 0,
     rt_timings = \<lparr>tm_fetch_ms = 0, tm_copy_ms = 0, tm_apply_ms = 0, tm_verify_ms = 0, tm_total_ms = 0\<rparr>,
     rt_err = None\<rparr>"

section \<open>Failures\<close>

text \<open>The outcome of a failure and the deferral's reason.\<close>

definition classify :: "gerr \<Rightarrow> string \<times> string" where
  "classify err =
     (case as_deferred err of
        Some reason \<Rightarrow> (OutcomeDeferred, reason)
      | None \<Rightarrow> if err_is err EInconsistent then (OutcomeInconsistent, []) else (OutcomeFailed, []))"

text \<open>\<open>recordFailure\<close>; a failure to write the mark or the log is only logged.\<close>

definition record_failure ::
  "cycle \<Rightarrow> ctx \<Rightarrow> region \<Rightarrow> gerr \<Rightarrow> cycle_result \<Rightarrow> log_entry \<Rightarrow> db \<Rightarrow> cycle_result \<times> db" where
  "record_failure cy c r err res entry d =
     (if ctx_done c (db_now d) then (res\<lparr>rt_outcome := OutcomeFailed\<rparr>, d)
      else
        let (outcome, reason) = classify err;
            entry1 = entry\<lparr>le_outcome := outcome,
              le_deferred_reason := (if outcome = OutcomeDeferred then reason else le_deferred_reason entry)\<rparr>;
            d1 = (if outcome \<noteq> OutcomeDeferred
                  then snd (mark_failed (cy_env cy) (rg_id r) (err_msg (cy_texts cy) err) (db_now d) d)
                  else d)
        in (res\<lparr>rt_outcome := outcome, rt_err := Some err\<rparr>, snd (log_ingest (cy_env cy) entry1 d1)))"

text \<open>The value of \<open>Cycle.Run\<close>, with the tables and the clock after it.\<close>

type_synonym cycle_end = "(cycle_result \<times> gerr option) \<times> db"

definition cycle_fail :: "cycle \<Rightarrow> ctx \<Rightarrow> region \<Rightarrow> cycle_result \<Rightarrow> log_entry \<Rightarrow> gerr \<Rightarrow> db \<Rightarrow> cycle_end" where
  "cycle_fail cy c r res entry cause d =
     (let (res1, d1) = record_failure cy c r cause res entry d
      in ((res1\<lparr>rt_outcome := OutcomeFailed\<rparr>, Some (EWrap (''region '' @ rg_name r @ '': '') cause [])), d1))"

section \<open>After the sweep\<close>

text \<open>Mark and log: from \<open>entry.Outcome = res.Outcome\<close> to the end of \<open>Run\<close>.\<close>

definition cycle_mark ::
  "cycle \<Rightarrow> region \<Rightarrow> time \<Rightarrow> cycle_result \<Rightarrow> log_entry \<Rightarrow> db \<Rightarrow> cycle_end" where
  "cycle_mark cy r started res entry d =
     (let dl = rt_delta res; m = rt_meta res;
          entry1 = entry\<lparr>le_outcome := rt_outcome res, le_inserted := dl_inserted dl, le_updated := dl_updated dl,
            le_deleted := dl_deleted dl, le_duplicates := dl_duplicates dl\<rparr>;
          st = \<lparr>rs_region = rg_id r, rs_refreshed_at = db_now d, rs_st_expires = sm_expires m,
            rs_st_last_modified = sm_last_modified m, rs_st_pages = sm_pages m, rs_order_count = rt_staged res\<rparr>
      in case mark_refreshed (cy_env cy) st d of
           (Inl e, d1) \<Rightarrow> ((res, Some e), d1)
         | (Inr u, d1) \<Rightarrow>
             (let d2 = snd (log_ingest (cy_env cy) entry1 d1);
                  tm = (rt_timings res)\<lparr>tm_total_ms := millis (db_now d2 - started)\<rparr>
              in ((res\<lparr>rt_timings := tm\<rparr>, None), d2)))"

text \<open>The drift guard, and the rebuild when it disagrees.\<close>

definition cycle_verify ::
  "cycle \<Rightarrow> ctx \<Rightarrow> region \<Rightarrow> time \<Rightarrow> cycle_result \<Rightarrow> log_entry \<Rightarrow> db \<Rightarrow> cycle_end" where
  "cycle_verify cy c r started res entry d =
     (let (answer, d1) = cy_verify cy (rg_id r) d;
          ms = millis (db_now d1 - db_now d);
          res1 = res\<lparr>rt_timings := (rt_timings res)\<lparr>tm_verify_ms := ms\<rparr>\<rparr>;
          entry1 = entry\<lparr>le_verify_ms := ms\<rparr>
      in case answer of
           Inl e \<Rightarrow> cycle_fail cy c r res1 entry1 e d1
         | Inr (live, staged) \<Rightarrow>
             if ck_rows live \<noteq> ck_rows staged \<or> ck_hash live \<noteq> ck_hash staged
             then (case resync_region (cy_env cy) (rg_id r) d1 of
                     (Inl e, d2) \<Rightarrow> cycle_fail cy c r res1 entry1 e d2
                   | (Inr n, d2) \<Rightarrow> cycle_mark cy r started (res1\<lparr>rt_outcome := OutcomeResync\<rparr>) entry1 d2)
             else cycle_mark cy r started res1 entry1 d1)"

text \<open>The first load of a region, or the delta against what it holds.\<close>

definition cycle_apply ::
  "cycle \<Rightarrow> ctx \<Rightarrow> region \<Rightarrow> time \<Rightarrow> cycle_result \<Rightarrow> log_entry \<Rightarrow> db \<Rightarrow> cycle_end" where
  "cycle_apply cy c r started res entry d =
     (case region_row_count (cy_env cy) (rg_id r) d of
        (Inl e, d1) \<Rightarrow> cycle_fail cy c r res entry e d1
      | (Inr held, d1) \<Rightarrow>
          (case (if held = 0
                 then db_then (resync_region (cy_env cy) (rg_id r))
                   (\<lambda>n. db_return (delta_zero\<lparr>dl_inserted := n\<rparr>, OutcomeResync)) d1
                 else db_then (apply_delta (cy_env cy) (rg_id r)) (\<lambda>dl. db_return (dl, OutcomeOK)) d1) of
             (Inl e, d2) \<Rightarrow> cycle_fail cy c r res entry e d2
           | (Inr (dl, outcome), d2) \<Rightarrow>
               (let ms = millis (db_now d2 - db_now d1)
                in cycle_verify cy c r started
                     (res\<lparr>rt_delta := dl, rt_outcome := outcome,
                          rt_timings := (rt_timings res)\<lparr>tm_apply_ms := ms\<rparr>\<rparr>)
                     (entry\<lparr>le_apply_ms := ms\<rparr>) d2)))"

text \<open>The error of the sweep, once it has returned.\<close>

definition sweep_error :: "pipe \<Rightarrow> gerr option" where
  "sweep_error s = (case pp_main s of MDone e \<Rightarrow> e | _ \<Rightarrow> None)"

text \<open>The result and the log entry as they stand when sweep and copy have returned.\<close>

definition swept_result :: "region \<Rightarrow> pipe \<Rightarrow> int \<Rightarrow> cycle_result" where
  "swept_result r s staged =
     (result_init r)\<lparr>rt_meta := pp_meta s, rt_staged := staged,
        rt_timings := (rt_timings (result_init r))\<lparr>tm_fetch_ms := millis (sm_duration (pp_meta s)),
          tm_copy_ms := millis (pp_copied_at s - pp_start s)\<rparr>\<rparr>"

definition swept_entry :: "region \<Rightarrow> pipe \<Rightarrow> log_entry" where
  "swept_entry r s =
     (let (rem, known) = budget_remaining (ec_budget (nt_esi (pp_net s)))
      in (log_entry_init (rg_id r) (pp_start s))\<lparr>le_pages := sm_pages (pp_meta s),
           le_tokens := sm_tokens (pp_meta s), le_fetch_ms := millis (sm_duration (pp_meta s)),
           le_copy_ms := millis (pp_copied_at s - pp_start s), le_remaining := (if known then rem else 0)\<rparr>)"

definition cycle_finish :: "cycle \<Rightarrow> ctx \<Rightarrow> region \<Rightarrow> pipe \<Rightarrow> db \<Rightarrow> cycle_end" where
  "cycle_finish cy c r s d =
     (let ((staged, copy_err), d1) =
            copy_orders (cy_env cy) (rg_id r) (pp_copy s) (pp_recv s) (d\<lparr>db_now := nt_now (pp_net s)\<rparr>);
          res = swept_result r s staged;
          entry = swept_entry r s
      in case join2 (sweep_error s) copy_err of
           Some err \<Rightarrow>
             (let total = millis (db_now d1 - pp_start s);
                  res1 = res\<lparr>rt_timings := (rt_timings res)\<lparr>tm_total_ms := total\<rparr>\<rparr>;
                  (res2, d2) = record_failure cy c r err res1 entry d1
              in ((res2, None), d2))
         | None \<Rightarrow>
             if staged \<noteq> sm_order_count (pp_meta s)
             then (let err = EText (''staged '' @ show_int staged @ '' rows but fetched '' @
                               show_int (sm_order_count (pp_meta s)) @ '' orders'');
                       (res2, d2) = record_failure cy c r err res entry d1
                   in ((res2, Some err), d2))
             else cycle_apply cy c r (pp_start s) res entry d1)"

section \<open>Run\<close>

definition cycle_pcfg :: "cycle \<Rightarrow> ctx \<Rightarrow> region \<Rightarrow> db \<Rightarrow> pcfg" where
  "cycle_pcfg cy c r d = \<lparr>pc_codec = cy_codec cy, pc_fetcher = cy_fetcher cy, pc_ctx = c, pc_region = rg_id r,
     pc_conc = cy_conc cy, pc_staged = (db_stg d (rg_id r) \<noteq> None),
     pc_castable = (\<lambda>o'. cast_row (cy_env cy) (rg_id r) o' \<noteq> None)\<rparr>"

text \<open>
  One cycle along the interleaving \<open>es\<close>; \<open>None\<close> when \<open>es\<close> is not an
  interleaving of the program, stops before both the sweep and the copy have
  returned, or panics.
\<close>

definition cycle_run :: "cycle \<Rightarrow> ctx \<Rightarrow> region \<Rightarrow> ev list \<Rightarrow> net \<Rightarrow> db \<Rightarrow> (cycle_end \<times> net) option" where
  "cycle_run cy c r es n d =
     (case pipe_run (cycle_pcfg cy c r d) es (pipe_init n) of
        None \<Rightarrow> None
      | Some s \<Rightarrow>
          if pipe_final s
          then (let (ans, d') = cycle_finish cy c r s d
                in Some ((ans, d'), (pp_net s)\<lparr>nt_now := db_now d'\<rparr>))
          else None)"

end
