(* ===== verification/Cycle_Effects.thy ===== *)
theory Cycle_Effects
  imports Cycle
begin

text \<open>
  What each part of a cycle does to the tables, bottom up, ending with the whole of
  \<open>cycle_finish\<close>: the live rows of a region are only ever replaced by a complete
  staged snapshot, and on a success they are one.
\<close>

section \<open>Two relations between the tables before and after\<close>

text \<open>The live rows of \<open>rg\<close> are the staged snapshot, nothing else is touched.\<close>

definition goes_live :: "int \<Rightarrow> db \<Rightarrow> db \<Rightarrow> bool" where
  "goes_live rg d d' \<longleftrightarrow> db_stg d' = db_stg d \<and>
     (\<exists>stg live. db_stg d rg = Some stg \<and> is_dedup stg live \<and> db_part d' = (db_part d)(rg \<mapsto> live))"

definition old_or_new :: "int \<Rightarrow> db \<Rightarrow> db \<Rightarrow> bool" where
  "old_or_new rg d d' \<longleftrightarrow> same_orders d d' \<or> goes_live rg d d'"

lemma same_orders_old: "same_orders d d' \<Longrightarrow> old_or_new rg d d'"
  by (simp add: old_or_new_def)

lemma old_or_new_trans: "old_or_new rg a b \<Longrightarrow> old_or_new rg b c \<Longrightarrow> old_or_new rg a c"
  by (auto simp: old_or_new_def same_orders_def goes_live_def)

lemma goes_live_then: "goes_live rg a b \<Longrightarrow> old_or_new rg b c \<Longrightarrow> goes_live rg a c"
  by (auto simp: old_or_new_def same_orders_def goes_live_def)

lemma then_goes_live: "old_or_new rg a b \<Longrightarrow> goes_live rg b c \<Longrightarrow> goes_live rg a c"
  by (auto simp: old_or_new_def same_orders_def goes_live_def)

lemma goes_live_old: "goes_live rg a b \<Longrightarrow> old_or_new rg a b"
  by (simp add: old_or_new_def)

lemma publishes_live: "publishes rg d d' \<Longrightarrow> goes_live rg d d'"
  by (auto simp: publishes_def goes_live_def)

lemma old_or_new_ok:
  assumes "old_or_new rg d d'" "db_ok d"
  shows "db_ok d'"
  using assms(1) unfolding old_or_new_def
proof
  assume "same_orders d d'"
  with assms(2) show ?thesis by (simp add: same_orders_def db_ok_def)
next
  assume "goes_live rg d d'"
  then obtain stg live where "db_stg d rg = Some stg" "is_dedup stg live"
    "db_part d' = (db_part d)(rg \<mapsto> live)" "db_stg d' = db_stg d"
    by (auto simp: goes_live_def)
  with assms(2) show ?thesis by (auto simp: db_ok_def dedup_rows_of) (simp add: is_dedup_def)
qed

section \<open>Failures\<close>

lemma record_failure_orders: "same_orders d (snd (record_failure cy c r err res entry d))"
proof -
  have m: "same_orders d (snd (mark_failed (cy_env cy) rg x t d))" for rg x t
    using mark_failed_effect [of d "cy_env cy" rg x t] by simp
  have l: "same_orders a (snd (log_ingest (cy_env cy) e a))" for a e
    using log_ingest_effect [of a "cy_env cy" e] by simp
  obtain oc reason where cl: "classify err = (oc, reason)" by force
  show ?thesis
  proof (cases "ctx_done c (db_now d)")
    case True
    then show ?thesis by (simp add: record_failure_def)
  next
    case False
    then show ?thesis using l same_orders_trans [OF m l]
      by (cases "oc = OutcomeDeferred") (simp_all add: record_failure_def cl)
  qed
qed

lemma cycle_fail_orders: "same_orders d (snd (cycle_fail cy c r res entry e d))"
  using record_failure_orders [of d cy c r e res entry]
  by (simp add: cycle_fail_def Let_def case_prod_beta)

lemma cycle_fail_result:
  "snd (fst (cycle_fail cy c r res entry e d)) = Some (EWrap (''region '' @ rg_name r @ '': '') e [])"
  by (simp add: cycle_fail_def Let_def case_prod_beta)

section \<open>Mark, verify, apply\<close>

lemma cycle_mark_orders: "same_orders d (snd (cycle_mark cy r t0 res entry d))"
proof -
  have m: "same_orders d (snd (mark_refreshed (cy_env cy) st d))" for st
    using mark_refreshed_effect [of d "cy_env cy" st] by simp
  have l: "same_orders a (snd (log_ingest (cy_env cy) e a))" for a e
    using log_ingest_effect [of a "cy_env cy" e] by simp
  show ?thesis
    unfolding cycle_mark_def Let_def
    using m same_orders_trans [OF m l] by (auto split: prod.split sum.split) (metis snd_conv)+
qed

definition verify_reads :: "cycle \<Rightarrow> bool" where
  "verify_reads cy \<longleftrightarrow> (\<forall>rg d. same_tables d (snd (cy_verify cy rg d)))"

lemma new_cycle_reads: "verify_reads (new_cycle f cd conc env t)"
  by (simp add: verify_reads_def new_cycle_def verify_region_tables)

lemma resync_old_or_new:
  assumes "picks_a_row env" "db_ok d"
  shows "old_or_new rg d (snd (resync_region env rg d))"
    "resync_region env rg d = (Inr n, d') \<Longrightarrow> goes_live rg d d'"
  using resync_pub.all_or_nothing [OF assms, of rg] resync_pub.publish_done [OF assms]
  by (auto simp: old_or_new_def same_tables_orders publishes_live)

lemma delta_old_or_new:
  assumes "picks_a_row env" "db_ok d"
  shows "old_or_new rg d (snd (apply_delta env rg d))"
    "apply_delta env rg d = (Inr n, d') \<Longrightarrow> goes_live rg d d'"
  using delta_pub.all_or_nothing [OF assms, of rg] delta_pub.publish_done [OF assms]
  by (auto simp: old_or_new_def same_tables_orders publishes_live)

lemma cycle_verify_orders:
  assumes "picks_a_row (cy_env cy)" "verify_reads cy" "db_ok d"
  shows "old_or_new (rg_id r) d (snd (cycle_verify cy c r t0 res entry d))"
proof -
  obtain v d1 where v: "cy_verify cy (rg_id r) d = (v, d1)" by force
  with assms(2) have "same_tables d d1" unfolding verify_reads_def by (metis snd_conv)
  then have d1: "old_or_new (rg_id r) d d1" "db_ok d1"
    using assms(3) by (simp_all add: same_orders_old same_tables_orders db_ok_same)
  show ?thesis
  proof (cases v)
    case (Inl e)
    show ?thesis
      by (simp add: cycle_verify_def v Inl Let_def) (rule old_or_new_trans [OF d1(1) same_orders_old [OF cycle_fail_orders]])
  next
    case (Inr a)
    obtain live staged where a: "a = (live, staged)" by force
    obtain x d2 where x: "resync_region (cy_env cy) (rg_id r) d1 = (x, d2)" by force
    have d2: "old_or_new (rg_id r) d d2"
      using old_or_new_trans [OF d1(1) resync_old_or_new(1) [OF assms(1) d1(2), of "rg_id r"]] x by simp
    note ends = same_orders_old [OF cycle_mark_orders] same_orders_old [OF cycle_fail_orders]
    show ?thesis
      using old_or_new_trans [OF d1(1) ends(1)] old_or_new_trans [OF d2 ends(1)] old_or_new_trans [OF d2 ends(2)]
      by (simp add: cycle_verify_def v Inr a x Let_def split: sum.split)
  qed
qed

lemma row_count_orders: "same_orders d (snd (region_row_count env rg d))"
proof -
  have "same_orders d (snd (db_exec env (count_live rg) d))"
    by (cases rule: db_exec_cases [of env "count_live rg" d])
      (auto simp: same_orders_def count_live_def split: option.splits)
  then show ?thesis by (simp add: region_row_count_def)
qed

text \<open>The publication step of a cycle, whichever way it goes.\<close>

definition publish_step :: "cycle \<Rightarrow> int \<Rightarrow> int \<Rightarrow> (delta_result \<times> string) db_call" where
  "publish_step cy rg held =
     (if held = 0
      then db_then (resync_region (cy_env cy) rg) (\<lambda>n. db_return (delta_zero\<lparr>dl_inserted := n\<rparr>, OutcomeResync))
      else db_then (apply_delta (cy_env cy) rg) (\<lambda>dl. db_return (dl, OutcomeOK)))"

lemma publish_step_live:
  assumes "picks_a_row (cy_env cy)" "db_ok d"
  shows "old_or_new rg d (snd (publish_step cy rg held d))"
    "publish_step cy rg held d = (Inr x, d') \<Longrightarrow> goes_live rg d d'"
  using resync_old_or_new [OF assms, of rg] delta_old_or_new [OF assms, of rg]
  by (auto simp: publish_step_def db_then_def db_return_def split: prod.splits sum.splits if_splits)

lemma cycle_apply_step:
  "cycle_apply cy c r t0 res entry d =
     (case region_row_count (cy_env cy) (rg_id r) d of
        (Inl e, d1) \<Rightarrow> cycle_fail cy c r res entry e d1
      | (Inr held, d1) \<Rightarrow>
          (case publish_step cy (rg_id r) held d1 of
             (Inl e, d2) \<Rightarrow> cycle_fail cy c r res entry e d2
           | (Inr (dl, outcome), d2) \<Rightarrow>
               (let ms = millis (db_now d2 - db_now d1)
                in cycle_verify cy c r t0
                     (res\<lparr>rt_delta := dl, rt_outcome := outcome,
                          rt_timings := (rt_timings res)\<lparr>tm_apply_ms := ms\<rparr>\<rparr>)
                     (entry\<lparr>le_apply_ms := ms\<rparr>) d2)))"
  unfolding cycle_apply_def publish_step_def
  by (rule prod.case_cong [OF refl], rule sum.case_cong [OF refl], rule refl)
    (simp split: if_split)

section \<open>Status and log\<close>

definition same_meta :: "db \<Rightarrow> db \<Rightarrow> bool" where
  "same_meta d d' \<longleftrightarrow> db_status d' = db_status d \<and> db_log d' = db_log d"

lemma same_meta_refl [simp]: "same_meta d d"
  by (simp add: same_meta_def)

lemma same_meta_trans: "same_meta a b \<Longrightarrow> same_meta b c \<Longrightarrow> same_meta a c"
  by (simp add: same_meta_def)

text \<open>
  No region was marked refreshed; at most the one of this cycle had one more error counted
  and described, every other column of its row, \<open>refreshed_at\<close> among them, unchanged.
\<close>

definition status_kept :: "int \<Rightarrow> db \<Rightarrow> db \<Rightarrow> bool" where
  "status_kept rg d d' \<longleftrightarrow>
     (\<forall>q. db_status d' q = db_status d q \<or>
        q = rg \<and> (\<exists>c t. db_status d' q =
          map_option (\<lambda>r. r\<lparr>st_consecutive_errors := st_consecutive_errors r + 1, st_last_error := Some c,
            st_last_error_at := Some t\<rparr>) (db_status d q)))"

lemma status_kept_meta: "same_meta a b \<Longrightarrow> status_kept rg b c \<Longrightarrow> status_kept rg a c"
  by (simp add: same_meta_def status_kept_def)

lemma status_kept_same: "db_status d' = db_status d \<Longrightarrow> status_kept rg d d'"
  by (simp add: status_kept_def)

lemma mark_failed_kept: "status_kept rg d (snd (mark_failed env rg c t d))"
proof (cases "db_status (snd (mark_failed env rg c t d)) = db_status d")
  case True
  then show ?thesis by (simp add: status_kept_def)
next
  case False
  then have "db_status (snd (mark_failed env rg c t d)) = db_status (update_status rg (failed_row c t) d)"
    using mark_failed_effect [of d env rg c t] by simp
  then have "db_status (snd (mark_failed env rg c t d)) q =
      (if q = rg then map_option (failed_row c t) (db_status d q) else db_status d q)" for q by simp
  then show ?thesis by (simp add: status_kept_def failed_row_def [abs_def]) blast
qed

lemma log_ingest_kept: "status_kept rg a b \<Longrightarrow> status_kept rg a (snd (log_ingest env e b))"
  using log_ingest_effect [of b env e] by (simp add: status_kept_def)

lemma record_failure_kept: "status_kept (rg_id r) d (snd (record_failure cy c r err res entry d))"
proof (cases "ctx_done c (db_now d)")
  case True
  then show ?thesis by (simp add: record_failure_def status_kept_same)
next
  case False
  obtain oc reason where "classify err = (oc, reason)" by force
  with False show ?thesis
    by (cases "oc = OutcomeDeferred")
      (simp_all add: record_failure_def log_ingest_kept mark_failed_kept status_kept_same)
qed

lemma cycle_fail_kept: "status_kept (rg_id r) d (snd (cycle_fail cy c r res entry e d))"
  using record_failure_kept [of r d cy c e res entry]
  by (simp add: cycle_fail_def Let_def case_prod_beta)

lemma row_count_meta: "same_meta d (snd (region_row_count env rg d))"
proof -
  have "same_meta d (snd (db_exec env (count_live rg) d))"
    by (cases rule: db_exec_cases [of env "count_live rg" d])
      (auto simp: same_meta_def count_live_def split: option.splits)
  then show ?thesis by (simp add: region_row_count_def)
qed

lemma publish_step_meta:
  assumes "picks_a_row (cy_env cy)" "db_ok d"
  shows "same_meta d (snd (publish_step cy rg held d))"
  using resync_pub.frame(3,4) [OF assms, of rg] delta_pub.frame(3,4) [OF assms, of rg]
  by (auto simp: publish_step_def db_then_def db_return_def same_meta_def split: prod.splits sum.splits)

section \<open>The end of a cycle\<close>

text \<open>
  The two ways a cycle can end after its copy: it failed, and then no region was
  marked refreshed; or its snapshot is live and \<open>cycle_mark\<close> came last.
\<close>

definition cycle_failed :: "region \<Rightarrow> db \<Rightarrow> cycle_end \<Rightarrow> bool" where
  "cycle_failed r d e \<longleftrightarrow>
     snd (fst e) \<noteq> None \<and> old_or_new (rg_id r) d (snd e) \<and> status_kept (rg_id r) d (snd e)"

definition cycle_marked :: "cycle \<Rightarrow> region \<Rightarrow> time \<Rightarrow> cycle_result \<Rightarrow> db \<Rightarrow> cycle_end \<Rightarrow> bool" where
  "cycle_marked cy r t0 res d e \<longleftrightarrow>
     (\<exists>res2 entry2 d2. e = cycle_mark cy r t0 res2 entry2 d2 \<and> goes_live (rg_id r) d d2 \<and> same_meta d d2 \<and>
        rt_meta res2 = rt_meta res \<and> rt_staged res2 = rt_staged res \<and> rt_err res2 = rt_err res \<and>
        rt_outcome res2 \<in> {OutcomeOK, OutcomeResync})"

lemma cycle_fail_failed:
  assumes "old_or_new (rg_id r) d d1" "same_meta d d1"
  shows "cycle_failed r d (cycle_fail cy c r res entry e d1)"
  unfolding cycle_failed_def
proof (intro conjI)
  show "snd (fst (cycle_fail cy c r res entry e d1)) \<noteq> None" by (simp add: cycle_fail_result)
  show "old_or_new (rg_id r) d (snd (cycle_fail cy c r res entry e d1))"
    by (rule old_or_new_trans [OF assms(1) same_orders_old [OF cycle_fail_orders]])
  show "status_kept (rg_id r) d (snd (cycle_fail cy c r res entry e d1))"
    by (rule status_kept_meta [OF assms(2) cycle_fail_kept])
qed

lemma cycle_verify_end:
  assumes "picks_a_row (cy_env cy)" "verify_reads cy" "db_ok d1" "goes_live (rg_id r) d d1" "same_meta d d1"
    "rt_outcome res \<in> {OutcomeOK, OutcomeResync}"
  shows "cycle_failed r d (cycle_verify cy c r t0 res entry d1) \<or>
    cycle_marked cy r t0 res d (cycle_verify cy c r t0 res entry d1)"
proof -
  obtain v d2 where v: "cy_verify cy (rg_id r) d1 = (v, d2)" by force
  with assms(2) have "same_tables d1 d2" unfolding verify_reads_def by (metis snd_conv)
  then have d2: "old_or_new (rg_id r) d1 d2" "db_ok d2" "same_meta d1 d2"
    using assms(3) by (simp_all add: same_orders_old same_tables_orders db_ok_same same_tables_def same_meta_def)
  have live: "goes_live (rg_id r) d d2" by (rule goes_live_then [OF assms(4) d2(1)])
  have meta: "same_meta d d2" by (rule same_meta_trans [OF assms(5) d2(3)])
  show ?thesis
  proof (cases v)
    case (Inl e)
    show ?thesis
      by (simp add: cycle_verify_def v Inl Let_def cycle_fail_failed goes_live_old [OF live] meta)
  next
    case (Inr a)
    obtain l st where a: "a = (l, st)" by force
    show ?thesis
    proof (cases "ck_rows l \<noteq> ck_rows st \<or> ck_hash l \<noteq> ck_hash st")
      case drift: True
      obtain x d3 where x: "resync_region (cy_env cy) (rg_id r) d2 = (x, d3)" by force
      have "old_or_new (rg_id r) d2 d3"
        using resync_old_or_new(1) [OF assms(1) d2(2), of "rg_id r"] x by simp
      then have live3: "goes_live (rg_id r) d d3" by (rule goes_live_then [OF live])
      have "same_meta d2 d3"
        using resync_pub.frame(3,4) [OF assms(1) d2(2), of "rg_id r"] x by (simp add: same_meta_def)
      then have meta3: "same_meta d d3" by (rule same_meta_trans [OF meta])
      show ?thesis
      proof (cases x)
        case (Inl e)
        show ?thesis using drift
          by (simp add: cycle_verify_def v Inr a x Inl Let_def cycle_fail_failed goes_live_old [OF live3] meta3)
      next
        case x': (Inr n)
        have "cycle_marked cy r t0 res d
          (cycle_mark cy r t0 (res\<lparr>rt_timings := tm, rt_outcome := OutcomeResync\<rparr>) e2 d3)" for tm e2
          unfolding cycle_marked_def using live3 meta3
          by (intro exI [of _ "res\<lparr>rt_timings := tm, rt_outcome := OutcomeResync\<rparr>"] exI [of _ e2] exI [of _ d3]) simp
        then show ?thesis using drift by (simp add: cycle_verify_def v Inr a x x' Let_def)
      qed
    next
      case agree: False
      have "cycle_marked cy r t0 res d (cycle_mark cy r t0 (res\<lparr>rt_timings := tm\<rparr>) e2 d2)" for tm e2
        unfolding cycle_marked_def using live meta assms(6)
        by (intro exI [of _ "res\<lparr>rt_timings := tm\<rparr>"] exI [of _ e2] exI [of _ d2]) simp
      then show ?thesis using agree by (simp add: cycle_verify_def v Inr a Let_def)
    qed
  qed
qed

lemma cycle_marked_weaken:
  "cycle_marked cy r t0 res' d e \<Longrightarrow> rt_meta res' = rt_meta res \<Longrightarrow> rt_staged res' = rt_staged res \<Longrightarrow>
   rt_err res' = rt_err res \<Longrightarrow> cycle_marked cy r t0 res d e"
  by (simp add: cycle_marked_def)

lemma cycle_apply_end:
  assumes "picks_a_row (cy_env cy)" "verify_reads cy" "db_ok d"
  shows "cycle_failed r d (cycle_apply cy c r t0 res entry d) \<or>
    cycle_marked cy r t0 res d (cycle_apply cy c r t0 res entry d)"
proof -
  obtain x d1 where x: "region_row_count (cy_env cy) (rg_id r) d = (x, d1)" by force
  have d1: "same_orders d d1" "same_meta d d1"
    using row_count_orders [of d "cy_env cy" "rg_id r"] row_count_meta [of d "cy_env cy" "rg_id r"] x by simp_all
  then have ok1: "db_ok d1" using assms(3) old_or_new_ok same_orders_old by blast
  show ?thesis
  proof (cases x)
    case (Inl e)
    show ?thesis
      by (simp add: cycle_apply_step x Inl cycle_fail_failed same_orders_old [OF d1(1)] d1(2))
  next
    case (Inr held)
    obtain y d2 where y: "publish_step cy (rg_id r) held d1 = (y, d2)" by force
    have old2: "old_or_new (rg_id r) d d2"
      using old_or_new_trans [OF same_orders_old [OF d1(1)] publish_step_live(1) [OF assms(1) ok1]] y
      by (metis snd_conv)
    have meta2: "same_meta d d2"
      using same_meta_trans [OF d1(2) publish_step_meta [OF assms(1) ok1]] y by (metis snd_conv)
    show ?thesis
    proof (cases y)
      case (Inl e)
      show ?thesis
        by (simp add: cycle_apply_step x Inr y Inl cycle_fail_failed old2 meta2)
    next
      case y': (Inr a)
      obtain dl oc where a: "a = (dl, oc)" by force
      have oc: "oc \<in> {OutcomeOK, OutcomeResync}"
        using y y' a by (auto simp: publish_step_def db_then_def db_return_def split: prod.splits sum.splits if_splits)
      have live: "goes_live (rg_id r) d d2"
        using then_goes_live [OF same_orders_old [OF d1(1)] publish_step_live(2) [OF assms(1) ok1]] y y' by blast
      have ok2: "db_ok d2" using old_or_new_ok [OF old2 assms(3)] .
      let ?ms = "millis (db_now d2 - db_now d1)"
      let ?res = "res\<lparr>rt_delta := dl, rt_outcome := oc, rt_timings := (rt_timings res)\<lparr>tm_apply_ms := ?ms\<rparr>\<rparr>"
      have "rt_outcome ?res \<in> {OutcomeOK, OutcomeResync}" using oc by simp
      note ends = cycle_verify_end [OF assms(1,2) ok2 live meta2 this, of c t0 "entry\<lparr>le_apply_ms := ?ms\<rparr>"]
      have eq: "cycle_apply cy c r t0 res entry d = cycle_verify cy c r t0 ?res (entry\<lparr>le_apply_ms := ?ms\<rparr>) d2"
        by (simp add: cycle_apply_step x Inr y y' a Let_def)
      from ends show ?thesis unfolding eq by (rule disj_forward) (assumption, erule cycle_marked_weaken, simp_all)
    qed
  qed
qed

end
