(* ===== verification/Cycle_Correct.thy ===== *)
theory Cycle_Correct
  imports Cycle_Effects Sweep_Props
begin

text \<open>
  The whole cycle: what a run of the sweep, the copy and the sequential rest leave
  behind, for every interleaving, every answer of the upstream and every failure of
  the database.
\<close>

section \<open>The copy\<close>

lemma cast_rows_castable:
  assumes "list_all (\<lambda>o'. cast_row env rg o' \<noteq> None) os"
  shows "cast_rows env (map (Pair rg) os) = map (\<lambda>o'. the (cast_row env rg o')) os"
  using assms by (induction os) (auto simp: cast_rows_def List.map_filter_simps)

lemma cast_rows_region: "rows_of rg (cast_rows env (map (Pair rg) os))"
  by (induction os)
    (auto simp: cast_rows_def rows_of_def List.map_filter_simps cast_row_def split: option.splits)

lemma cast_rows_set:
  "set (cast_rows env (map (Pair rg) os)) = {row. \<exists>o' \<in> set os. cast_row env rg o' = Some row}"
  by (induction os) (auto simp: cast_rows_def List.map_filter_simps split: option.splits)

lemma set_staging_simps [simp]:
  "db_part (set_staging rg rows d) = db_part d" "db_status (set_staging rg rows d) = db_status d"
  "db_log (set_staging rg rows d) = db_log d" "db_now (set_staging rg rows d) = db_now d"
  "db_stg d rg = Some old \<Longrightarrow> db_stg (set_staging rg rows d) = (db_stg d)(rg \<mapsto> rows)"
  by (simp_all add: set_staging_def split: option.split)

lemma set_staging_ok: "db_ok d \<Longrightarrow> rows_of rg rows \<Longrightarrow> db_ok (set_staging rg rows d)"
  by (auto simp: db_ok_def set_staging_def split: option.splits)

lemma copy_orders_effect:
  assumes "copy_orders env rg c batches d = ((n, e), d')"
  shows "db_part d' = db_part d" "db_status d' = db_status d" "db_log d' = db_log d" "db_now d' = db_now d"
    "db_ok d \<Longrightarrow> db_ok d'"
  using assms
  by (auto simp: copy_orders_def copy_order_rows Let_def cast_rows_region set_staging_ok rows_of_def [of _ "[]"]
      split: copy_phase.splits copy_fault.splits if_splits)

lemma copy_orders_done:
  assumes "copy_orders env rg c batches d = ((n, None), d')" "c \<noteq> CRunning"
  shows "c = CDone" "n = int (length (cast_rows env (map (Pair rg) (concat batches))))"
    "d' = set_staging rg (cast_rows env (map (Pair rg) (concat batches))) d"
  using assms by (auto simp: copy_orders_def copy_order_rows Let_def split: copy_phase.splits copy_fault.splits)

section \<open>The three ends of a cycle\<close>

definition copied_db :: "cycle \<Rightarrow> region \<Rightarrow> pipe \<Rightarrow> db \<Rightarrow> db" where
  "copied_db cy r s d = snd (copy_orders (cy_env cy) (rg_id r) (pp_copy s) (pp_recv s) (d\<lparr>db_now := nt_now (pp_net s)\<rparr>))"

definition copied :: "cycle \<Rightarrow> region \<Rightarrow> pipe \<Rightarrow> db \<Rightarrow> int \<times> gerr option" where
  "copied cy r s d = fst (copy_orders (cy_env cy) (rg_id r) (pp_copy s) (pp_recv s) (d\<lparr>db_now := nt_now (pp_net s)\<rparr>))"

lemma copied_db_effect:
  "db_part (copied_db cy r s d) = db_part d" "db_status (copied_db cy r s d) = db_status d"
  "db_log (copied_db cy r s d) = db_log d" "db_now (copied_db cy r s d) = nt_now (pp_net s)"
  "db_ok d \<Longrightarrow> db_ok (copied_db cy r s d)"
proof -
  obtain n e d1 where
    c: "copy_orders (cy_env cy) (rg_id r) (pp_copy s) (pp_recv s) (d\<lparr>db_now := nt_now (pp_net s)\<rparr>) = ((n, e), d1)"
    by (metis surj_pair)
  note eff = copy_orders_effect [OF c]
  from eff(1-4) show "db_part (copied_db cy r s d) = db_part d" "db_status (copied_db cy r s d) = db_status d"
    "db_log (copied_db cy r s d) = db_log d" "db_now (copied_db cy r s d) = nt_now (pp_net s)"
    by (simp_all add: copied_db_def c)
  assume "db_ok d"
  then have "db_ok (d\<lparr>db_now := nt_now (pp_net s)\<rparr>)" by (simp add: db_ok_def)
  with eff(5) show "db_ok (copied_db cy r s d)" by (simp add: copied_db_def c)
qed

text \<open>Sweep, copy or the row count failed: recorded by \<open>recordFailure\<close>, nothing published.\<close>

definition cycle_refused :: "cycle \<Rightarrow> ctx \<Rightarrow> region \<Rightarrow> pipe \<Rightarrow> db \<Rightarrow> cycle_end \<Rightarrow> bool" where
  "cycle_refused cy c r s d e \<longleftrightarrow>
     (\<exists>err res entry. record_failure cy c r err res entry (copied_db cy r s d) = (fst (fst e), snd e) \<and>
        rt_err res = None \<and>
        (join2 (sweep_error s) (snd (copied cy r s d)) = Some err \<and> snd (fst e) = None \<or>
         sweep_error s = None \<and> snd (copied cy r s d) = None \<and>
         fst (copied cy r s d) \<noteq> sm_order_count (pp_meta s) \<and> snd (fst e) = Some err))"

lemma cycle_finish_end:
  assumes "picks_a_row (cy_env cy)" "verify_reads cy" "db_ok d"
  obtains
    (refused) "cycle_refused cy c r s d (cycle_finish cy c r s d)"
  | (failed) "sweep_error s = None" "snd (copied cy r s d) = None" "cycle_failed r (copied_db cy r s d) (cycle_finish cy c r s d)"
  | (marked) res where "sweep_error s = None" "snd (copied cy r s d) = None"
      "fst (copied cy r s d) = sm_order_count (pp_meta s)"
      "cycle_marked cy r (pp_start s) res (copied_db cy r s d) (cycle_finish cy c r s d)"
      "rt_meta res = pp_meta s" "rt_staged res = fst (copied cy r s d)" "rt_err res = None"
proof -
  obtain staged copy_err d1 where cp:
    "copy_orders (cy_env cy) (rg_id r) (pp_copy s) (pp_recv s) (d\<lparr>db_now := nt_now (pp_net s)\<rparr>) = ((staged, copy_err), d1)"
    by (metis surj_pair)
  then have cp': "copied cy r s d = (staged, copy_err)" "copied_db cy r s d = d1"
    by (simp_all add: copied_def copied_db_def)
  note unf = cycle_finish_def cp Let_def split_beta fst_conv snd_conv
  have res0: "rt_meta (swept_result r s staged) = pp_meta s" "rt_staged (swept_result r s staged) = staged"
    "rt_err (swept_result r s staged) = None"
    by (simp_all add: swept_result_def result_init_def)
  show thesis
  proof (cases "join2 (sweep_error s) copy_err")
    case (Some err)
    have "cycle_refused cy c r s d (cycle_finish cy c r s d)"
      unfolding cycle_refused_def
      by (rule exI [of _ err]) (auto simp: unf Some cp' res0)
    then show thesis by (rule refused)
  next
    case None
    then have none: "sweep_error s = None" "copy_err = None" by simp_all
    show thesis
    proof (cases "staged = sm_order_count (pp_meta s)")
      case False
      have "cycle_refused cy c r s d (cycle_finish cy c r s d)"
        unfolding cycle_refused_def using False
        by (auto simp: unf None none cp' res0)
      then show thesis by (rule refused)
    next
      case True
      have ok1: "db_ok d1" using copied_db_effect(5) [OF assms(3)] cp'(2) by metis
      let ?res = "swept_result r s staged" and ?entry = "swept_entry r s"
      have e: "cycle_finish cy c r s d = cycle_apply cy c r (pp_start s) ?res ?entry d1"
        by (simp add: unf None True)
      from cycle_apply_end [OF assms(1,2) ok1, of r c "pp_start s" ?res ?entry]
      show thesis
      proof
        assume "cycle_failed r d1 (cycle_apply cy c r (pp_start s) ?res ?entry d1)"
        then show thesis using none by (intro failed) (simp_all add: cp' e)
      next
        assume "cycle_marked cy r (pp_start s) ?res d1 (cycle_apply cy c r (pp_start s) ?res ?entry d1)"
        then show thesis using none True res0 by (intro marked [of ?res]) (simp_all add: cp' e)
      qed
    qed
  qed
qed

end
