(* ===== verification/Cycle_Snapshot.thy ===== *)
theory Cycle_Snapshot
  imports Cycle_Correct
begin

text \<open>
  From the three ends of a cycle (Cycle_Correct) to what its callers rely on: a cycle
  that reports success went all the way, and any cycle leaves the live rows as they
  were or replaces its region's by one complete, consistent snapshot.
\<close>

section \<open>From the cases of a cycle to its properties\<close>

lemma cycle_runE:
  assumes "cycle_run cy c r es n d = Some (e, n')"
  obtains s where "pipe_run (cycle_pcfg cy c r d) es (pipe_init n) = Some s" "pipe_final s"
    "e = cycle_finish cy c r s d"
  using assms by (auto simp: cycle_run_def Let_def split: option.splits if_splits prod.splits)

lemma record_failure_outcome:
  "rt_outcome (fst (record_failure cy c r err res entry d)) \<in> {OutcomeDeferred, OutcomeInconsistent, OutcomeFailed}"
  by (auto simp: record_failure_def classify_def Let_def split: option.splits if_splits)

lemma outcomes_distinct [simp]:
  "OutcomeOK \<noteq> OutcomeDeferred" "OutcomeOK \<noteq> OutcomeInconsistent" "OutcomeOK \<noteq> OutcomeFailed"
  "OutcomeResync \<noteq> OutcomeDeferred" "OutcomeResync \<noteq> OutcomeInconsistent" "OutcomeResync \<noteq> OutcomeFailed"
  "OutcomeFailed \<noteq> OutcomeDeferred" "OutcomeInconsistent \<noteq> OutcomeDeferred"
  "OutcomeFailed \<noteq> OutcomeInconsistent" "OutcomeOK \<noteq> OutcomeResync"
  by (simp_all add: outcome_defs)

lemma refused_outcome:
  "cycle_refused cy c r s d e \<Longrightarrow> rt_outcome (fst (fst e)) \<notin> {OutcomeOK, OutcomeResync}"
  using record_failure_outcome outcomes_distinct unfolding cycle_refused_def
  by (metis fst_conv insertE singletonD)

lemma refused_tables:
  assumes "cycle_refused cy c r s d e"
  shows "db_part (snd e) = db_part d" "status_kept (rg_id r) d (snd e)"
proof -
  from assms obtain err res entry where
    e: "record_failure cy c r err res entry (copied_db cy r s d) = (fst (fst e), snd e)"
    by (auto simp: cycle_refused_def)
  from record_failure_orders [of "copied_db cy r s d" cy c r err res entry] e
  show "db_part (snd e) = db_part d" by (simp add: same_orders_def copied_db_effect)
  from record_failure_kept [of r "copied_db cy r s d" cy c err res entry] e
  show "status_kept (rg_id r) d (snd e)" by (simp add: status_kept_def copied_db_effect)
qed

lemma cycle_mark_end:
  assumes "cycle_mark cy r t0 res entry d = ((res', err), d')"
  shows "rt_outcome res' = rt_outcome res" "rt_meta res' = rt_meta res" "rt_staged res' = rt_staged res"
    "rt_err res' = rt_err res" "same_orders d d'"
    "err = None \<Longrightarrow> db_status d' = db_status (update_status (rg_id r) (refreshed_row
       \<lparr>rs_region = rg_id r, rs_refreshed_at = db_now d, rs_st_expires = sm_expires (rt_meta res),
        rs_st_last_modified = sm_last_modified (rt_meta res), rs_st_pages = sm_pages (rt_meta res),
        rs_order_count = rt_staged res\<rparr>) d)"
proof -
  let ?st = "\<lparr>rs_region = rg_id r, rs_refreshed_at = db_now d, rs_st_expires = sm_expires (rt_meta res),
        rs_st_last_modified = sm_last_modified (rt_meta res), rs_st_pages = sm_pages (rt_meta res),
        rs_order_count = rt_staged res\<rparr>"
  obtain x d1 where m: "mark_refreshed (cy_env cy) ?st d = (x, d1)" by force
  from cycle_mark_orders [of d cy r t0 res entry] assms show "same_orders d d'" by simp
  show "rt_outcome res' = rt_outcome res" "rt_meta res' = rt_meta res" "rt_staged res' = rt_staged res"
    "rt_err res' = rt_err res"
    using assms by (auto simp: cycle_mark_def m Let_def split: sum.splits)
  assume "err = None"
  with assms m obtain u e2 where x: "x = Inr u" "d' = snd (log_ingest (cy_env cy) e2 d1)"
    by (auto simp: cycle_mark_def Let_def split: sum.splits)
  with log_ingest_effect [of d1 "cy_env cy" e2] mark_refreshed_ok [of "cy_env cy" ?st d u d1] m
  show "db_status d' = db_status (update_status (rg_id r) (refreshed_row ?st) d)" by simp
qed

text \<open>A cycle whose outcome is a success with no error went all the way.\<close>

lemma cycle_success_marked:
  assumes "picks_a_row (cy_env cy)" "verify_reads cy" "db_ok d" "pipe_final s"
    "cycle_finish cy c r s d = ((res, None), d')" "rt_outcome res \<in> {OutcomeOK, OutcomeResync}"
  obtains d2 where "pp_main s = MDone None" "pp_copy s = CDone" "goes_live (rg_id r) (copied_db cy r s d) d2"
    "same_orders d2 d'" "rt_meta res = pp_meta s" "rt_staged res = fst (copied cy r s d)"
    "fst (copied cy r s d) = sm_order_count (pp_meta s)" "rt_err res = None"
    "db_status d' = db_status (update_status (rg_id r) (refreshed_row
       \<lparr>rs_region = rg_id r, rs_refreshed_at = db_now d2, rs_st_expires = sm_expires (pp_meta s),
        rs_st_last_modified = sm_last_modified (pp_meta s), rs_st_pages = sm_pages (pp_meta s),
        rs_order_count = sm_order_count (pp_meta s)\<rparr>) d)"
proof (cases rule: cycle_finish_end [OF assms(1-3), of c r s, case_names refused failed marked])
  case refused
  from refused_outcome [OF refused] assms(5,6) show thesis by simp
next
  case failed
  with assms(5) show thesis by (simp add: cycle_failed_def)
next
  case (marked res0)
  from marked(4) assms(5) obtain res2 entry2 d2 where
    m: "cycle_mark cy r (pp_start s) res2 entry2 d2 = ((res, None), d')"
      "goes_live (rg_id r) (copied_db cy r s d) d2" "same_meta (copied_db cy r s d) d2"
      "rt_meta res2 = rt_meta res0" "rt_staged res2 = rt_staged res0" "rt_err res2 = rt_err res0"
    unfolding cycle_marked_def by metis
  note e = cycle_mark_end [OF m(1)]
  obtain n d1 where cp: "copy_orders (cy_env cy) (rg_id r) (pp_copy s) (pp_recv s) (d\<lparr>db_now := nt_now (pp_net s)\<rparr>) = ((n, None), d1)"
    using marked(2) unfolding copied_def by (metis prod.collapse)
  have "pp_copy s \<noteq> CRunning" using assms(4) by (simp add: pipe_final_def)
  from copy_orders_done(1) [OF cp this] have copy: "pp_copy s = CDone" .
  have main: "pp_main s = MDone None"
    using assms(4) marked(1) by (auto simp: pipe_final_def sweep_returned_def sweep_error_def split: main_phase.splits)
  have "db_status d2 = db_status d" using m(3) by (simp add: same_meta_def copied_db_effect)
  then show thesis
    using e m marked copy main
    by (intro that [of d2]) (auto simp: fun_eq_iff)
qed

section \<open>The snapshot a cycle puts live\<close>

text \<open>Every order of every page of a page set.\<close>

definition fetched_orders :: "sweep_meta \<Rightarrow> (int \<Rightarrow> order_page) \<Rightarrow> esi_order list" where
  "fetched_orders m pages = concat (map (\<lambda>p. pg_orders (pages p)) [1..max 1 (sm_pages m)])"

text \<open>
  A row of \<open>market.orders\<close> says what an order of the feed says, column by column: the price
  is the number its text denotes, the issue date is that of the order to the microsecond.
\<close>

definition carries :: "db_env \<Rightarrow> int \<Rightarrow> esi_order \<Rightarrow> order_row \<Rightarrow> bool" where
  "carries env rg o' row \<longleftrightarrow> or_region row = rg \<and> or_order row = eo_order_id o' \<and> or_type row = eo_type_id o' \<and>
     or_location row = eo_location_id o' \<and> or_system row = eo_system_id o' \<and> or_buy row = eo_is_buy o' \<and>
     de_numeric env (eo_price o') = Some (or_price row) \<and> or_volume_remain row = eo_volume_remain o' \<and>
     or_volume_total row = eo_volume_total o' \<and> or_min_volume row = eo_min_volume o' \<and>
     or_duration row = eo_duration o' \<and> or_range row = eo_range o' \<and>
     or_issued row \<le> eo_issued o' \<and> eo_issued o' < or_issued row + 1000 \<and> 1000 dvd or_issued row"

text \<open>\<open>rows\<close> show the orders \<open>os\<close>: each order once, and no other.\<close>

definition shows_orders :: "db_env \<Rightarrow> int \<Rightarrow> esi_order list \<Rightarrow> order_row list \<Rightarrow> bool" where
  "shows_orders env rg os rows \<longleftrightarrow> distinct (map or_order rows) \<and> or_order ` set rows = eo_order_id ` set os \<and>
     (\<forall>row \<in> set rows. \<exists>o' \<in> set os. carries env rg o' row)"

lemma cast_row_carries: "cast_row env rg o' = Some row \<Longrightarrow> carries env rg o' row"
proof -
  assume c: "cast_row env rg o' = Some row"
  have "eo_issued o' div 1000 * 1000 \<le> eo_issued o'" "eo_issued o' < eo_issued o' div 1000 * 1000 + 1000"
    using pos_mod_sign [of 1000 "eo_issued o'"] pos_mod_bound [of 1000 "eo_issued o'"] div_mult_mod_eq [of "eo_issued o'" 1000]
    by linarith+
  with c show ?thesis by (auto simp: carries_def cast_row_def split: option.splits)
qed

lemma dedup_shows:
  assumes "is_dedup (cast_rows env (map (Pair rg) os)) live" "\<forall>o' \<in> set os. cast_row env rg o' \<noteq> None"
  shows "shows_orders env rg os live"
proof -
  let ?rows = "set (cast_rows env (map (Pair rg) os))"
  have "or_order ` ?rows = eo_order_id ` set os"
  proof
    show "or_order ` ?rows \<subseteq> eo_order_id ` set os"
      unfolding cast_rows_set using cast_row_carries [of env rg] by (force simp: carries_def)
    show "eo_order_id ` set os \<subseteq> or_order ` ?rows"
    proof
      fix i assume "i \<in> eo_order_id ` set os"
      then obtain o' where o': "o' \<in> set os" "i = eo_order_id o'" by blast
      with assms(2) obtain row where row: "cast_row env rg o' = Some row" by blast
      with o' cast_row_carries [OF row] show "i \<in> or_order ` ?rows"
        unfolding cast_rows_set by (force simp: carries_def)
    qed
  qed
  moreover have "\<exists>o' \<in> set os. carries env rg o' row" if "row \<in> set live" for row
  proof -
    from that assms(1) have "row \<in> ?rows" by (auto simp: is_dedup_def)
    with cast_row_carries show ?thesis unfolding cast_rows_set by blast
  qed
  ultimately show ?thesis using assms(1) by (simp add: shows_orders_def is_dedup_def)
qed

text \<open>The snapshot that a publication after a complete sweep and copy puts live.\<close>

lemma live_snapshot:
  assumes run: "pipe_run (cycle_pcfg cy c r d) es (pipe_init n) = Some s" and
    m: "pp_main s = MDone None" "pp_copy s = CDone" "goes_live (rg_id r) (copied_db cy r s d) d2" "same_orders d2 d'"
  shows "\<exists>pages live. page_set (cycle_pcfg cy c r d) es (pp_meta s) pages \<and>
    db_part d' = (db_part d)(rg_id r \<mapsto> live) \<and>
    shows_orders (cy_env cy) (rg_id r) (fetched_orders (pp_meta s) pages) live \<and>
    sm_order_count (pp_meta s) = int (length (fetched_orders (pp_meta s) pages))"
proof -
  note snap = sweep_success [OF run m(1,2)]
  have staged: "pc_staged (cycle_pcfg cy c r d)" "list_all (pc_castable (cycle_pcfg cy c r d)) (concat (pp_recv s))"
    using sweep_laws_run [OF run] m(2) by (simp_all add: sweep_laws_def)
  then obtain old where old: "db_stg d (rg_id r) = Some old" by (auto simp: cycle_pcfg_def)
  let ?rows = "\<lambda>os. cast_rows (cy_env cy) (map (Pair (rg_id r)) os)"
  have stg: "db_stg (copied_db cy r s d) (rg_id r) = Some (?rows (concat (pp_recv s)))"
    by (simp add: copied_db_def copy_orders_def copy_order_rows m(2) Let_def old)
  then obtain live where live: "is_dedup (?rows (concat (pp_recv s))) live"
    "db_part d' = (db_part d)(rg_id r \<mapsto> live)"
    using m(3,4) by (auto simp: goes_live_def same_orders_def copied_db_effect)
  let ?all = "fetched_orders (pp_meta s) (sent_page s)"
  have "mset (concat (pp_recv s)) = mset ?all"
  proof -
    have "mset (concat xss) = (\<Sum>xs\<in>#mset xss. mset xs)" for xss :: "esi_order list list"
      by (simp add: mset_concat flip: sum_mset_sum_list)
    with snap(2) show ?thesis unfolding fetched_orders_def all_pages_def by metis
  qed
  then have same: "set (concat (pp_recv s)) = set ?all" "length (concat (pp_recv s)) = length ?all"
    using mset_eq_setD mset_eq_length by blast+
  have "set (?rows (concat (pp_recv s))) = set (?rows ?all)" unfolding cast_rows_set same(1) ..
  with live(1) have "is_dedup (?rows ?all) live" by (simp add: is_dedup_def)
  moreover have "\<forall>o' \<in> set ?all. cast_row (cy_env cy) (rg_id r) o' \<noteq> None"
    using staged(2) unfolding same(1) [symmetric] by (simp add: list_all_iff cycle_pcfg_def)
  ultimately have "shows_orders (cy_env cy) (rg_id r) ?all live" by (rule dedup_shows)
  with snap(1,3) live(2) same(2) show ?thesis by (intro exI [of _ "sent_page s"] exI [of _ live]) simp
qed

text \<open>\<open>rows\<close> are the orders of one consistent page set of region \<open>rg\<close>, each order once.\<close>

definition is_snapshot :: "cycle \<Rightarrow> pcfg \<Rightarrow> ev list \<Rightarrow> int \<Rightarrow> order_row list \<Rightarrow> bool" where
  "is_snapshot cy cfg es rg rows \<longleftrightarrow>
     (\<exists>m pages. page_set cfg es m pages \<and> shows_orders (cy_env cy) rg (fetched_orders m pages) rows)"

text \<open>The effect of any cycle: the old rows, or a new snapshot; a fresh mark only with the latter.\<close>

lemma cycle_run_effect:
  assumes "cycle_run cy c r es n d = Some ((ans, d'), n')"
    "picks_a_row (cy_env cy)" "verify_reads cy" "db_ok d"
  shows "db_ok d'"
    "db_part d' = db_part d \<and> status_kept (rg_id r) d d' \<or>
     (\<exists>live. is_snapshot cy (cycle_pcfg cy c r d) es (rg_id r) live \<and> db_part d' = (db_part d)(rg_id r \<mapsto> live))"
proof -
  obtain s where run: "pipe_run (cycle_pcfg cy c r d) es (pipe_init n) = Some s" and fin: "pipe_final s"
    and e: "cycle_finish cy c r s d = (ans, d')"
    using assms(1) by (metis cycle_runE)
  let ?d1 = "copied_db cy r s d"
  have fresh: "\<exists>live. is_snapshot cy (cycle_pcfg cy c r d) es (rg_id r) live \<and> db_part d' = (db_part d)(rg_id r \<mapsto> live)"
    if f: "sweep_error s = None" "snd (copied cy r s d) = None" "goes_live (rg_id r) ?d1 d2" "same_orders d2 d'" for d2
  proof -
    have main: "pp_main s = MDone None"
      using fin f(1) by (auto simp: pipe_final_def sweep_returned_def sweep_error_def split: main_phase.splits)
    obtain k d1 where "copy_orders (cy_env cy) (rg_id r) (pp_copy s) (pp_recv s) (d\<lparr>db_now := nt_now (pp_net s)\<rparr>) = ((k, None), d1)"
      using f(2) unfolding copied_def by (metis prod.collapse)
    from copy_orders_done(1) [OF this] fin have "pp_copy s = CDone" by (simp add: pipe_final_def)
    from live_snapshot [OF run main this f(3,4)] show ?thesis unfolding is_snapshot_def by blast
  qed
  have kept: "same_orders ?d1 x \<Longrightarrow> db_part x = db_part d" for x
    by (simp add: same_orders_def copied_db_effect)
  have "old_or_new (rg_id r) ?d1 d' \<and>
    (db_part d' = db_part d \<and> status_kept (rg_id r) d d' \<or>
     (\<exists>live. is_snapshot cy (cycle_pcfg cy c r d) es (rg_id r) live \<and> db_part d' = (db_part d)(rg_id r \<mapsto> live)))"
  proof (cases rule: cycle_finish_end [OF assms(2-4), of c r s, case_names refused failed marked])
    case refused
    from refused_tables [OF refused] have "db_part d' = db_part d" "status_kept (rg_id r) d d'" by (simp_all add: e)
    moreover have "\<exists>err res entry x. record_failure cy c r err res entry ?d1 = (x, d')"
      using refused unfolding cycle_refused_def e by (metis snd_conv)
    then have "same_orders ?d1 d'" using record_failure_orders by (metis snd_conv)
    ultimately show ?thesis using same_orders_old by blast
  next
    case failed
    then have f: "status_kept (rg_id r) ?d1 d'" "old_or_new (rg_id r) ?d1 d'" by (simp_all add: cycle_failed_def e)
    then have "status_kept (rg_id r) d d'" by (simp add: status_kept_def copied_db_effect)
    with f(2) fresh [OF failed(1,2)] kept [of d'] show ?thesis
      by (auto simp: old_or_new_def) (metis same_orders_refl)+
  next
    case (marked res)
    then obtain res2 entry2 d2 where m: "(ans, d') = cycle_mark cy r (pp_start s) res2 entry2 d2"
      "goes_live (rg_id r) ?d1 d2"
      unfolding cycle_marked_def e by metis
    have so: "same_orders d2 d'" using cycle_mark_orders m(1) by (metis snd_conv)
    with fresh [OF marked(1,2) m(2)] goes_live_old [OF goes_live_then [OF m(2) same_orders_old]] show ?thesis by blast
  qed
  then show "db_part d' = db_part d \<and> status_kept (rg_id r) d d' \<or>
     (\<exists>live. is_snapshot cy (cycle_pcfg cy c r d) es (rg_id r) live \<and> db_part d' = (db_part d)(rg_id r \<mapsto> live))"
    and "db_ok d'"
    using old_or_new_ok copied_db_effect(5) [OF assms(4)] by blast+
qed

end
