(* ===== verification/Sweep_Finish.thy ===== *)
theory Sweep_Finish
  imports Sweep_Live
begin

text \<open>
  Every run of a sweep can be brought to its end, from any point: it is never stuck
  (\<open>sweep_moves\<close>) and no sequence of steps is infinite (\<open>step_relation_wf\<close>). A
  fetcher that allows at least one attempt never dereferences a \<open>nil\<close> page.
\<close>

definition no_nil :: "pipe \<Rightarrow> bool" where
  "no_nil s \<longleftrightarrow> (\<forall>p. g_phase (pp_gs s p) \<noteq> PNil) \<and> pp_main s \<noteq> MPanic"

lemma no_nil_step:
  assumes "pipe_step cfg e s = Some s'" "no_nil s" "1 \<le> ft_page_attempts (pc_fetcher cfg)"
  shows "no_nil s'"
proof -
  have st: "g_phase (fetch_start (pc_fetcher cfg)) \<noteq> PNil" using assms(3) by (simp add: fetch_start_def)
  note nn = assms(2) [unfolded no_nil_def]
  show ?thesis
  proof (cases rule: pipe_step_cases [OF assms(1), case_names local defer0 start p1_fail p1_nil p1_defer p1_ok
        single spawn wait stop join_fail join_nil join_ok send send_stop recv recv_drain copy_end copy_fail])
    case (local p g n)
    then have "g_phase g \<noteq> PNil" by (simp add: local_move_def Let_def)
    with nn show ?thesis unfolding local(2) by (simp add: no_nil_def set_g_def)
  next
    case (join_fail p er)
    with nn show ?thesis by (auto simp: no_nil_def set_g_def group_error_def split: option.splits)
  next
    case (send_stop p pg)
    with nn show ?thesis by (auto simp: no_nil_def set_g_def group_error_def split: option.splits)
  qed (use nn st in \<open>auto simp: no_nil_def set_g_def\<close>)
qed

lemma no_nil_run:
  assumes "pipe_run cfg es (pipe_init n) = Some s" "1 \<le> ft_page_attempts (pc_fetcher cfg)"
  shows "no_nil s"
proof (rule pipe_run_keeps [where I = no_nil, OF _ assms(1)])
  show "no_nil (pipe_init n)" by (simp add: no_nil_def pipe_init_def)
qed (rule no_nil_step [OF _ _ assms(2)])

lemma run_finishes:
  assumes "1 \<le> pc_conc cfg" "1 \<le> ft_page_attempts (pc_fetcher cfg)"
  shows "pipe_run cfg es (pipe_init n) = Some s \<longrightarrow> (\<exists>es' s'. pipe_run cfg es' s = Some s' \<and> pipe_final s')"
proof (induction s arbitrary: es rule: wf_induct_rule [OF step_relation_wf [of cfg]])
  case (1 s)
  show ?case
  proof
    assume run: "pipe_run cfg es (pipe_init n) = Some s"
    show "\<exists>es' s'. pipe_run cfg es' s = Some s' \<and> pipe_final s'"
    proof (cases "pipe_final s")
      case True
      then show ?thesis by (intro exI [of _ "[]"] exI [of _ s]) simp
    next
      case False
      have "pp_main s \<noteq> MPanic" using no_nil_run [OF run assms(2)] by (simp add: no_nil_def)
      with False sweep_moves [OF run assms(1)] have "can_move cfg s \<or> copy_must_fail cfg s" by blast
      then obtain e t where t: "pipe_step cfg e s = Some t"
      proof
        assume "can_move cfg s"
        then show thesis using that by (auto simp: can_move_def)
      next
        assume "copy_must_fail cfg s"
        then have "pipe_step cfg (EvCopyFail (CopyFailed ECanceled 0 False)) s \<noteq> None"
          by (simp add: copy_must_fail_def in_copy_def)
        then show thesis using that by blast
      qed
      have "(t, s) \<in> step_relation cfg"
        using t pipe_shape_run [OF run] by (auto simp: step_relation_def)
      moreover have "pipe_run cfg (es @ [e]) (pipe_init n) = Some t" by (simp add: pipe_run_append run t)
      ultimately obtain es' s' where "pipe_run cfg es' t = Some s'" "pipe_final s'"
        using "1.IH" by blast
      with t show ?thesis by (intro exI [of _ "e # es'"] exI [of _ s']) simp
    qed
  qed
qed

end
