(* ===== verification/Cycle_Props.thy ===== *)
theory Cycle_Props
  imports Cycle_Snapshot Sweep_Finish
begin

text \<open>The properties of a region's cycle, with a cycle on concrete data for each.\<close>

section \<open>A concrete cycle\<close>

definition demo_env :: db_env where
  "demo_env = \<lparr>de_fault = (\<lambda>k. NoFault), de_latency = (\<lambda>k. millisecond), de_pick = (\<lambda>k rs. hd rs), de_pick_hist = (\<lambda>k rs. hd rs),
     de_numeric = (\<lambda>s. if s = ''4.25'' then Some 425 else None), de_price_text = show_int,
     de_issued_text = show_int, de_hash = (\<lambda>s. int (length s))\<rparr>"

definition demo_texts :: err_texts where
  "demo_texts = \<lparr>et_dur = show_int, et_url = []\<rparr>"

definition demo_cycle :: cycle where
  "demo_cycle = new_cycle demo_fetcher demo_codec 8 demo_env demo_texts"

definition demo_region :: region where
  "demo_region = \<lparr>rg_id = 7, rg_name = ''Test'', rg_priority = 1\<rparr>"

definition demo_status :: status_row where
  "demo_status = \<lparr>st_name = ''Test'', st_priority = 1, st_refreshed_at = None, st_expires = None,
     st_last_modified = None, st_pages = None, st_order_count = None, st_consecutive_errors = 2,
     st_last_error = Some ''boom'', st_last_error_at = Some 5000\<rparr>"

definition demo_db :: db where
  "demo_db = \<lparr>db_stg = [7 \<mapsto> []], db_part = [7 \<mapsto> []], db_status = [7 \<mapsto> demo_status], db_log = [],
     db_hist = \<lparr>ht_staging = None, ht_years = {}, ht_rows = [], ht_days = []\<rparr>, db_applied = [], db_ops = 0,
     db_now = 0\<rparr>"

lemma demo_ok: "picks_a_row (cy_env demo_cycle)" "verify_reads demo_cycle" "db_ok demo_db"
  by (simp_all add: demo_cycle_def new_cycle_reads)
    (simp_all add: new_cycle_def demo_env_def picks_a_row_def demo_db_def db_ok_def rows_of_def)

lemma demo_pcfg_run:
  "\<exists>s. pipe_run (cycle_pcfg demo_cycle None demo_region demo_db) demo_events (pipe_init demo_net) = Some s \<and>
     pp_main s = MDone None \<and> pp_copy s = CDone \<and> pp_recv s = [[demo_order 1, demo_order 2], [demo_order 3]] \<and>
     sm_pages (pp_meta s) = 2 \<and> sm_order_count (pp_meta s) = 3"
  by (simp add: cycle_pcfg_def demo_cycle_def new_cycle_def demo_region_def demo_db_def cast_row_def demo_env_def
      demo_order_def demo_simps)

definition demo_rows :: "order_row list" where
  "demo_rows = cast_rows demo_env (map (Pair 7) [demo_order 1, demo_order 2, demo_order 3])"

lemma demo_rows: "map or_order demo_rows = [1, 2, 3]" "insert_ok 7 [] demo_rows" "length demo_rows = 3"
  "distinct_on hd demo_rows = demo_rows"
  by (simp_all add: demo_rows_def cast_rows_def cast_row_def demo_env_def demo_order_def List.map_filter_simps
    insert_ok_def distinct_on_def)

lemma demo_calls:
  "de_fault demo_env k = NoFault" "de_pick demo_env k = hd"
  "f (db_ops d) (db_tick demo_env d) = Inr (a, d2) \<Longrightarrow> db_exec demo_env f d = (Inr a, d2)"
  "f (db_ops d) (db_tick demo_env d) = Inr (a, d2) \<Longrightarrow> db_stmt demo_env f d = (Inr a, d2)"
  "db_ping demo_env d = (Inr (), db_tick demo_env d)"
  by (simp_all add: demo_env_def db_exec_def db_stmt_def db_ping_def)

lemma demo_steps:
  assumes "db_stg d = [7 \<mapsto> demo_rows]"
  shows "db_part d = [7 \<mapsto> []] \<Longrightarrow> region_row_count demo_env 7 d = (Inr 0, db_tick demo_env d)"
    "db_part d = [7 \<mapsto> []] \<Longrightarrow> \<exists>d'. resync_region demo_env 7 d = (Inr 3, d') \<and> db_part d' = [7 \<mapsto> demo_rows] \<and> db_stg d' = db_stg d"
    "db_part d = [7 \<mapsto> demo_rows] \<Longrightarrow> \<exists>x d'. verify_region demo_env 7 d = (Inr (x, x), d')"
proof -
  show "db_part d = [7 \<mapsto> []] \<Longrightarrow> region_row_count demo_env 7 d = (Inr 0, db_tick demo_env d)"
    using demo_calls(3) [of "count_live 7" d 0 "db_tick demo_env d"] by (simp add: region_row_count_def count_live_def)
  show "db_part d = [7 \<mapsto> []] \<Longrightarrow> \<exists>d'. resync_region demo_env 7 d = (Inr 3, d') \<and> db_part d' = [7 \<mapsto> demo_rows] \<and> db_stg d' = db_stg d"
    using assms by (simp add: resync_region_def db_then_def demo_calls(1,2,5) db_tx_def db_stmt_def
      truncate_part_def insert_staged_def demo_rows db_wrap_def Let_def)
  show "db_part d = [7 \<mapsto> demo_rows] \<Longrightarrow> \<exists>x d'. verify_region demo_env 7 d = (Inr (x, x), d')"
    using assms by (simp add: verify_region_def db_then_def db_exec_def demo_calls(1,2) checksum_query_def demo_rows db_wrap_def
     db_return_def Let_def)
qed

lemma demo_finish:
  assumes "pp_main s = MDone None" "pp_copy s = CDone" "pp_recv s = [[demo_order 1, demo_order 2], [demo_order 3]]"
    "sm_pages (pp_meta s) = 2" "sm_order_count (pp_meta s) = 3"
  shows "\<exists>res d'. cycle_finish demo_cycle None demo_region s demo_db = ((res, None), d') \<and> rt_outcome res = OutcomeResync"
proof -
  have cy: "cy_env demo_cycle = demo_env" "cy_verify demo_cycle = verify_region demo_env" "rg_id demo_region = 7"
    by (simp_all add: demo_cycle_def new_cycle_def demo_region_def)
  let ?d0 = "demo_db\<lparr>db_now := nt_now (pp_net s)\<rparr>"
  obtain d1 where c: "copy_orders demo_env 7 CDone [[demo_order 1, demo_order 2], [demo_order 3]] ?d0 = ((3, None), d1)"
    "db_stg d1 = [7 \<mapsto> demo_rows]" "db_part d1 = [7 \<mapsto> []]"
    using demo_rows(3)
    by (simp add: copy_orders_def copy_order_rows demo_db_def set_staging_def Let_def demo_rows_def)
  let ?d2 = "db_tick demo_env d1"
  note cnt = demo_steps(1) [OF c(2,3)]
  obtain d3 where rs: "resync_region demo_env 7 ?d2 = (Inr 3, d3)" "db_part d3 = [7 \<mapsto> demo_rows]"
    "db_stg d3 = [7 \<mapsto> demo_rows]"
    using demo_steps(2) [of ?d2] c(2,3) by auto
  obtain x d4 where v: "verify_region demo_env 7 d3 = (Inr (x, x), d4)" using demo_steps(3) [OF rs(3,2)] by blast
  have m: "mark_refreshed demo_env st d = (Inr (), update_status (rs_region st) (refreshed_row st) (db_tick demo_env d))"
    if "rs_st_pages st = 2" for st d
    using demo_calls(3) [of "refreshed_stmt st" d] that
    by (simp add: mark_refreshed_def refreshed_stmt_def int4_ok_def)
  show ?thesis
    by (simp add: cycle_finish_def assms cy c(1) sweep_error_def cycle_apply_def cnt db_then_def rs(1) db_return_def
        cycle_verify_def v cycle_mark_def m swept_result_def result_init_def Let_def)
qed

lemma demo_cycle_run:
  "\<exists>res d' n'. cycle_run demo_cycle None demo_region demo_events demo_net demo_db = Some (((res, None), d'), n') \<and>
     rt_outcome res = OutcomeResync"
proof -
  obtain s where s: "pipe_run (cycle_pcfg demo_cycle None demo_region demo_db) demo_events (pipe_init demo_net) = Some s"
    "pp_main s = MDone None" "pp_copy s = CDone" "pp_recv s = [[demo_order 1, demo_order 2], [demo_order 3]]"
    "sm_pages (pp_meta s) = 2" "sm_order_count (pp_meta s) = 3"
    using demo_pcfg_run by blast
  from demo_finish [OF s(2-)] obtain res d' where
    "cycle_finish demo_cycle None demo_region s demo_db = ((res, None), d')" "rt_outcome res = OutcomeResync" by blast
  with s(1-3) show ?thesis by (auto simp: cycle_run_def pipe_final_def sweep_returned_def)
qed

section \<open>Properties\<close>

text \<open>
  C2: end to end. A cycle that reports success, with the outcome ok or resync and no
  error, has made the live rows of its region one consistent snapshot of the upstream:
  there is a complete page set of one Last-Modified, each page read from an answer
  to its own request, such that the region's partition holds exactly the orders of those
  pages, each order once and each row equal to an order of the feed column by column; no
  other region's partition has changed; the number of rows staged is the number of orders
  fetched; and the region's status row says so, its errors cleared.
\<close>
theorem cycle_snapshot_live:
  assumes "cycle_run cy c r es n d = Some (((res, None), d'), n')"
    "rt_outcome res \<in> {OutcomeOK, OutcomeResync}"
    "picks_a_row (cy_env cy)" "verify_reads cy" "db_ok d"
  shows "\<exists>pages live. page_set (cycle_pcfg cy c r d) es (rt_meta res) pages \<and>
    db_part d' = (db_part d)(rg_id r \<mapsto> live) \<and>
    shows_orders (cy_env cy) (rg_id r) (fetched_orders (rt_meta res) pages) live \<and>
    rt_staged res = int (length (fetched_orders (rt_meta res) pages)) \<and>
    (\<forall>row. db_status d (rg_id r) = Some row \<longrightarrow>
       (\<exists>t. db_status d' (rg_id r) = Some (row\<lparr>st_refreshed_at := Some t,
          st_expires := Some (micros (sm_expires (rt_meta res))), st_last_modified := Some (micros (sm_last_modified (rt_meta res))),
          st_pages := Some (sm_pages (rt_meta res)), st_order_count := Some (rt_staged res),
          st_consecutive_errors := 0, st_last_error := None, st_last_error_at := None\<rparr>)))"
proof -
  obtain s where run: "pipe_run (cycle_pcfg cy c r d) es (pipe_init n) = Some s" and fin: "pipe_final s"
    and e: "cycle_finish cy c r s d = ((res, None), d')"
    using assms(1) by (metis cycle_runE)
  obtain d2 where m: "pp_main s = MDone None" "pp_copy s = CDone" "goes_live (rg_id r) (copied_db cy r s d) d2"
    "same_orders d2 d'" "rt_meta res = pp_meta s" "rt_staged res = fst (copied cy r s d)"
    "fst (copied cy r s d) = sm_order_count (pp_meta s)" "rt_err res = None"
    and st: "db_status d' = db_status (update_status (rg_id r) (refreshed_row
       \<lparr>rs_region = rg_id r, rs_refreshed_at = db_now d2, rs_st_expires = sm_expires (pp_meta s),
        rs_st_last_modified = sm_last_modified (pp_meta s), rs_st_pages = sm_pages (pp_meta s),
        rs_order_count = sm_order_count (pp_meta s)\<rparr>) d)"
    using cycle_success_marked [OF assms(3-5) fin e assms(2)] .
  from live_snapshot [OF run m(1-4)] obtain pages live where l: "page_set (cycle_pcfg cy c r d) es (pp_meta s) pages"
    "db_part d' = (db_part d)(rg_id r \<mapsto> live)"
    "shows_orders (cy_env cy) (rg_id r) (fetched_orders (pp_meta s) pages) live"
    "sm_order_count (pp_meta s) = int (length (fetched_orders (pp_meta s) pages))" by blast
  show ?thesis
    by (intro exI [of _ pages] exI [of _ live]) (simp add: l m(5-7) st refreshed_row_def, blast)
qed

theorem cycle_snapshot_live_witness:
  "\<exists>res d' n' live. cycle_run demo_cycle None demo_region demo_events demo_net demo_db = Some (((res, None), d'), n') \<and>
     db_part d' = (db_part demo_db)(7 \<mapsto> live)"
proof -
  obtain res d' n' where run: "cycle_run demo_cycle None demo_region demo_events demo_net demo_db = Some (((res, None), d'), n')"
    "rt_outcome res = OutcomeResync"
    using demo_cycle_run by blast
  then have "rt_outcome res \<in> {OutcomeOK, OutcomeResync}" by simp
  from cycle_snapshot_live [OF run(1) this demo_ok] run(1) show ?thesis by (auto simp: demo_region_def)
qed

text \<open>
  C4: whatever happens in a cycle (a failed request, a failed statement, a lost reply of
  the database, a shutdown), the live rows of its region are afterwards either the ones
  it held before or one complete, consistent snapshot of the upstream, each order once;
  the other regions' rows are untouched, and the constraints of the tables hold.
\<close>
theorem cycle_all_or_nothing:
  assumes "cycle_run cy c r es n d = Some ((ans, d'), n')"
    "picks_a_row (cy_env cy)" "verify_reads cy" "db_ok d"
  shows "db_ok d' \<and> (db_part d' = db_part d \<or>
    (\<exists>live. is_snapshot cy (cycle_pcfg cy c r d) es (rg_id r) live \<and>
       db_part d' = (db_part d)(rg_id r \<mapsto> live)))"
  using cycle_run_effect [OF assms] by blast

theorem cycle_all_or_nothing_witness:
  "\<exists>ans d' n'. cycle_run demo_cycle None demo_region demo_events demo_net demo_db = Some ((ans, d'), n') \<and> db_ok d'"
proof -
  obtain res d' n' where run: "cycle_run demo_cycle None demo_region demo_events demo_net demo_db = Some (((res, None), d'), n')"
    using demo_cycle_run by blast
  from cycle_all_or_nothing [OF run demo_ok] run show ?thesis by blast
qed

text \<open>
  C3: the contract with the consumer. A cycle touches a region's status row other than to
  count a failure only when the region's live rows have just become a complete,
  consistent snapshot; so a new \<open>refreshed_at\<close> is never seen over old or partial
  data, whatever fails and whichever replies of the database are lost.
\<close>
theorem cycle_consumer_contract:
  assumes "cycle_run cy c r es n d = Some ((ans, d'), n')"
    "picks_a_row (cy_env cy)" "verify_reads cy" "db_ok d" "\<not> status_kept (rg_id r) d d'"
  shows "\<exists>live. is_snapshot cy (cycle_pcfg cy c r d) es (rg_id r) live \<and>
    db_part d' = (db_part d)(rg_id r \<mapsto> live)"
  using cycle_run_effect(2) [OF assms(1-4)] assms(5) by blast

theorem cycle_consumer_contract_witness:
  "\<exists>ans d' n' live. cycle_run demo_cycle None demo_region demo_events demo_net demo_db = Some ((ans, d'), n') \<and>
     \<not> status_kept 7 demo_db d' \<and> db_part d' = (db_part demo_db)(7 \<mapsto> live)"
proof -
  obtain res d' n' where run: "cycle_run demo_cycle None demo_region demo_events demo_net demo_db = Some (((res, None), d'), n')"
    "rt_outcome res = OutcomeResync"
    using demo_cycle_run by blast
  obtain s where s: "pipe_final s" "cycle_finish demo_cycle None demo_region s demo_db = ((res, None), d')"
    using run(1) by (metis cycle_runE)
  have "rt_outcome res \<in> {OutcomeOK, OutcomeResync}" using run(2) by simp
  from cycle_success_marked [OF demo_ok s this] obtain st where
    st: "db_status d' = db_status (update_status 7 (refreshed_row st) demo_db)"
    by (metis demo_region_def region.select_convs(1))
  have nk: "\<not> status_kept (rg_id demo_region) demo_db d'"
    unfolding status_kept_def st
    by (auto simp: demo_db_def demo_region_def refreshed_row_def failed_row_def demo_status_def intro!: exI [of _ 7])
  from cycle_consumer_contract [OF run(1) demo_ok nk] run(1) nk show ?thesis by (auto simp: demo_region_def)
qed

text \<open>
  C37: a cycle that did not succeed but returned no error (the sweep or the copy failed,
  the budget deferred it, or the service is shutting down) has published nothing and
  marked nothing refreshed.
\<close>
theorem cycle_refusal_publishes_nothing:
  assumes "cycle_run cy c r es n d = Some (((res, None), d'), n')"
    "rt_outcome res \<notin> {OutcomeOK, OutcomeResync}"
    "picks_a_row (cy_env cy)" "verify_reads cy" "db_ok d"
  shows "db_part d' = db_part d \<and> status_kept (rg_id r) d d' \<and>
    (rt_outcome res = OutcomeDeferred \<longrightarrow> db_status d' = db_status d)"
proof -
  obtain s where e: "cycle_finish cy c r s d = ((res, None), d')" using assms(1) by (metis cycle_runE)
  show ?thesis
  proof (cases rule: cycle_finish_end [OF assms(3-5), of c r s, case_names refused failed marked])
    case refused
    from refused obtain err res0 entry where rf: "record_failure cy c r err res0 entry (copied_db cy r s d) = (res, d')"
      unfolding cycle_refused_def e by auto
    have "db_status d' = db_status d" if def: "rt_outcome res = OutcomeDeferred"
    proof (cases "ctx_done c (db_now (copied_db cy r s d))")
      case True
      with rf show ?thesis by (auto simp: record_failure_def copied_db_effect)
    next
      case False
      obtain oc reason where cl: "classify err = (oc, reason)" by force
      with False rf def have "oc = OutcomeDeferred" by (auto simp: record_failure_def)
      with cl False rf have "\<exists>e2. d' = snd (log_ingest (cy_env cy) e2 (copied_db cy r s d))"
        by (auto simp: record_failure_def)
      then show ?thesis using log_ingest_effect copied_db_effect(2) by metis
    qed
    with refused_tables [OF refused] show ?thesis by (simp add: e)
  next
    case failed
    then show ?thesis by (simp add: cycle_failed_def e)
  next
    case (marked res0)
    then obtain res2 entry2 d2 where "((res, None), d') = cycle_mark cy r (pp_start s) res2 entry2 d2"
      "rt_outcome res2 \<in> {OutcomeOK, OutcomeResync}"
      unfolding cycle_marked_def e by metis
    with cycle_mark_end(1) assms(2) show ?thesis by metis
  qed
qed

text \<open>A cycle that the budget defers: the last header left 10 tokens.\<close>

definition demo_low_net :: net where
  "demo_low_net = demo_net\<lparr>nt_esi := esi_client_init\<lparr>ec_budget := budget_observe 10 budget_init\<rparr>\<rparr>"

lemma demo_low_run:
  "\<exists>s. pipe_run (cycle_pcfg demo_cycle None demo_region demo_db) [EvMain, EvCopyEnd] (pipe_init demo_low_net) = Some s \<and>
     pp_main s = MDone (Some (EDeferred (floor_reason 10))) \<and> pp_copy s = CDone \<and> pp_recv s = []"
  by (simp add: demo_low_net_def demo_net_def pipe_init_def main_start_def Let_def cycle_pcfg_def demo_cycle_def
      new_cycle_def demo_fetcher_def below_floor_def budget_remaining_def sweep_returned_def demo_db_def demo_region_def)

lemma demo_deferred_run:
  "\<exists>res d' n'. cycle_run demo_cycle None demo_region [EvMain, EvCopyEnd] demo_low_net demo_db = Some (((res, None), d'), n') \<and>
     rt_outcome res = OutcomeDeferred"
proof -
  obtain s where s: "pipe_run (cycle_pcfg demo_cycle None demo_region demo_db) [EvMain, EvCopyEnd] (pipe_init demo_low_net) = Some s"
     "pp_main s = MDone (Some (EDeferred (floor_reason 10)))" "pp_copy s = CDone" "pp_recv s = []"
    using demo_low_run by blast
  then show ?thesis
    by (simp add: cycle_run_def pipe_final_def sweep_returned_def cycle_finish_def copy_orders_def copy_order_rows
        sweep_error_def join2_def record_failure_def classify_def Let_def split: prod.split)
qed

theorem cycle_refusal_publishes_nothing_witness:
  "\<exists>res d' n'. cycle_run demo_cycle None demo_region [EvMain, EvCopyEnd] demo_low_net demo_db = Some (((res, None), d'), n') \<and>
     db_part d' = db_part demo_db \<and> db_status d' = db_status demo_db"
proof -
  obtain res d' n' where run: "cycle_run demo_cycle None demo_region [EvMain, EvCopyEnd] demo_low_net demo_db = Some (((res, None), d'), n')"
    "rt_outcome res = OutcomeDeferred"
    using demo_deferred_run by blast
  have "rt_outcome res \<notin> {OutcomeOK, OutcomeResync}" using run(2) by (simp add: outcome_defs)
  from cycle_refusal_publishes_nothing [OF run(1) this demo_ok] run show ?thesis by blast
qed

text \<open>
  Shutting down is not a fault. When the service's context has ended by the time the
  sweep and the copy have both returned, a cycle that fails writes nothing at all: no
  error on the region's status, no log row, no change to the live rows.
\<close>
theorem shutdown_leaves_no_trace:
  assumes "pipe_run (cycle_pcfg cy c r d) es (pipe_init n) = Some s" "ctx_done c (nt_now (pp_net s))"
    "pp_main s = MDone (Some e)" "cycle_finish cy c r s d = ((res, err), d')"
  shows "db_part d' = db_part d \<and> db_status d' = db_status d \<and> db_log d' = db_log d \<and>
    err = None \<and> rt_outcome res = OutcomeFailed \<and> rt_err res = None"
proof -
  obtain k ce d1 where cp:
    "copy_orders (cy_env cy) (rg_id r) (pp_copy s) (pp_recv s) (d\<lparr>db_now := nt_now (pp_net s)\<rparr>) = ((k, ce), d1)"
    by (metis surj_pair)
  note eff = copy_orders_effect(1-4) [OF cp]
  have "sweep_error s = Some e" using assms(3) by (simp add: sweep_error_def)
  then obtain x where x: "join2 (sweep_error s) ce = Some x" by (cases ce) (simp_all add: join2_def)
  with assms(2,4) eff show ?thesis
    by (auto simp: cycle_finish_def cp Let_def record_failure_def swept_result_def result_init_def)
qed

theorem shutdown_leaves_no_trace_witness:
  "\<exists>s res err d'. pipe_run (cycle_pcfg demo_cycle (Some 0) demo_region demo_db) [EvMain, EvCopyEnd] (pipe_init demo_low_net) = Some s \<and>
     cycle_finish demo_cycle (Some 0) demo_region s demo_db = ((res, err), d') \<and> db_log d' = [] \<and> err = None"
proof -
  have "\<exists>s. pipe_run (cycle_pcfg demo_cycle (Some 0) demo_region demo_db) [EvMain, EvCopyEnd] (pipe_init demo_low_net) = Some s \<and>
     pp_main s = MDone (Some (EDeferred (floor_reason 10))) \<and> ctx_done (Some 0) (nt_now (pp_net s))"
    by (simp add: demo_low_net_def demo_net_def pipe_init_def main_start_def Let_def cycle_pcfg_def demo_cycle_def
      new_cycle_def demo_fetcher_def below_floor_def budget_remaining_def sweep_returned_def demo_db_def demo_region_def)
  then obtain s where s: "pipe_run (cycle_pcfg demo_cycle (Some 0) demo_region demo_db) [EvMain, EvCopyEnd] (pipe_init demo_low_net) = Some s"
    "pp_main s = MDone (Some (EDeferred (floor_reason 10)))" "ctx_done (Some 0) (nt_now (pp_net s))"
    by blast
  obtain res err d' where e: "cycle_finish demo_cycle (Some 0) demo_region s demo_db = ((res, err), d')"
    by (metis surj_pair)
  from shutdown_leaves_no_trace [OF s(1,3,2) e] s(1) e show ?thesis by (auto simp: demo_db_def)
qed

text \<open>
  The log tells the outcome. A cycle that returns without error adds at most one row
  to the log, and that row carries the outcome the caller gets; so the scheduler and the
  operational history never disagree on whether a cycle refreshed its region.
\<close>
theorem cycle_log_agrees:
  assumes "cycle_run cy c r es n d = Some (((res, None), d'), n')"
    "picks_a_row (cy_env cy)" "verify_reads cy" "db_ok d"
  shows "db_log d' = db_log d \<or> (\<exists>row. db_log d' = db_log d @ [row] \<and> il_outcome row = rt_outcome res)"
proof -
  obtain s where e: "cycle_finish cy c r s d = ((res, None), d')" using assms(1) by (metis cycle_runE)
  show ?thesis
  proof (cases rule: cycle_finish_end [OF assms(2-4), of c r s, case_names refused failed marked])
    case refused
    then obtain err res0 entry where rf: "record_failure cy c r err res0 entry (copied_db cy r s d) = (res, d')"
      unfolding cycle_refused_def e by auto
    obtain oc reason where cl: "classify err = (oc, reason)" by force
    show ?thesis
    proof (cases "ctx_done c (db_now (copied_db cy r s d))")
      case True
      with rf show ?thesis by (auto simp: record_failure_def copied_db_effect)
    next
      case False
      with rf cl have out: "rt_outcome res = oc" by (auto simp: record_failure_def)
      from False rf cl obtain e2 d1 where d1: "d' = snd (log_ingest (cy_env cy) e2 d1)" "le_outcome e2 = oc"
        "db_log d1 = db_log d"
        using mark_failed_effect copied_db_effect(3)
        by (auto simp: record_failure_def split: if_splits)
      with log_ingest_effect [of d1 "cy_env cy" e2] out show ?thesis by (auto simp: log_row_def)
    qed
  next
    case failed
    then show ?thesis by (simp add: cycle_failed_def e)
  next
    case (marked res0)
    then obtain res2 entry2 d2 where m: "((res, None), d') = cycle_mark cy r (pp_start s) res2 entry2 d2"
      "same_meta (copied_db cy r s d) d2"
      unfolding cycle_marked_def e by metis
    note out = cycle_mark_end(1) [OF m(1) [symmetric]]
    let ?st = "\<lparr>rs_region = rg_id r, rs_refreshed_at = db_now d2, rs_st_expires = sm_expires (rt_meta res2),
        rs_st_last_modified = sm_last_modified (rt_meta res2), rs_st_pages = sm_pages (rt_meta res2),
        rs_order_count = rt_staged res2\<rparr>"
    obtain x d1 where mr: "mark_refreshed (cy_env cy) ?st d2 = (x, d1)" by force
    from m(1) mr obtain e2 where d1: "d' = snd (log_ingest (cy_env cy) e2 d1)" "le_outcome e2 = rt_outcome res2"
      by (auto simp: cycle_mark_def Let_def split: sum.splits)
    from mark_refreshed_effect [of d2 "cy_env cy" ?st] m(2) mr have "db_log d1 = db_log d"
      by (simp add: same_meta_def copied_db_effect)
    with log_ingest_effect [of d1 "cy_env cy" e2] d1 out show ?thesis by (auto simp: log_row_def)
  qed
qed

theorem cycle_log_agrees_witness:
  "\<exists>res d' n'. cycle_run demo_cycle None demo_region demo_events demo_net demo_db = Some (((res, None), d'), n') \<and>
     (db_log d' = [] \<or> (\<exists>row. db_log d' = [row] \<and> il_outcome row = rt_outcome res))"
proof -
  obtain res d' n' where run: "cycle_run demo_cycle None demo_region demo_events demo_net demo_db = Some (((res, None), d'), n')"
    using demo_cycle_run by blast
  from cycle_log_agrees [OF run demo_ok] run show ?thesis by (auto simp: demo_db_def)
qed

lemma cycle_completes:
  assumes "pipe_run (cycle_pcfg cy c r d) es (pipe_init n) = Some s"
    "1 \<le> cy_conc cy" "1 \<le> ft_page_attempts (cy_fetcher cy)"
  shows "\<exists>es' e. cycle_run cy c r (es @ es') n d = Some e"
proof -
  have "1 \<le> pc_conc (cycle_pcfg cy c r d)" "1 \<le> ft_page_attempts (pc_fetcher (cycle_pcfg cy c r d))"
    using assms(2,3) by (simp_all add: cycle_pcfg_def)
  from run_finishes [OF this, of es n s] assms(1) obtain es' s' where
    "pipe_run (cycle_pcfg cy c r d) es' s = Some s'" "pipe_final s'" by blast
  then show ?thesis
    by (intro exI [of _ es']) (simp add: cycle_run_def pipe_run_append assms(1) split: prod.split)
qed

text \<open>
  C13: a cycle can always be brought to its end, from whatever point it has reached: with a
  slot for requests and at least one attempt per page, no answer of the network and no
  fault of the database leaves the sweep, its page goroutines and the copy waiting
  for each other, and \<open>Run\<close> returns.
\<close>
theorem cycle_can_complete:
  assumes "pipe_run (cycle_pcfg cy c r d) es (pipe_init n) = Some s"
    "1 \<le> cy_conc cy" "1 \<le> ft_page_attempts (cy_fetcher cy)"
  shows "\<exists>es' e. cycle_run cy c r (es @ es') n d = Some e"
  by (rule cycle_completes [OF assms])

theorem cycle_can_complete_witness:
  "\<exists>es e. cycle_run demo_cycle None demo_region ([EvMain, EvGo 1] @ es) demo_net demo_db = Some e"
proof -
  have "\<exists>s. pipe_run (cycle_pcfg demo_cycle None demo_region demo_db) [EvMain, EvGo 1] (pipe_init demo_net) = Some s"
    by (simp add: cycle_pcfg_def demo_cycle_def new_cycle_def demo_region_def demo_db_def demo_simps)
  then obtain s where s: "pipe_run (cycle_pcfg demo_cycle None demo_region demo_db) [EvMain, EvGo 1] (pipe_init demo_net) = Some s"
    by (elim exE) (rule that)
  have "1 \<le> cy_conc demo_cycle" "1 \<le> ft_page_attempts (cy_fetcher demo_cycle)"
    by (simp_all add: demo_cycle_def new_cycle_def demo_fetcher_def)
  from cycle_can_complete [OF s this] show ?thesis .
qed

text \<open>
  A failure to mark the region after its data went live ends the cycle before the log: the
  outcome still says success, the error says otherwise, and no row records the cycle.
\<close>

lemma mark_failure_unlogged:
  assumes "mark_refreshed (cy_env cy) st d = (Inl e, d1)"
    "st = \<lparr>rs_region = rg_id r, rs_refreshed_at = db_now d, rs_st_expires = sm_expires (rt_meta res),
        rs_st_last_modified = sm_last_modified (rt_meta res), rs_st_pages = sm_pages (rt_meta res),
        rs_order_count = rt_staged res\<rparr>"
  shows "cycle_mark cy r t0 res entry d = ((res, Some e), d1)" "db_log d1 = db_log d"
  using assms mark_refreshed_effect [of d "cy_env cy" st]
  by (simp_all add: cycle_mark_def Let_def)

text \<open>A database failure of the copy is recorded as a deferral when the sweep was deferred too.\<close>

lemma deferral_hides_copy_failure:
  "join2 (Some (EDeferred reason)) (Some e) = Some err \<Longrightarrow> classify err = (OutcomeDeferred, reason)"
  by (auto simp: join2_def classify_def)

end
