(* ===== verification/Streak.thy ===== *)
theory Streak
  imports Prelude
begin

text \<open>
  internal/ingest/streak.go: one report per run of failures. The contract is a
  locale, \<open>episode_reporter\<close>; the scheduler and the maintenance jobs rely on its
  laws only.
\<close>

section \<open>The contract\<close>

locale episode_reporter =
  fixes first :: "'k \<Rightarrow> 's \<Rightarrow> bool \<times> 's"
    and ends :: "'k \<Rightarrow> 's \<Rightarrow> 's"
    and running :: "'k \<Rightarrow> 's \<Rightarrow> bool"
  assumes first_reports: "fst (first k s) \<longleftrightarrow> \<not> running k s"
    and first_running: "running j (snd (first k s)) \<longleftrightarrow> j = k \<or> running j s"
    and ends_running: "running j (ends k s) \<longleftrightarrow> j \<noteq> k \<and> running j s"
begin

text \<open>A history of one job per key: \<open>(k, True)\<close> is a failure at \<open>k\<close>, \<open>(k, False)\<close> a success.\<close>

fun reports :: "('k \<times> bool) list \<Rightarrow> 's \<Rightarrow> 'k list" where
  "reports [] s = []"
| "reports ((k, failed) # es) s =
     (if failed then (if fst (first k s) then k # reports es (snd (first k s)) else reports es (snd (first k s)))
      else reports es (ends k s))"

fun after :: "('k \<times> bool) list \<Rightarrow> 's \<Rightarrow> 's" where
  "after [] s = s"
| "after ((k, failed) # es) s = after es (if failed then snd (first k s) else ends k s)"

lemma after_append: "after (xs @ ys) s = after ys (after xs s)"
  by (induction xs s rule: after.induct) simp_all

lemma reports_append: "reports (xs @ ys) s = reports xs s @ reports ys (after xs s)"
  by (induction xs s rule: reports.induct) auto

text \<open>How many runs of failures begin at \<open>k\<close>, given whether one is in progress.\<close>

fun episodes :: "'k \<Rightarrow> ('k \<times> bool) list \<Rightarrow> bool \<Rightarrow> nat" where
  "episodes k [] inside = 0"
| "episodes k ((j, failed) # es) inside =
     (if j \<noteq> k then episodes k es inside
      else if failed then (if inside then 0 else 1) + episodes k es True
      else episodes k es False)"

theorem one_report_per_episode:
  "length (filter ((=) k) (reports es s)) = episodes k es (running k s)"
  by (induction es s rule: reports.induct)
    (auto simp: first_reports first_running ends_running)

lemma repeated_failure_silent: "\<not> fst (first k (snd (first k s)))"
  by (simp add: first_reports first_running)

lemma report_after_success: "fst (first k (ends k s))"
  by (simp add: first_reports ends_running)

end

section \<open>streak\<close>

text \<open>The keys inside a run of failures; the zero value has none.\<close>

type_synonym streak = "string set"

definition streak_first :: "string \<Rightarrow> streak \<Rightarrow> bool \<times> streak" where
  "streak_first key s = (if key \<in> s then (False, s) else (True, insert key s))"

definition streak_ends :: "string \<Rightarrow> streak \<Rightarrow> streak" where
  "streak_ends key s = s - {key}"

interpretation stk: episode_reporter streak_first streak_ends "\<lambda>k s. k \<in> s"
  by unfold_locales (auto simp: streak_first_def streak_ends_def)

end
