(* ===== verification/Scheduler.thy ===== *)
theory Scheduler
  imports Cycle Streak "HOL-Library.Product_Lexorder"
begin

text \<open>
  internal/ingest/scheduler.go. The interface \<open>cycleRunner\<close> is a function the
  scheduler's definitions take, \<open>se_run\<close>: it consumes and returns whatever it works
  on, \<open>'w\<close>, with the network; \<open>None\<close> stands for a cycle that never returned.
  The scheduler's own requests (\<open>prime\<close> and \<open>probe\<close>) meet the exchanges
  \<open>se_exchange 0, se_exchange 1, ...\<close>, and \<open>rand.Int64N\<close> draws from
  \<open>se_draw\<close>. What is sent to the error tracker is the list \<open>sd_events\<close>;
  \<open>sd_ran\<close> records the calls of \<open>Run\<close>, for the properties.
  Identifiers are not negative, so the comparator's differences do not overflow.
\<close>

section \<open>State\<close>

record sched_cfg =
  sc_max_jitter :: dur
  sc_canary_interval :: dur
  sc_max_attempts :: int
  sc_error_limit_floor :: int
  sc_budget_floor :: int

record 'w sched_env =
  se_run :: "ctx \<Rightarrow> region \<Rightarrow> net \<Rightarrow> 'w \<Rightarrow> ((cycle_result \<times> gerr option) \<times> net \<times> 'w) option"
  se_codec :: codec
  se_exchange :: "nat \<Rightarrow> exchange"
  se_draw :: "nat \<Rightarrow> int"
  se_cfg :: sched_cfg

datatype report =
    RegionFailed region gerr string int    \<comment> \<open>cause, outcome, attempts\<close>
  | ErrorLimitTripped dur

text \<open>One call of \<open>Run\<close>: the network it started from, and whether it refreshed its region.\<close>

record cycle_call =
  cc_region :: region
  cc_net :: net
  cc_refreshed :: bool

record 'w sched =
  sd_net :: net
  sd_rest :: 'w
  sd_due :: "int \<rightharpoonup> time"
  sd_reports :: streak
  sd_events :: "report list"
  sd_draws :: nat
  sd_calls :: nat
  sd_ran :: "cycle_call list"

definition keyErrorLimit :: string where
  "keyErrorLimit = ''error-limit''"

text \<open>The regions in the order they are processed.\<close>

definition ordered_regions :: "region list \<Rightarrow> region list" where
  "ordered_regions regions = sort_key (\<lambda>r. (rg_priority r, rg_id r)) regions"

definition new_sched :: "net \<Rightarrow> 'w \<Rightarrow> 'w sched" where
  "new_sched n w = \<lparr>sd_net = n, sd_rest = w, sd_due = Map.empty, sd_reports = {}, sd_events = [], sd_draws = 0,
     sd_calls = 0, sd_ran = []\<rparr>"

definition now_of :: "'w sched \<Rightarrow> time" where
  "now_of s = nt_now (sd_net s)"

definition esi_of :: "'w sched \<Rightarrow> esi_client" where
  "esi_of s = nt_esi (sd_net s)"

section \<open>Small steps\<close>

definition set_due :: "int \<Rightarrow> time \<Rightarrow> 'w sched \<Rightarrow> 'w sched" where
  "set_due i t s = s\<lparr>sd_due := (sd_due s)(i \<mapsto> t)\<rparr>"

text \<open>\<open>sleep(ctx, d)\<close>: whether it waited the whole time.\<close>

definition sched_sleep :: "ctx \<Rightarrow> dur \<Rightarrow> 'w sched \<Rightarrow> bool \<times> 'w sched" where
  "sched_sleep c d s =
     (let (ok, t) = sleep c d (now_of s) in (ok, s\<lparr>sd_net := (sd_net s)\<lparr>nt_now := t\<rparr>\<rparr>))"

text \<open>
  \<open>nextDue\<close>. \<open>rand.Int64N\<close> panics on an argument that is not positive, which is
  the \<open>None\<close> here.
\<close>

definition next_due :: "'w sched_env \<Rightarrow> time \<Rightarrow> 'w sched \<Rightarrow> (time \<times> 'w sched) option" where
  "next_due env exp s =
     (if exp = zero_time then Some (now_of s + 5 * minute, s)
      else
        let n = wrap64 (sc_max_jitter (se_cfg env) + 1)
        in if n \<le> 0 then None
           else
             let jitter = se_draw env (sd_draws s) mod n;
                 due = exp + second + jitter;
                 earliest = now_of s + 5 * second
             in Some (if due < earliest then earliest else due, s\<lparr>sd_draws := sd_draws s + 1\<rparr>))"

definition set_next_due :: "'w sched_env \<Rightarrow> int \<Rightarrow> time \<Rightarrow> 'w sched \<Rightarrow> 'w sched option" where
  "set_next_due env i exp s = map_option (\<lambda>(t, s'). set_due i t s') (next_due env exp s)"

text \<open>One direct \<open>OrdersPage\<close> of the scheduler.\<close>

definition sched_page :: "'w sched_env \<Rightarrow> int \<Rightarrow> int \<Rightarrow> 'w sched \<Rightarrow> order_page fetched \<times> 'w sched" where
  "sched_page env rg page s =
     (let (res, n) = client_orders_page (se_codec env) (se_exchange env (sd_calls s)) rg page (sd_net s)
      in (res, s\<lparr>sd_net := n, sd_calls := sd_calls s + 1\<rparr>))"

definition note_failure :: "region \<Rightarrow> gerr \<Rightarrow> string \<Rightarrow> int \<Rightarrow> 'w sched \<Rightarrow> 'w sched" where
  "note_failure r cause outcome attempts s =
     (let (report, st) = streak_first (rg_name r) (sd_reports s); s1 = s\<lparr>sd_reports := st\<rparr>
      in if report then s1\<lparr>sd_events := sd_events s @ [RegionFailed r cause outcome attempts]\<rparr> else s1)"

definition note_error_limit :: "dur \<Rightarrow> 'w sched \<Rightarrow> 'w sched" where
  "note_error_limit d s =
     (let (report, st) = streak_first keyErrorLimit (sd_reports s); s1 = s\<lparr>sd_reports := st\<rparr>
      in if report then s1\<lparr>sd_events := sd_events s @ [ErrorLimitTripped d]\<rparr> else s1)"

definition end_streak :: "string \<Rightarrow> 'w sched \<Rightarrow> 'w sched" where
  "end_streak key s = s\<lparr>sd_reports := streak_ends key (sd_reports s)\<rparr>"

definition retry_after :: "gerr \<Rightarrow> dur" where
  "retry_after e = (case as_http e of Some he \<Rightarrow> he_retry_after he | None \<Rightarrow> 0)"

section \<open>prime\<close>

fun prime_loop :: "'w sched_env \<Rightarrow> ctx \<Rightarrow> region list \<Rightarrow> 'w sched \<Rightarrow> (gerr option \<times> 'w sched) option" where
  "prime_loop env c [] s = Some (None, s)"
| "prime_loop env c (r # rs) s =
     (case sched_page env (rg_id r) 1 s of
        (FetchErr p e, s1) \<Rightarrow>
          if ctx_done c (now_of s1) then Some (Some ECanceled, s1)
          else prime_loop env c rs (set_due (rg_id r) (now_of s1 + 30 * second) s1)
      | (Fetched p, s1) \<Rightarrow>
          (case set_next_due env (rg_id r) (pg_expires p) s1 of
             None \<Rightarrow> None
           | Some s2 \<Rightarrow> prime_loop env c rs s2))"

section \<open>runRegion\<close>

definition attempts_of :: "sched_cfg \<Rightarrow> region \<Rightarrow> int" where
  "attempts_of cfg r = (if can_retry r then sc_max_attempts cfg else 1)"

text \<open>What follows one call of \<open>Run\<close>: stop here, or try again after a pause.\<close>

datatype 'w verdict = Stop "'w sched" | Again dur "'w sched"

definition region_backoff :: "int \<Rightarrow> gerr \<Rightarrow> dur" where
  "region_backoff attempt cause =
     (let ra = retry_after cause in if 0 < ra then ra else attempt * 2 * second)"

definition judge ::
  "'w sched_env \<Rightarrow> ctx \<Rightarrow> region \<Rightarrow> int \<Rightarrow> cycle_result \<Rightarrow> gerr option \<Rightarrow> 'w sched \<Rightarrow> 'w verdict option" where
  "judge env c r attempt res err s =
     (if ctx_done c (now_of s) then Some (Stop s)
      else case (err, rt_err res) of
        (None, None) \<Rightarrow>
          map_option Stop (set_next_due env (rg_id r) (sm_expires (rt_meta res)) (end_streak (rg_name r) s))
      | _ \<Rightarrow>
          (let cause = (case err of Some e \<Rightarrow> e | None \<Rightarrow> the (rt_err res));
               final = (attempt = attempts_of (se_cfg env) r);
               blocked = retries_blocked (now_of s) (esi_of s) (sc_error_limit_floor (se_cfg env))
           in if rt_outcome res = OutcomeDeferred
              then map_option Stop (set_next_due env (rg_id r) (sm_expires (rt_meta res)) s)
              else if is_error_limited cause then Some (Stop s)
              else if final \<or> blocked \<noteq> []
              then Some (Stop (set_due (rg_id r) (now_of s + 30 * second)
                                (note_failure r cause (rt_outcome res) attempt s)))
              else Some (Again (region_backoff attempt cause) s)))"

definition after_run :: "region \<Rightarrow> cycle_result \<Rightarrow> gerr option \<Rightarrow> net \<Rightarrow> 'w \<Rightarrow> 'w sched \<Rightarrow> 'w sched" where
  "after_run r res err n w s = s\<lparr>sd_net := n, sd_rest := w,
     sd_ran := sd_ran s @ [\<lparr>cc_region = r, cc_net = sd_net s, cc_refreshed = (err = None \<and> rt_err res = None)\<rparr>]\<rparr>"

function region_loop :: "'w sched_env \<Rightarrow> ctx \<Rightarrow> region \<Rightarrow> int \<Rightarrow> 'w sched \<Rightarrow> 'w sched option" where
  "region_loop env c r attempt s =
     (if attempts_of (se_cfg env) r < attempt then Some s
      else case se_run env c r (sd_net s) (sd_rest s) of
        None \<Rightarrow> None
      | Some ((res, err), n, w) \<Rightarrow>
          (case judge env c r attempt res err (after_run r res err n w s) of
             None \<Rightarrow> None
           | Some (Stop s1) \<Rightarrow> Some s1
           | Some (Again d s1) \<Rightarrow>
               (let (ok, s2) = sched_sleep c d s1
                in if ok then region_loop env c r (attempt + 1) s2 else Some s2)))"
  by pat_completeness auto
termination
  by (relation "measure (\<lambda>(env, c, r, attempt, s). nat (attempts_of (se_cfg env) r + 1 - attempt))") auto

declare region_loop.simps [simp del]

definition run_region :: "'w sched_env \<Rightarrow> ctx \<Rightarrow> region \<Rightarrow> 'w sched \<Rightarrow> 'w sched option" where
  "run_region env c r s = region_loop env c r 1 s"

section \<open>pass\<close>

definition probe :: "'w sched_env \<Rightarrow> 'w sched \<Rightarrow> bool \<times> 'w sched" where
  "probe env s =
     (case sched_page env r_GlobalPLEX 1 s of
        (Fetched p, s1) \<Rightarrow> (True, s1)
      | (FetchErr p e, s1) \<Rightarrow> (False, s1))"

definition canary :: "'w sched_env \<Rightarrow> ctx \<Rightarrow> 'w sched \<Rightarrow> 'w sched" where
  "canary env c s = snd (sched_sleep c (sc_canary_interval (se_cfg env)) (snd (probe env s)))"

definition wait_outage :: "'w sched_env \<Rightarrow> ctx \<Rightarrow> 'w sched \<Rightarrow> 'w sched" where
  "wait_outage env c s =
     (case probe env s of
        (True, s1) \<Rightarrow> s1
      | (False, s1) \<Rightarrow> snd (sched_sleep c (sc_canary_interval (se_cfg env)) s1))"

fun pass_loop :: "'w sched_env \<Rightarrow> ctx \<Rightarrow> region list \<Rightarrow> 'w sched \<Rightarrow> 'w sched option" where
  "pass_loop env c [] s = Some s"
| "pass_loop env c (r # rs) s =
     (if ctx_done c (now_of s) then Some s
      else if 0 < paused_for (now_of s) (ec_outage (esi_of s)) then Some s
      else case sd_due s (rg_id r) of
        None \<Rightarrow> pass_loop env c rs s
      | Some due \<Rightarrow>
          if now_of s < due then pass_loop env c rs s
          else (case run_region env c r s of None \<Rightarrow> None | Some s1 \<Rightarrow> pass_loop env c rs s1))"

definition pass :: "'w sched_env \<Rightarrow> ctx \<Rightarrow> region list \<Rightarrow> 'w sched \<Rightarrow> 'w sched option" where
  "pass env c regions s =
     (let blocked = el_blocked_for (now_of s) (ec_elimit (esi_of s))
      in if 0 < blocked then Some (snd (sched_sleep c blocked (note_error_limit blocked s)))
         else
           let s1 = end_streak keyErrorLimit s
           in if 0 < paused_for (now_of s1) (ec_outage (esi_of s1)) then Some (wait_outage env c s1)
              else if below_floor (sc_budget_floor (se_cfg env)) (ec_budget (esi_of s1)) then Some (canary env c s1)
              else pass_loop env c regions s1)"

section \<open>Run\<close>

text \<open>
  The loop of \<open>Run\<close> over the instants at which its ticker fires; a tick that comes
  during a pass is received after it.
\<close>

fun tick_loop :: "'w sched_env \<Rightarrow> ctx \<Rightarrow> region list \<Rightarrow> time list \<Rightarrow> 'w sched \<Rightarrow> 'w sched option" where
  "tick_loop env c regions [] s = Some s"
| "tick_loop env c regions (t # ts) s =
     (let now = max (now_of s) t
      in if ctx_done c now then Some s
         else case pass env c regions (s\<lparr>sd_net := (sd_net s)\<lparr>nt_now := now\<rparr>\<rparr>) of
           None \<Rightarrow> None
         | Some s1 \<Rightarrow> tick_loop env c regions ts s1)"

definition sched_run ::
  "'w sched_env \<Rightarrow> ctx \<Rightarrow> region list \<Rightarrow> time list \<Rightarrow> net \<Rightarrow> 'w \<Rightarrow> (gerr option \<times> 'w sched) option" where
  "sched_run env c regions ticks n w =
     (let ordered = ordered_regions regions
      in case prime_loop env c ordered (new_sched n w) of
           None \<Rightarrow> None
         | Some (Some e, s) \<Rightarrow> Some (if ctx_done c (now_of s) then None else Some e, s)
         | Some (None, s) \<Rightarrow> map_option (Pair None) (tick_loop env c ordered ticks s))"

end
