(* ===== verification/Sched_Steps.thy ===== *)
theory Sched_Steps
  imports Scheduler
begin

text \<open>
  The scheduler as a transition system, \<open>sched_step\<close>: what it may do at all, and
  under which conditions, whatever the order of regions and attempts. The functions
  of Scheduler.thy refine it (\<open>pass_steps\<close>, \<open>sched_run_steps\<close>), so that a
  law of the scheduler is one rule induction over the steps.
\<close>

section \<open>Steps\<close>

definition gate_open :: "'w sched \<Rightarrow> bool" where
  "gate_open s \<longleftrightarrow> paused_for (now_of s) (ec_outage (esi_of s)) = 0"

inductive sched_step :: "'w sched_env \<Rightarrow> ctx \<Rightarrow> 'w sched \<Rightarrow> 'w sched \<Rightarrow> bool"
  for env :: "'w sched_env" and c :: ctx where
  wait: "now_of s \<le> t \<Longrightarrow> sched_step env c s (s\<lparr>sd_net := (sd_net s)\<lparr>nt_now := t\<rparr>\<rparr>)"
| due: "now_of s + 5 * second \<le> t \<Longrightarrow> sched_step env c s (set_due i t s)"
| draw: "sched_step env c s (s\<lparr>sd_draws := sd_draws s + 1\<rparr>)"
| ask: "sched_step env c s (snd (sched_page env rg 1 s))"
| failed: "sched_step env c s (note_failure r e out k s)"
| limited: "0 < el_blocked_for (now_of s) (ec_elimit (esi_of s)) \<Longrightarrow> sched_step env c s (note_error_limit d s)"
| unlimited: "el_blocked_for (now_of s) (ec_elimit (esi_of s)) = 0 \<Longrightarrow>
    sched_step env c s (end_streak keyErrorLimit s)"
| cycle: "gate_open s \<Longrightarrow> \<not> ctx_done c (now_of s) \<Longrightarrow>
    se_run env c r (sd_net s) (sd_rest s) = Some ((res, err), n, w) \<Longrightarrow>
    sched_step env c s (after_run r res err n w s)"
| refreshed: "gate_open s \<Longrightarrow> \<not> ctx_done c (now_of s) \<Longrightarrow>
    se_run env c r (sd_net s) (sd_rest s) = Some ((res, err), n, w) \<Longrightarrow> err = None \<Longrightarrow> rt_err res = None \<Longrightarrow>
    sched_step env c s (end_streak (rg_name r) (after_run r res err n w s))"

abbreviation sched_steps :: "'w sched_env \<Rightarrow> ctx \<Rightarrow> 'w sched \<Rightarrow> 'w sched \<Rightarrow> bool" where
  "sched_steps env c \<equiv> (sched_step env c)\<^sup>*\<^sup>*"

named_theorems sched_fields \<open>what the small operations do to the fields of the state\<close>

lemma set_due_fields [sched_fields]:
  "sd_net (set_due i t s) = sd_net s" "sd_rest (set_due i t s) = sd_rest s" "sd_ran (set_due i t s) = sd_ran s"
  "sd_events (set_due i t s) = sd_events s" "sd_reports (set_due i t s) = sd_reports s"
  "sd_due (set_due i t s) = (sd_due s)(i \<mapsto> t)"
  by (simp_all add: set_due_def)

lemma end_streak_fields [sched_fields]:
  "sd_net (end_streak k s) = sd_net s" "sd_rest (end_streak k s) = sd_rest s" "sd_ran (end_streak k s) = sd_ran s"
  "sd_events (end_streak k s) = sd_events s" "sd_due (end_streak k s) = sd_due s"
  "sd_reports (end_streak k s) = sd_reports s - {k}"
  by (simp_all add: end_streak_def streak_ends_def)

lemma note_failure_fields [sched_fields]:
  "sd_net (note_failure r e out k s) = sd_net s" "sd_rest (note_failure r e out k s) = sd_rest s"
  "sd_ran (note_failure r e out k s) = sd_ran s" "sd_due (note_failure r e out k s) = sd_due s"
  "sd_reports (note_failure r e out k s) = insert (rg_name r) (sd_reports s)"
  "sd_events (note_failure r e out k s) =
     (if rg_name r \<in> sd_reports s then sd_events s else sd_events s @ [RegionFailed r e out k])"
  by (auto simp: note_failure_def streak_first_def)

lemma note_error_limit_fields [sched_fields]:
  "sd_net (note_error_limit d s) = sd_net s" "sd_rest (note_error_limit d s) = sd_rest s"
  "sd_ran (note_error_limit d s) = sd_ran s" "sd_due (note_error_limit d s) = sd_due s"
  "sd_reports (note_error_limit d s) = insert keyErrorLimit (sd_reports s)"
  "sd_events (note_error_limit d s) =
     (if keyErrorLimit \<in> sd_reports s then sd_events s else sd_events s @ [ErrorLimitTripped d])"
  by (auto simp: note_error_limit_def streak_first_def)

lemma sched_page_fields [sched_fields]:
  "sd_rest (snd (sched_page env rg p s)) = sd_rest s" "sd_ran (snd (sched_page env rg p s)) = sd_ran s"
  "sd_events (snd (sched_page env rg p s)) = sd_events s" "sd_due (snd (sched_page env rg p s)) = sd_due s"
  "sd_reports (snd (sched_page env rg p s)) = sd_reports s"
  "sd_net (snd (sched_page env rg p s)) = snd (client_orders_page (se_codec env) (se_exchange env (sd_calls s)) rg p (sd_net s))"
  by (simp_all add: sched_page_def split: prod.split)

lemma after_run_fields [sched_fields]:
  "sd_net (after_run r res err n w s) = n" "sd_rest (after_run r res err n w s) = w"
  "sd_events (after_run r res err n w s) = sd_events s" "sd_due (after_run r res err n w s) = sd_due s"
  "sd_reports (after_run r res err n w s) = sd_reports s"
  "sd_ran (after_run r res err n w s) =
     sd_ran s @ [\<lparr>cc_region = r, cc_net = sd_net s, cc_refreshed = (err = None \<and> rt_err res = None)\<rparr>]"
  by (simp_all add: after_run_def)

lemmas sched_field_defs = sched_fields now_of_def esi_of_def

section \<open>Refinement\<close>

text \<open>Every due instant the scheduler sets is at least five seconds away.\<close>

lemma next_due_spec:
  assumes "next_due env exp s = Some (t, s')"
  shows "now_of s + 5 * second \<le> t" "s' = s \<or> s' = s\<lparr>sd_draws := sd_draws s + 1\<rparr>"
  using assms by (auto simp: next_due_def Let_def unit_defs split: if_splits)

lemma set_next_due_steps:
  assumes "set_next_due env i exp s = Some s'"
  shows "sched_steps env c s s'"
proof -
  from assms obtain t s1 where s1: "next_due env exp s = Some (t, s1)" "s' = set_due i t s1"
    by (auto simp: set_next_due_def)
  note spec = next_due_spec [OF s1(1)]
  then have "now_of s1 + 5 * second \<le> t" by (auto simp: now_of_def)
  then have last: "sched_step env c s1 s'" unfolding s1(2) by (rule due)
  from spec(2) show ?thesis
  proof
    assume "s1 = s"
    with last show ?thesis by blast
  next
    assume "s1 = s\<lparr>sd_draws := sd_draws s + 1\<rparr>"
    with draw [of env c s] have "sched_step env c s s1" by simp
    with last show ?thesis by (meson converse_rtranclp_into_rtranclp r_into_rtranclp)
  qed
qed

lemma sched_sleep_step: "sched_step env c s (snd (sched_sleep c' d s))"
proof -
  have "snd (sched_sleep c' d s) = s\<lparr>sd_net := (sd_net s)\<lparr>nt_now := snd (sleep c' d (now_of s))\<rparr>\<rparr>"
    by (simp add: sched_sleep_def split: prod.split)
  moreover have "now_of s \<le> snd (sleep c' d (now_of s))" by (rule sleep_time_mono)
  ultimately show ?thesis by (metis wait)
qed

lemma sched_sleep_net:
  "nt_esi (sd_net (snd (sched_sleep c d s))) = nt_esi (sd_net s)"
  "now_of s \<le> now_of (snd (sched_sleep c d s))"
  "fst (sched_sleep c d s) \<Longrightarrow> \<not> ctx_done c (now_of s) \<Longrightarrow> \<not> ctx_done c (now_of (snd (sched_sleep c d s)))"
  using sleep_time_mono [of "now_of s" c d]
  by (auto simp: sched_sleep_def now_of_def sleep_def split: prod.splits option.splits if_splits)

lemma gate_open_sleep: "gate_open s \<Longrightarrow> gate_open (snd (sched_sleep c d s))"
  using sched_sleep_net(2) [of s c d]
  by (simp add: gate_open_def esi_of_def sched_sleep_net(1) ogg.left_zero_iff)

text \<open>What the judgement of a cycle can be.\<close>

lemma judge_again:
  assumes "judge env c r k res err s = Some (Again d s')"
  shows "s' = s" "gate_open s" "\<not> ctx_done c (now_of s)" "k \<noteq> attempts_of (se_cfg env) r"
    "rt_outcome res \<noteq> OutcomeDeferred"
    "\<exists>cause. (err = Some cause \<or> err = None \<and> rt_err res = Some cause) \<and> \<not> is_error_limited cause \<and>
       d = region_backoff k cause"
    "el_healthy (sc_error_limit_floor (se_cfg env)) (ec_elimit (esi_of s))"
  using assms
  by (auto simp: judge_def Let_def gate_open_def retries_blocked_iff split: if_splits option.splits)

lemma judge_stop_steps:
  assumes "judge env c r k res err s = Some (Stop s')"
    and "\<not> (err = None \<and> rt_err res = None \<and> \<not> ctx_done c (now_of s))"
  shows "sched_steps env c s s'"
proof -
  let ?f = "\<lambda>cause. note_failure r cause (rt_outcome res) k s"
  have fail: "sched_steps env c s (set_due (rg_id r) (now_of s + 30 * second) (?f cause))" for cause
    using due [of "?f cause" "now_of s + 30 * second" env c "rg_id r"] failed [of env c s r cause "rt_outcome res" k]
    by (auto simp: sched_field_defs unit_defs intro: converse_rtranclp_into_rtranclp)
  show ?thesis
    using assms fail set_next_due_steps [of env "rg_id r" "sm_expires (rt_meta res)" s _ c]
    by (auto simp: judge_def Let_def split: if_splits option.splits)
qed

lemma region_loop_steps:
  assumes "region_loop env c r k s = Some s'" "gate_open s" "\<not> ctx_done c (now_of s)"
  shows "sched_steps env c s s'"
  using assms
proof (induction env c r k s rule: region_loop.induct)
  case (1 env c r k s)
  show ?case
  proof (cases "attempts_of (se_cfg env) r < k")
    case True
    with "1.prems"(1) show ?thesis by (simp add: region_loop.simps [of env c r k s])
  next
    case False
    with "1.prems"(1) obtain res err n w v where
      run: "se_run env c r (sd_net s) (sd_rest s) = Some ((res, err), n, w)" and
      j: "judge env c r k res err (after_run r res err n w s) = Some v"
      by (auto simp: region_loop.simps [of env c r k s] split: option.splits)
    let ?s = "after_run r res err n w s"
    have cyc: "sched_step env c s ?s" using "1.prems"(2,3) run by (rule cycle)
    show ?thesis
    proof (cases v)
      case (Stop s1)
      with "1.prems"(1) False run j have s': "s' = s1" by (simp add: region_loop.simps [of env c r k s])
      show ?thesis
      proof (cases "err = None \<and> rt_err res = None \<and> \<not> ctx_done c (now_of ?s)")
        case True
        then have "set_next_due env (rg_id r) (sm_expires (rt_meta res)) (end_streak (rg_name r) ?s) = Some s1"
          using j Stop by (auto simp: judge_def)
        moreover have "sched_step env c s (end_streak (rg_name r) ?s)"
          using "1.prems"(2,3) run True by (intro refreshed) auto
        ultimately show ?thesis
          using set_next_due_steps s' by (metis converse_rtranclp_into_rtranclp)
      next
        case False
        from judge_stop_steps [OF j [unfolded Stop] False] cyc s' show ?thesis
          by (metis converse_rtranclp_into_rtranclp)
      qed
    next
      case (Again d s1)
      note a = judge_again [OF j [unfolded Again]]
      obtain ok s2 where sl: "sched_sleep c d s1 = (ok, s2)" by force
      have step2: "sched_step env c ?s s2" using sched_sleep_step [of env c ?s c d] sl a(1) by simp
      have "sched_steps env c s2 s'"
      proof (cases ok)
        case True
        with "1.prems"(1) False run j Again sl have "region_loop env c r (k + 1) s2 = Some s'"
          by (simp add: region_loop.simps [of env c r k s])
        moreover have "gate_open s2" using gate_open_sleep [OF a(2), of c d] sl a(1) by simp
        moreover have "\<not> ctx_done c (now_of s2)"
          using sched_sleep_net(3) [of c d ?s] sl a(1,3) True by simp
        ultimately show ?thesis
          using "1.IH" False run j Again sl True by simp
      next
        case no: False
        with "1.prems"(1) False run j Again sl show ?thesis by (simp add: region_loop.simps [of env c r k s])
      qed
      with cyc step2 show ?thesis by (meson converse_rtranclp_into_rtranclp)
    qed
  qed
qed

lemma pass_loop_steps: "pass_loop env c rs s = Some s' \<Longrightarrow> sched_steps env c s s'"
proof (induction env c rs s rule: pass_loop.induct)
  case (2 env c r rs s)
  show ?case
  proof (cases "ctx_done c (now_of s) \<or> 0 < paused_for (now_of s) (ec_outage (esi_of s))")
    case True
    with "2.prems" show ?thesis by (auto split: if_splits)
  next
    case False
    then have open_: "gate_open s" "\<not> ctx_done c (now_of s)"
      using ogg.left_nonneg [of "now_of s" "ec_outage (esi_of s)"] by (auto simp: gate_open_def)
    show ?thesis
    proof (cases "\<exists>due. sd_due s (rg_id r) = Some due \<and> due \<le> now_of s")
      case True
      with False "2.prems" obtain s1 where s1: "run_region env c r s = Some s1" "pass_loop env c rs s1 = Some s'"
        by (auto split: option.splits)
      have "sched_steps env c s1 s'" using "2.IH"(3) True False s1 by auto
      with region_loop_steps [OF s1(1) [unfolded run_region_def] open_] show ?thesis by simp
    next
      case no: False
      with False "2.prems" have "pass_loop env c rs s = Some s'" by (auto split: option.splits)
      with no False "2.IH"(1,2) show ?thesis by (cases "sd_due s (rg_id r)") auto
    qed
  qed
qed simp

lemma probe_step: "sched_step env c s (snd (probe env s))"
proof -
  have "snd (probe env s) = snd (sched_page env r_GlobalPLEX 1 s)"
    by (simp add: probe_def split: prod.split fetched.split)
  then show ?thesis by (metis ask)
qed

theorem pass_steps:
  assumes "pass env c rs s = Some s'"
  shows "sched_steps env c s s'"
proof (cases "0 < el_blocked_for (now_of s) (ec_elimit (esi_of s))")
  case True
  let ?b = "el_blocked_for (now_of s) (ec_elimit (esi_of s))"
  from assms True have "s' = snd (sched_sleep c ?b (note_error_limit ?b s))" by (simp add: pass_def Let_def)
  with limited [OF True] sched_sleep_step show ?thesis by (metis converse_rtranclp_into_rtranclp r_into_rtranclp)
next
  case False
  then have "sched_step env c s (end_streak keyErrorLimit s)"
    using elg.left_nonneg [of "now_of s" "ec_elimit (esi_of s)"] by (intro unlimited) simp
  moreover have "sched_steps env c (end_streak keyErrorLimit s) s'"
  proof -
    let ?s = "end_streak keyErrorLimit s"
    have can: "sched_steps env c ?s (canary env c ?s)"
      using probe_step [of env c ?s] sched_sleep_step unfolding canary_def
      by (metis converse_rtranclp_into_rtranclp r_into_rtranclp)
    have out: "sched_steps env c ?s (wait_outage env c ?s)"
    proof (cases "probe env ?s")
      case (Pair ok s1)
      with probe_step [of env c ?s] have "sched_step env c ?s s1" by simp
      with Pair sched_sleep_step [of env c s1 c] show ?thesis
        by (cases ok) (auto simp: wait_outage_def intro: converse_rtranclp_into_rtranclp)
    qed
    show ?thesis
      using assms False can out pass_loop_steps [of env c rs ?s s']
      by (auto simp: pass_def Let_def split: if_splits)
  qed
  ultimately show ?thesis by (rule converse_rtranclp_into_rtranclp)
qed

lemma tick_loop_steps: "tick_loop env c rs ts s = Some s' \<Longrightarrow> sched_steps env c s s'"
proof (induction ts arbitrary: s)
  case (Cons t ts)
  let ?now = "max (now_of s) t" and ?s = "s\<lparr>sd_net := (sd_net s)\<lparr>nt_now := max (now_of s) t\<rparr>\<rparr>"
  show ?case
  proof (cases "ctx_done c ?now")
    case True
    with Cons.prems show ?thesis by simp
  next
    case False
    with Cons.prems obtain s1 where s1: "pass env c rs ?s = Some s1" "tick_loop env c rs ts s1 = Some s'"
      by (auto simp: Let_def split: option.splits)
    have "sched_step env c s ?s" by (rule wait) simp
    with pass_steps [OF s1(1)] Cons.IH [OF s1(2)] show ?thesis by (metis converse_rtranclp_into_rtranclp rtranclp_trans)
  qed
qed simp

lemma prime_loop_steps: "prime_loop env c rs s = Some (e, s') \<Longrightarrow> sched_steps env c s s'"
proof (induction rs arbitrary: s)
  case (Cons r rs)
  obtain res s1 where p: "sched_page env (rg_id r) 1 s = (res, s1)" by force
  with ask [of env c s "rg_id r"] have st: "sched_step env c s s1" by simp
  have "sched_steps env c s1 s'"
  proof (cases res)
    case (Fetched pg)
    with Cons.prems p obtain s2 where s2: "set_next_due env (rg_id r) (pg_expires pg) s1 = Some s2"
      "prime_loop env c rs s2 = Some (e, s')"
      by (auto split: option.splits)
    from set_next_due_steps [OF s2(1)] Cons.IH [OF s2(2)] show ?thesis by (rule rtranclp_trans)
  next
    case (FetchErr po err)
    have "sched_step env c s1 (set_due (rg_id r) (now_of s1 + 30 * second) s1)"
      by (rule due) (simp add: unit_defs)
    with Cons.IH Cons.prems p FetchErr show ?thesis
      by (auto split: if_splits intro: converse_rtranclp_into_rtranclp)
  qed
  with st show ?case by (rule converse_rtranclp_into_rtranclp)
qed simp

theorem sched_run_steps:
  assumes "sched_run env c rs ticks n w = Some (e, s')"
  shows "sched_steps env c (new_sched n w) s'"
proof -
  from assms obtain x s where p: "prime_loop env c (ordered_regions rs) (new_sched n w) = Some (x, s)"
    by (auto simp: sched_run_def Let_def split: option.splits)
  note steps = prime_loop_steps [OF p]
  show ?thesis
  proof (cases x)
    case (Some y)
    with assms p steps show ?thesis by (auto simp: sched_run_def Let_def)
  next
    case None
    with assms p have "tick_loop env c (ordered_regions rs) ticks s = Some s'"
      by (auto simp: sched_run_def Let_def)
    from steps tick_loop_steps [OF this] show ?thesis by (rule rtranclp_trans)
  qed
qed

end
