(* ===== verification/Sched_Laws.thy ===== *)
theory Sched_Laws
  imports Sched_Steps
begin

text \<open>
  Laws of the scheduler: those that hold along any of its steps (when a cycle may
  start, how many failures are reported), and those of one pass (which regions run, in
  which order, how often).
\<close>

section \<open>Along the steps\<close>

inductive_cases sched_stepE: "sched_step env c s s'"

text \<open>No cycle starts while the outage gate is armed, or after the context has ended.\<close>

definition call_allowed :: "ctx \<Rightarrow> cycle_call \<Rightarrow> bool" where
  "call_allowed c x \<longleftrightarrow>
     paused_for (nt_now (cc_net x)) (ec_outage (nt_esi (cc_net x))) = 0 \<and> \<not> ctx_done c (nt_now (cc_net x))"

lemma step_calls:
  assumes "sched_step env c s s'"
  shows "\<exists>new. sd_ran s' = sd_ran s @ new \<and> (\<forall>x \<in> set new. call_allowed c x)"
  using assms by cases (auto simp: sched_field_defs gate_open_def call_allowed_def)

lemma steps_calls:
  assumes "sched_steps env c s s'"
  shows "\<exists>new. sd_ran s' = sd_ran s @ new \<and> (\<forall>x \<in> set new. call_allowed c x)"
  using assms
proof (induction rule: rtranclp_induct)
  case (step a b)
  then obtain n1 n2 where "sd_ran a = sd_ran s @ n1" "sd_ran b = sd_ran a @ n2"
    "\<forall>x \<in> set n1. call_allowed c x" "\<forall>x \<in> set n2. call_allowed c x"
    using step_calls [OF step.hyps(2)] by blast
  then show ?case by (intro exI [of _ "n1 @ n2"]) auto
qed simp

text \<open>How often a region was reported to the error tracker, and how often it was refreshed.\<close>

definition is_failure_of :: "string \<Rightarrow> report \<Rightarrow> bool" where
  "is_failure_of nm e = (case e of RegionFailed r x out k \<Rightarrow> rg_name r = nm | ErrorLimitTripped d \<Rightarrow> False)"

definition failures_reported :: "string \<Rightarrow> 'w sched \<Rightarrow> nat" where
  "failures_reported nm s = length (filter (is_failure_of nm) (sd_events s))"

definition refreshes :: "string \<Rightarrow> 'w sched \<Rightarrow> nat" where
  "refreshes nm s = length (filter (\<lambda>x. rg_name (cc_region x) = nm \<and> cc_refreshed x) (sd_ran s))"

definition in_episode :: "string \<Rightarrow> 'w sched \<Rightarrow> nat" where
  "in_episode nm s = (if nm \<in> sd_reports s then 1 else 0)"

lemma step_reports:
  assumes "sched_step env c s s'" "nm \<noteq> keyErrorLimit"
  shows "failures_reported nm s' + in_episode nm s + refreshes nm s
    \<le> failures_reported nm s + in_episode nm s' + refreshes nm s'"
  using assms
  by cases (auto simp: sched_fields failures_reported_def refreshes_def in_episode_def is_failure_of_def)

lemma steps_reports:
  assumes "sched_steps env c s s'" "nm \<noteq> keyErrorLimit"
  shows "failures_reported nm s' + in_episode nm s + refreshes nm s
    \<le> failures_reported nm s + in_episode nm s' + refreshes nm s'"
  using assms(1)
proof (induction rule: rtranclp_induct)
  case (step a b)
  with step_reports [OF step.hyps(2) assms(2)] show ?case by simp
qed simp

section \<open>One region\<close>

lemma next_due_fields:
  assumes "next_due env exp s = Some (t, s')"
  shows "sd_net s' = sd_net s" "sd_ran s' = sd_ran s" "sd_due s' = sd_due s" "sd_rest s' = sd_rest s"
  using next_due_spec(2) [OF assms] by auto

lemma set_next_due_fields:
  assumes "set_next_due env i exp s = Some s'"
  shows "sd_net s' = sd_net s" "sd_ran s' = sd_ran s" "j \<noteq> i \<Longrightarrow> sd_due s' j = sd_due s j" "sd_due s' i \<noteq> None"
  using assms by (auto simp: set_next_due_def next_due_fields sched_fields)

lemma judge_stop_fields:
  assumes "judge env c r k res err s = Some (Stop s')"
  shows "sd_ran s' = sd_ran s" "j \<noteq> rg_id r \<Longrightarrow> sd_due s' j = sd_due s j"
  using assms
  by (auto simp: judge_def Let_def sched_fields set_next_due_fields split: if_splits option.splits)

lemma sched_sleep_fields:
  "sd_ran (snd (sched_sleep c d s)) = sd_ran s" "sd_due (snd (sched_sleep c d s)) = sd_due s"
  "nt_log (sd_net (snd (sched_sleep c d s))) = nt_log (sd_net s)"
  by (simp_all add: sched_sleep_def split: prod.split)

definition runs_of :: "region \<Rightarrow> int \<Rightarrow> cycle_call list \<Rightarrow> bool" where
  "runs_of r n new \<longleftrightarrow> (\<forall>x \<in> set new. cc_region x = r) \<and> int (length new) \<le> max 0 n"

lemma region_loop_ran:
  assumes "region_loop env c r k s = Some s'"
  shows "\<exists>new. sd_ran s' = sd_ran s @ new \<and> runs_of r (attempts_of (se_cfg env) r - k + 1) new \<and>
      (new \<noteq> [] \<longrightarrow> cc_net (hd new) = sd_net s)"
    "j \<noteq> rg_id r \<Longrightarrow> sd_due s' j = sd_due s j"
proof -
  have "(\<exists>new. sd_ran s' = sd_ran s @ new \<and> runs_of r (attempts_of (se_cfg env) r - k + 1) new \<and>
      (new \<noteq> [] \<longrightarrow> cc_net (hd new) = sd_net s)) \<and> (\<forall>j. j \<noteq> rg_id r \<longrightarrow> sd_due s' j = sd_due s j)"
    using assms
  proof (induction env c r k s rule: region_loop.induct)
    case (1 env c r k s)
    show ?case
    proof (cases "attempts_of (se_cfg env) r < k")
      case True
      with "1.prems" show ?thesis by (simp add: region_loop.simps [of env c r k s] runs_of_def)
    next
      case False
      with "1.prems" obtain res err n w v where
        run: "se_run env c r (sd_net s) (sd_rest s) = Some ((res, err), n, w)" and
        j: "judge env c r k res err (after_run r res err n w s) = Some v"
        by (auto simp: region_loop.simps [of env c r k s] split: option.splits)
      let ?s = "after_run r res err n w s"
      let ?call = "\<lparr>cc_region = r, cc_net = sd_net s, cc_refreshed = (err = None \<and> rt_err res = None)\<rparr>"
      have one: "\<exists>new. sd_ran t = sd_ran s @ new \<and> runs_of r (attempts_of (se_cfg env) r - k + 1) new \<and>
          (new \<noteq> [] \<longrightarrow> cc_net (hd new) = sd_net s)" if "sd_ran t = sd_ran ?s" for t :: "'a sched"
        using that False by (intro exI [of _ "[?call]"]) (simp add: sched_fields runs_of_def)
      show ?thesis
      proof (cases v)
        case (Stop s1)
        with "1.prems" False run j have s': "s' = s1" by (simp add: region_loop.simps [of env c r k s])
        from judge_stop_fields [OF j [unfolded Stop]] one s' show ?thesis by (simp add: sched_fields)
      next
        case (Again d s1)
        note a = judge_again [OF j [unfolded Again]]
        obtain ok s2 where sl: "sched_sleep c d s1 = (ok, s2)" by force
        have f2: "sd_ran s2 = sd_ran ?s" "sd_due s2 = sd_due s"
          using sched_sleep_fields [of c d ?s] sl a(1) by (simp_all add: sched_fields)
        show ?thesis
        proof (cases ok)
          case no: False
          with "1.prems" False run j Again sl have "s' = s2" by (simp add: region_loop.simps [of env c r k s])
          with f2 one show ?thesis by simp
        next
          case True
          with "1.prems" False run j Again sl have loop: "region_loop env c r (k + 1) s2 = Some s'"
            by (simp add: region_loop.simps [of env c r k s])
          have "(\<exists>new. sd_ran s' = sd_ran s2 @ new \<and> runs_of r (attempts_of (se_cfg env) r - (k + 1) + 1) new \<and>
              (new \<noteq> [] \<longrightarrow> cc_net (hd new) = sd_net s2)) \<and> (\<forall>j. j \<noteq> rg_id r \<longrightarrow> sd_due s' j = sd_due s2 j)"
            using "1.IH" [OF False run] j Again sl True loop by simp
          then obtain new where new: "sd_ran s' = sd_ran s2 @ new"
            "runs_of r (attempts_of (se_cfg env) r - (k + 1) + 1) new" "\<forall>j. j \<noteq> rg_id r \<longrightarrow> sd_due s' j = sd_due s2 j"
            by blast
          with f2 False show ?thesis
            by (intro conjI exI [of _ "?call # new"]) (auto simp: sched_fields runs_of_def)
        qed
      qed
    qed
  qed
  then show "\<exists>new. sd_ran s' = sd_ran s @ new \<and> runs_of r (attempts_of (se_cfg env) r - k + 1) new \<and>
      (new \<noteq> [] \<longrightarrow> cc_net (hd new) = sd_net s)"
    "j \<noteq> rg_id r \<Longrightarrow> sd_due s' j = sd_due s j"
    by blast+
qed

section \<open>One pass\<close>

text \<open>
  The calls of a pass over the regions \<open>rs\<close>: \<open>f r\<close> calls for region \<open>r\<close>, in the
  order of \<open>rs\<close>; a region that runs was due, and its first call starts when it is.
\<close>

definition pass_calls :: "sched_cfg \<Rightarrow> (int \<rightharpoonup> time) \<Rightarrow> region list \<Rightarrow> (region \<Rightarrow> nat) \<Rightarrow> cycle_call list \<Rightarrow> bool" where
  "pass_calls cfg due rs f new \<longleftrightarrow>
     map cc_region new = concat (map (\<lambda>r. replicate (f r) r) rs) \<and>
     (\<forall>r \<in> set rs. int (f r) \<le> max 0 (attempts_of cfg r)) \<and>
     (\<forall>r \<in> set rs. 0 < f r \<longrightarrow>
        (\<exists>x \<in> set new. \<exists>t. cc_region x = r \<and> due (rg_id r) = Some t \<and> t \<le> nt_now (cc_net x)))"

lemma pass_calls_none: "pass_calls cfg due rs (\<lambda>r. 0) []"
  by (simp add: pass_calls_def)

lemma pass_calls_cong:
  assumes "pass_calls cfg due rs f new" "\<And>r. r \<in> set rs \<Longrightarrow> g r = f r"
    "\<And>r. r \<in> set rs \<Longrightarrow> due' (rg_id r) = due (rg_id r)"
  shows "pass_calls cfg due' rs g new"
proof -
  have "map (\<lambda>r. replicate (g r) r) rs = map (\<lambda>r. replicate (f r) r) rs"
    by (rule map_cong) (simp_all add: assms(2))
  then have "concat (map (\<lambda>r. replicate (g r) r) rs) = concat (map (\<lambda>r. replicate (f r) r) rs)" by (rule arg_cong)
  moreover have "\<forall>r \<in> set rs. g r = f r \<and> due' (rg_id r) = due (rg_id r)" by (simp add: assms(2,3))
  ultimately show ?thesis using assms(1) unfolding pass_calls_def by metis
qed

lemma pass_calls_skip: "r \<notin> set rs \<Longrightarrow> pass_calls cfg due rs f new \<Longrightarrow> pass_calls cfg due (r # rs) (f(r := 0)) new"
  using pass_calls_cong [of cfg due rs f new "f(r := 0)" due]
  by (fastforce simp: pass_calls_def)

lemma pass_calls_run:
  assumes "r \<notin> set rs" "pass_calls cfg due rs f new" "runs_of r (attempts_of cfg r) mine"
    "due (rg_id r) = Some t" "mine \<noteq> [] \<longrightarrow> t \<le> nt_now (cc_net (hd mine))"
  shows "pass_calls cfg due (r # rs) (f(r := length mine)) (mine @ new)"
proof -
  let ?f = "f(r := length mine)"
  have rest: "pass_calls cfg due rs ?f new" using assms(1,2) by (intro pass_calls_cong [OF assms(2)]) auto
  have all: "map cc_region mine = replicate (length mine) r"
    using assms(3) by (intro replicate_eqI) (auto simp: runs_of_def)
  have first: "\<exists>x \<in> set mine. cc_region x = r \<and> t \<le> nt_now (cc_net x)" if "mine \<noteq> []"
    using that assms(3,5) by (intro bexI [of _ "hd mine"]) (auto simp: runs_of_def)
  show ?thesis
    unfolding pass_calls_def
  proof (intro conjI)
    show "map cc_region (mine @ new) = concat (map (\<lambda>q. replicate (?f q) q) (r # rs))"
      using rest all by (simp add: pass_calls_def)
    show "\<forall>q \<in> set (r # rs). int (?f q) \<le> max 0 (attempts_of cfg q)"
      using rest assms(3) by (simp add: pass_calls_def runs_of_def)
    show "\<forall>q \<in> set (r # rs). 0 < ?f q \<longrightarrow>
        (\<exists>x \<in> set (mine @ new). \<exists>t. cc_region x = q \<and> due (rg_id q) = Some t \<and> t \<le> nt_now (cc_net x))"
    proof (intro ballI impI)
      fix q assume q: "q \<in> set (r # rs)" "0 < ?f q"
      show "\<exists>x \<in> set (mine @ new). \<exists>t. cc_region x = q \<and> due (rg_id q) = Some t \<and> t \<le> nt_now (cc_net x)"
      proof (cases "q = r")
        case True
        with q(2) have "mine \<noteq> []" by simp
        from first [OF this] assms(4) True show ?thesis by auto
      next
        case False
        with q rest have "\<exists>x \<in> set new. \<exists>t. cc_region x = q \<and> due (rg_id q) = Some t \<and> t \<le> nt_now (cc_net x)"
          unfolding pass_calls_def by (metis set_ConsD)
        then show ?thesis by auto
      qed
    qed
  qed
qed

lemma pass_loop_calls:
  assumes "pass_loop env c rs s = Some s'" "distinct (map rg_id rs)"
  shows "\<exists>f new. sd_ran s' = sd_ran s @ new \<and> pass_calls (se_cfg env) (sd_due s) rs f new"
  using assms
proof (induction env c rs s rule: pass_loop.induct)
  case (1 env c s)
  then show ?case using pass_calls_none by fastforce
next
  case (2 env c r rs s)
  have r: "r \<notin> set rs" "\<And>q. q \<in> set rs \<Longrightarrow> rg_id q \<noteq> rg_id r"
    using "2.prems"(2) by (auto simp: image_iff)
  show ?case
  proof (cases "ctx_done c (now_of s) \<or> 0 < paused_for (now_of s) (ec_outage (esi_of s))")
    case True
    with "2.prems" have "s' = s" by (auto split: if_splits)
    then show ?thesis using pass_calls_none by fastforce
  next
    case False
    show ?thesis
    proof (cases "\<exists>due. sd_due s (rg_id r) = Some due \<and> due \<le> now_of s")
      case True
      with False "2.prems" obtain t s1 where s1: "run_region env c r s = Some s1" "pass_loop env c rs s1 = Some s'"
        and t: "sd_due s (rg_id r) = Some t" "t \<le> now_of s"
        by (auto split: option.splits)
      note mine = region_loop_ran [OF s1(1) [unfolded run_region_def]]
      obtain m where m: "sd_ran s1 = sd_ran s @ m" "runs_of r (attempts_of (se_cfg env) r) m"
        "m \<noteq> [] \<longrightarrow> cc_net (hd m) = sd_net s" using mine(1) by auto
      obtain f new where n: "sd_ran s' = sd_ran s1 @ new" "pass_calls (se_cfg env) (sd_due s1) rs f new"
        using "2.IH"(3) True False s1 "2.prems"(2) by fastforce
      have "pass_calls (se_cfg env) (sd_due s) rs f new"
        using n(2) mine(2) r(2) by (intro pass_calls_cong [OF n(2)]) auto
      from pass_calls_run [OF r(1) this m(2) t(1)] m(3) t(2) m(1) n(1) show ?thesis
        by (auto simp: now_of_def)
    next
      case no: False
      with False "2.prems" have "pass_loop env c rs s = Some s'" by (auto split: option.splits)
      with no False "2.IH"(1,2) "2.prems"(2)
      have "\<exists>f new. sd_ran s' = sd_ran s @ new \<and> pass_calls (se_cfg env) (sd_due s) rs f new"
        by (cases "sd_due s (rg_id r)") auto
      with pass_calls_skip [OF r(1)] show ?thesis by blast
    qed
  qed
qed

text \<open>The four courses of a pass.\<close>

lemma pass_cases:
  assumes "pass env c rs s = Some s'"
  obtains
    (blocked) "0 < el_blocked_for (now_of s) (ec_elimit (esi_of s))"
      "s' = snd (sched_sleep c (el_blocked_for (now_of s) (ec_elimit (esi_of s)))
             (note_error_limit (el_blocked_for (now_of s) (ec_elimit (esi_of s))) s))"
  | (outage) "el_blocked_for (now_of s) (ec_elimit (esi_of s)) = 0" "\<not> gate_open s"
      "s' = wait_outage env c (end_streak keyErrorLimit s)"
  | (floor) "el_blocked_for (now_of s) (ec_elimit (esi_of s)) = 0" "gate_open s"
      "below_floor (sc_budget_floor (se_cfg env)) (ec_budget (esi_of s))" "s' = canary env c (end_streak keyErrorLimit s)"
  | (work) "el_blocked_for (now_of s) (ec_elimit (esi_of s)) = 0" "gate_open s"
      "\<not> below_floor (sc_budget_floor (se_cfg env)) (ec_budget (esi_of s))"
      "pass_loop env c rs (end_streak keyErrorLimit s) = Some s'"
proof -
  have nn: "0 \<le> el_blocked_for (now_of s) (ec_elimit (esi_of s))" "0 \<le> paused_for (now_of s) (ec_outage (esi_of s))"
    by (simp_all add: elg.left_nonneg ogg.left_nonneg)
  have same: "now_of (end_streak keyErrorLimit s) = now_of s" "esi_of (end_streak keyErrorLimit s) = esi_of s"
    by (simp_all add: sched_field_defs)
  from assms nn same that show thesis
    by (auto simp: pass_def Let_def gate_open_def split: if_splits)
qed

text \<open>The one request a pass makes when it holds back, and what it leaves alone.\<close>

lemma probe_fields:
  "sd_ran (snd (probe env s)) = sd_ran s"
  "\<exists>new. nt_log (sd_net (snd (probe env s))) = nt_log (sd_net s) @ new \<and> length new \<le> 1 \<and>
     (\<forall>e \<in> set new. fst e = orders_path r_GlobalPLEX 1)"
proof -
  have "snd (probe env s) = snd (sched_page env r_GlobalPLEX 1 s)"
    by (simp add: probe_def split: prod.split fetched.split)
  then show "sd_ran (snd (probe env s)) = sd_ran s"
    "\<exists>new. nt_log (sd_net (snd (probe env s))) = nt_log (sd_net s) @ new \<and> length new \<le> 1 \<and>
     (\<forall>e \<in> set new. fst e = orders_path r_GlobalPLEX 1)"
    using orders_page_log by (simp_all add: sched_fields)
qed

lemma hold_back_fields:
  assumes "s' = canary env c s \<or> s' = wait_outage env c s"
  shows "sd_ran s' = sd_ran s"
    "\<exists>new. nt_log (sd_net s') = nt_log (sd_net s) @ new \<and> length new \<le> 1 \<and>
       (\<forall>e \<in> set new. fst e = orders_path r_GlobalPLEX 1)"
proof -
  obtain ok s1 where p: "probe env s = (ok, s1)" by force
  have "sd_ran s' = sd_ran s1 \<and> nt_log (sd_net s') = nt_log (sd_net s1)"
    using assms p by (auto simp: canary_def wait_outage_def sched_sleep_fields split: bool.splits)
  with p probe_fields [of env s] show "sd_ran s' = sd_ran s"
    "\<exists>new. nt_log (sd_net s') = nt_log (sd_net s) @ new \<and> length new \<le> 1 \<and>
       (\<forall>e \<in> set new. fst e = orders_path r_GlobalPLEX 1)"
    by simp_all
qed

lemma sorted_concat_replicate:
  "sorted (map g rs) \<Longrightarrow> sorted (map g (concat (map (\<lambda>r. replicate (f r) r) rs)))"
  by (induction rs) (auto simp: sorted_append)

lemma set_next_due_total:
  assumes "0 < wrap64 (sc_max_jitter (se_cfg env) + 1)"
  shows "\<exists>s'. set_next_due env i exp s = Some s'"
proof (cases "exp = zero_time")
  case True
  then show ?thesis by (simp add: set_next_due_def next_due_def)
next
  case False
  with assms show ?thesis by (simp add: set_next_due_def next_due_def Let_def)
qed

section \<open>Priming\<close>

lemma set_next_due_instant:
  assumes "set_next_due env i exp s = Some s'"
  shows "\<exists>t. sd_due s' i = Some t \<and> now_of s + 5 * second \<le> t"
  using assms next_due_spec(1) [of env exp s] by (auto simp: set_next_due_def sched_fields)

lemma prime_loop_effect:
  assumes "prime_loop env c rs s = Some (None, s')"
  shows "sd_ran s' = sd_ran s"
    "\<And>i. i \<notin> rg_id ` set rs \<Longrightarrow> sd_due s' i = sd_due s i"
    "\<And>r. r \<in> set rs \<Longrightarrow> \<exists>t. sd_due s' (rg_id r) = Some t \<and> now_of s + 5 * second \<le> t"
    "\<exists>new. nt_log (sd_net s') = nt_log (sd_net s) @ new \<and> length new \<le> length rs \<and>
       (\<forall>e \<in> set new. \<exists>r \<in> set rs. fst e = orders_path (rg_id r) 1)"
proof -
  have "sd_ran s' = sd_ran s \<and> (\<forall>i. i \<notin> rg_id ` set rs \<longrightarrow> sd_due s' i = sd_due s i) \<and>
    (\<forall>r \<in> set rs. \<exists>t. sd_due s' (rg_id r) = Some t \<and> now_of s + 5 * second \<le> t) \<and>
    (\<exists>new. nt_log (sd_net s') = nt_log (sd_net s) @ new \<and> length new \<le> length rs \<and>
       (\<forall>e \<in> set new. \<exists>r \<in> set rs. fst e = orders_path (rg_id r) 1))"
    using assms
  proof (induction rs arbitrary: s)
    case Nil
    then show ?case by simp
  next
    case (Cons r rs)
    obtain res s1 where p: "sched_page env (rg_id r) 1 s = (res, s1)" by force
    have page: "sd_ran s1 = sd_ran s" "sd_due s1 = sd_due s" "now_of s \<le> now_of s1"
      using p sched_page_fields [of env "rg_id r" 1 s] orders_page_time by (auto simp: now_of_def)
    obtain l1 where l1: "nt_log (sd_net s1) = nt_log (sd_net s) @ l1" "length l1 \<le> 1"
      "\<forall>e \<in> set l1. fst e = orders_path (rg_id r) 1"
      using p sched_page_fields [of env "rg_id r" 1 s] orders_page_log by (metis snd_conv)
    have "\<exists>s2 t. prime_loop env c rs s2 = Some (None, s') \<and> sd_ran s2 = sd_ran s1 \<and> sd_net s2 = sd_net s1 \<and>
        sd_due s2 (rg_id r) = Some t \<and> now_of s1 + 5 * second \<le> t \<and> (\<forall>j. j \<noteq> rg_id r \<longrightarrow> sd_due s2 j = sd_due s1 j)"
    proof (cases res)
      case (Fetched pg)
      with Cons.prems p obtain s2 where s2: "set_next_due env (rg_id r) (pg_expires pg) s1 = Some s2"
        "prime_loop env c rs s2 = Some (None, s')"
        by (auto split: option.splits)
      with set_next_due_fields [OF s2(1)] set_next_due_instant [OF s2(1)] show ?thesis by blast
    next
      case (FetchErr po err)
      with Cons.prems p have "prime_loop env c rs (set_due (rg_id r) (now_of s1 + 30 * second) s1) = Some (None, s')"
        by (auto split: if_splits)
      then show ?thesis by (intro exI) (auto simp: sched_fields unit_defs)
    qed
    then obtain s2 t where s2: "prime_loop env c rs s2 = Some (None, s')" "sd_ran s2 = sd_ran s1" "sd_net s2 = sd_net s1"
      "sd_due s2 (rg_id r) = Some t" "now_of s1 + 5 * second \<le> t" "\<forall>j. j \<noteq> rg_id r \<longrightarrow> sd_due s2 j = sd_due s1 j"
      by blast
    note ih = Cons.IH [OF s2(1)]
    have now2: "now_of s \<le> now_of s2" using page(3) s2(3) by (simp add: now_of_def)
    obtain l2 where l2: "nt_log (sd_net s') = nt_log (sd_net s2) @ l2" "length l2 \<le> length rs"
      "\<forall>e \<in> set l2. \<exists>r \<in> set rs. fst e = orders_path (rg_id r) 1" using ih by blast
    have logs: "\<exists>new. nt_log (sd_net s') = nt_log (sd_net s) @ new \<and> length new \<le> length (r # rs) \<and>
       (\<forall>e \<in> set new. \<exists>r \<in> set (r # rs). fst e = orders_path (rg_id r) 1)"
      using l1 l2 s2(3) by (intro exI [of _ "l1 @ l2"]) auto
    have dues: "\<exists>t. sd_due s' (rg_id q) = Some t \<and> now_of s + 5 * second \<le> t" if "q \<in> set (r # rs)" for q
    proof (cases "rg_id q \<in> rg_id ` set rs")
      case True
      then obtain q' where "q' \<in> set rs" "rg_id q' = rg_id q" by auto
      with ih now2 show ?thesis by (metis add_right_mono order_trans)
    next
      case False
      with that have "q = r" by auto
      with False ih s2(4,5) page(3) show ?thesis by auto
    qed
    show ?case
      using ih dues logs s2(2,6) page(1,2) by auto
  qed
  then show "sd_ran s' = sd_ran s"
    "\<And>i. i \<notin> rg_id ` set rs \<Longrightarrow> sd_due s' i = sd_due s i"
    "\<And>r. r \<in> set rs \<Longrightarrow> \<exists>t. sd_due s' (rg_id r) = Some t \<and> now_of s + 5 * second \<le> t"
    "\<exists>new. nt_log (sd_net s') = nt_log (sd_net s) @ new \<and> length new \<le> length rs \<and>
       (\<forall>e \<in> set new. \<exists>r \<in> set rs. fst e = orders_path (rg_id r) 1)"
    by blast+
qed

end
