(* ===== verification/Sched_Props.thy ===== *)
theory Sched_Props
  imports Sched_Laws
begin

text \<open>The properties of the scheduler, each with a concrete case.\<close>

section \<open>A concrete scheduler\<close>

text \<open>Two regions, and a cycle that refreshes its region at once.\<close>

definition demo_sched_cfg :: sched_cfg where
  "demo_sched_cfg = \<lparr>sc_max_jitter = 5 * second, sc_canary_interval = minute, sc_max_attempts = 3,
     sc_error_limit_floor = 20, sc_budget_floor = 1000\<rparr>"

definition demo_far :: region where
  "demo_far = \<lparr>rg_id = 4, rg_name = ''Far'', rg_priority = 6\<rparr>"

definition demo_near :: region where
  "demo_near = \<lparr>rg_id = 9, rg_name = ''Near'', rg_priority = 1\<rparr>"

definition demo_ok_run :: "ctx \<Rightarrow> region \<Rightarrow> net \<Rightarrow> unit \<Rightarrow> ((cycle_result \<times> gerr option) \<times> net \<times> unit) option" where
  "demo_ok_run c r n w = Some (((result_init r)\<lparr>rt_outcome := OutcomeOK\<rparr>, None), n, w)"

text \<open>A cycle that fails before it has sent anything.\<close>

definition demo_bad_run :: "ctx \<Rightarrow> region \<Rightarrow> net \<Rightarrow> unit \<Rightarrow> ((cycle_result \<times> gerr option) \<times> net \<times> unit) option" where
  "demo_bad_run c r n w = Some (((result_init r)\<lparr>rt_err := Some (EText ''boom'')\<rparr>, None), n, w)"

definition demo_no_codec :: codec where
  "demo_no_codec = \<lparr>cd_http_time = (\<lambda>s. None), cd_orders = (\<lambda>s. Inr [])\<rparr>"

definition demo_senv :: "(ctx \<Rightarrow> region \<Rightarrow> net \<Rightarrow> unit \<Rightarrow> ((cycle_result \<times> gerr option) \<times> net \<times> unit) option)
    \<Rightarrow> unit sched_env" where
  "demo_senv run = \<lparr>se_run = run, se_codec = demo_no_codec,
     se_exchange = (\<lambda>k. \<lparr>ex_wait = millisecond, ex_outcome = Answered 200 (\<lambda>h. []) ''''\<rparr>),
     se_draw = (\<lambda>k. 7 * second), se_cfg = demo_sched_cfg\<rparr>"

definition demo_snet :: net where
  "demo_snet = \<lparr>nt_now = 64000000000000000000, nt_esi = esi_client_init, nt_log = []\<rparr>"

definition demo_sched :: "unit sched" where
  "demo_sched = (new_sched demo_snet ())\<lparr>sd_due := [4 \<mapsto> 63000000000000000000, 9 \<mapsto> 63000000000000000000]\<rparr>"

lemmas demo_sched_simps = demo_sched_cfg_def demo_far_def demo_near_def demo_ok_run_def demo_bad_run_def
  demo_no_codec_def demo_senv_def demo_snet_def demo_sched_def new_sched_def now_of_def esi_of_def
  el_blocked_for_def paused_for_def time_sub_def sat64_def esi_client_init_def outage_init_def el_init_def budget_init_def
  zero_time_def end_streak_def streak_ends_def below_floor_def run_region_def region_loop.simps attempts_of_def
  can_retry_def RetryMaxPriority_def judge_def after_run_def result_init_def set_next_due_def next_due_def
  meta_init_def set_due_def unit_defs keyErrorLimit_def pass_def

lemma demo_ordered: "ordered_regions [demo_far, demo_near] = [demo_near, demo_far]"
  by (simp add: ordered_regions_def demo_far_def demo_near_def less_eq_prod_def)

lemma demo_pass:
  "\<exists>s'. pass (demo_senv demo_ok_run) None (ordered_regions [demo_far, demo_near]) demo_sched = Some s' \<and>
     map cc_region (sd_ran s') = [demo_near, demo_far]"
  by (simp add: demo_ordered) (simp add: demo_sched_simps Let_def)

section \<open>Properties\<close>

text \<open>
  C32: one pass runs the regions that are due in the order of their priority, then of
  their identifier, and each at most as often as its retry rule allows: a region outside
  priorities 1 to 4 at most once, any other at most \<open>MaxAttempts\<close> times. A region
  that runs was due when its first attempt started.
\<close>
theorem pass_in_priority_order:
  assumes "pass env c (ordered_regions regions) s = Some s'" "distinct (map rg_id regions)"
  shows "\<exists>f new. sd_ran s' = sd_ran s @ new \<and>
    pass_calls (se_cfg env) (sd_due s) (ordered_regions regions) f new \<and>
    sorted (map (\<lambda>x. (rg_priority (cc_region x), rg_id (cc_region x))) new)"
proof -
  let ?rs = "ordered_regions regions" and ?key = "\<lambda>r. (rg_priority r, rg_id r)"
  have "mset (map rg_id ?rs) = mset (map rg_id regions)" by (simp add: ordered_regions_def)
  with assms(2) have dist: "distinct (map rg_id ?rs)" by (metis mset_eq_imp_distinct_iff)
  let ?goal = "\<exists>f new. sd_ran s' = sd_ran s @ new \<and> pass_calls (se_cfg env) (sd_due s) ?rs f new"
  have none: ?goal if "sd_ran s' = sd_ran s"
    using that pass_calls_none by (intro exI [of _ "\<lambda>r. 0"] exI [of _ "[]"]) simp
  have "?goal"
  proof (cases rule: pass_cases [OF assms(1), case_names blocked outage floor work])
    case work
    from pass_loop_calls [OF work(4) dist] show ?thesis by (simp add: sched_fields)
  next
    case blocked
    show ?thesis by (rule none) (simp add: blocked(2) sched_sleep_fields sched_fields)
  next
    case outage
    from hold_back_fields(1) [OF disjI2 [OF outage(3)]] show ?thesis by (intro none) (simp add: sched_fields)
  next
    case floor
    from hold_back_fields(1) [OF disjI1 [OF floor(4)]] show ?thesis by (intro none) (simp add: sched_fields)
  qed
  then obtain f new where new: "sd_ran s' = sd_ran s @ new" "pass_calls (se_cfg env) (sd_due s) ?rs f new" by blast
  have "sorted (map ?key ?rs)" by (simp add: ordered_regions_def)
  from sorted_concat_replicate [OF this, of f] new(2) have "sorted (map ?key (map cc_region new))"
    by (simp add: pass_calls_def)
  then have "sorted (map (\<lambda>x. (rg_priority (cc_region x), rg_id (cc_region x))) new)" by (simp add: comp_def)
  with new show ?thesis by blast
qed

theorem pass_in_priority_order_witness:
  "\<exists>s'. pass (demo_senv demo_ok_run) None (ordered_regions [demo_far, demo_near]) demo_sched = Some s' \<and>
     sorted (map (\<lambda>x. (rg_priority (cc_region x), rg_id (cc_region x))) (sd_ran s')) \<and> length (sd_ran s') = 2"
proof -
  obtain s' where s': "pass (demo_senv demo_ok_run) None (ordered_regions [demo_far, demo_near]) demo_sched = Some s'"
    "map cc_region (sd_ran s') = [demo_near, demo_far]" using demo_pass by (elim exE conjE) (rule that)
  have "distinct (map rg_id [demo_far, demo_near])" by (simp add: demo_far_def demo_near_def)
  from pass_in_priority_order [OF s'(1) this] obtain new where
    "sd_ran s' = sd_ran demo_sched @ new" "sorted (map (\<lambda>x. (rg_priority (cc_region x), rg_id (cc_region x))) new)"
    by blast
  moreover have "sd_ran demo_sched = []" by (simp add: demo_sched_def new_sched_def)
  ultimately have "sorted (map (\<lambda>x. (rg_priority (cc_region x), rg_id (cc_region x))) (sd_ran s'))"
    by (simp only: append_Nil)
  moreover have "length (sd_ran s') = length [demo_near, demo_far]" using s'(2) by (metis length_map)
  ultimately show ?thesis using s'(1) by auto
qed

text \<open>
  C16: from its start to whenever one looks, the scheduler has started no cycle while the
  outage gate was armed, not even a retry or a later region of a pass during which the
  gate was armed; and none after shutdown.
\<close>
theorem no_cycle_in_outage:
  assumes "sched_run env c regions ticks n w = Some (e, s)" "x \<in> set (sd_ran s)"
  shows "paused_for (nt_now (cc_net x)) (ec_outage (nt_esi (cc_net x))) = 0 \<and> \<not> ctx_done c (nt_now (cc_net x))"
  using steps_calls [OF sched_run_steps [OF assms(1)]] assms(2) by (auto simp: new_sched_def call_allowed_def)

lemmas demo_request_simps = sched_page_def client_orders_page_def get_json_def client_get_def read_response_def
  header_int_def parse_http_time_def page_of_def observe_response_def outage_observe_def max_page_bytes_def atoi_def

lemma demo_prime:
  "\<exists>s. prime_loop (demo_senv run) None [demo_near, demo_far] (new_sched demo_snet ()) = Some (None, s) \<and>
     now_of s = 64000000000002000000 \<and> sd_due s = [9 \<mapsto> 64000000300001000000, 4 \<mapsto> 64000000300002000000] \<and>
     nt_esi (sd_net s) = esi_client_init \<and> sd_ran s = [] \<and> sd_events s = [] \<and> sd_reports s = {}"
  by (simp add: demo_request_simps demo_sched_simps Let_def)

lemma demo_service:
  "\<exists>s x y. sched_run (demo_senv demo_ok_run) None [demo_far, demo_near] [64000000400000000000] demo_snet () = Some (None, s) \<and>
     sd_ran s = [x, y] \<and> cc_region x = demo_near \<and> nt_now (cc_net x) = 64000000400000000000"
  by (simp add: sched_run_def demo_ordered) (simp add: demo_request_simps demo_sched_simps Let_def)

theorem no_cycle_in_outage_witness:
  "\<exists>s x. sched_run (demo_senv demo_ok_run) None [demo_far, demo_near] [64000000400000000000] demo_snet () = Some (None, s) \<and>
     x \<in> set (sd_ran s) \<and> paused_for (nt_now (cc_net x)) (ec_outage (nt_esi (cc_net x))) = 0"
proof -
  obtain s x y where s: "sched_run (demo_senv demo_ok_run) None [demo_far, demo_near] [64000000400000000000] demo_snet () = Some (None, s)"
    "sd_ran s = [x, y]"
    using demo_service by (elim exE conjE) (rule that)
  then have x: "x \<in> set (sd_ran s)" by simp
  from no_cycle_in_outage [OF s(1) x] s(1) x show ?thesis by (intro exI [of _ s] exI [of _ x]) simp
qed

text \<open>
  C18: one event per run of failures. While a region's failures have been reported and no
  cycle of it has succeeded since, nothing more is sent about it, however many ticks pass:
  the events sent about a region never outnumber the refreshes of it in the same time.
\<close>
theorem one_event_per_run_of_failures:
  assumes "tick_loop env c regions ticks s = Some s'" "nm \<in> sd_reports s" "nm \<noteq> keyErrorLimit"
  shows "failures_reported nm s' + refreshes nm s \<le> failures_reported nm s + refreshes nm s'"
  using steps_reports [OF tick_loop_steps [OF assms(1)] assms(3)] assms(2)
  by (simp add: in_episode_def split: if_splits)

text \<open>The near region fails three times in a row, is reported, and fails again.\<close>

definition demo_failed :: "unit sched" where
  "demo_failed = demo_sched\<lparr>sd_reports := {''Near''}, sd_events := [RegionFailed demo_near (EText ''boom'') OutcomeFailed 3]\<rparr>"

lemma demo_fails_again:
  "\<exists>s'. tick_loop (demo_senv demo_bad_run) None [demo_near] [64000000000000000000] demo_failed = Some s' \<and>
     map cc_refreshed (sd_ran s') = [False, False, False] \<and> sd_events s' = sd_events demo_failed"
  by (simp add: demo_failed_def demo_sched_simps Let_def note_failure_def streak_first_def outcome_defs
      is_error_limited_def as_http_def retries_blocked_def el_healthy_def region_backoff_def retry_after_def sched_sleep_def sleep_def)

theorem one_event_per_run_of_failures_witness:
  "\<exists>s'. tick_loop (demo_senv demo_bad_run) None [demo_near] [64000000000000000000] demo_failed = Some s' \<and>
     failures_reported ''Near'' s' \<le> 1"
proof -
  obtain s' where s': "tick_loop (demo_senv demo_bad_run) None [demo_near] [64000000000000000000] demo_failed = Some s'"
    "map cc_refreshed (sd_ran s') = [False, False, False]"
    using demo_fails_again by (elim exE conjE) (rule that)
  then obtain x y z where "sd_ran s' = [x, y, z]" "\<not> cc_refreshed x" "\<not> cc_refreshed y" "\<not> cc_refreshed z" by auto
  then have none: "refreshes ''Near'' s' = 0" by (simp add: refreshes_def)
  have "''Near'' \<in> sd_reports demo_failed" "''Near'' \<noteq> keyErrorLimit" by (simp_all add: demo_failed_def keyErrorLimit_def)
  from one_event_per_run_of_failures [OF s'(1) this] none
  have "failures_reported ''Near'' s' \<le> failures_reported ''Near'' demo_failed" by simp
  also have "\<dots> = 1" by (simp add: demo_failed_def failures_reported_def is_failure_of_def demo_near_def)
  finally show ?thesis using s'(1) by (intro exI conjI)
qed

text \<open>
  C33: a pass that must hold back starts no cycle, and spends at most one request, for the
  one page of the global PLEX market, where it spends any: none at all while the error
  limit blocks, one while the outage gate is armed or the token budget is below its floor.
\<close>
theorem pass_holds_back:
  assumes "pass env c regions s = Some s'"
    "0 < el_blocked_for (now_of s) (ec_elimit (esi_of s)) \<or> 0 < paused_for (now_of s) (ec_outage (esi_of s)) \<or>
     below_floor (sc_budget_floor (se_cfg env)) (ec_budget (esi_of s))"
  shows "sd_ran s' = sd_ran s \<and>
    (\<exists>new. nt_log (sd_net s') = nt_log (sd_net s) @ new \<and>
       length new \<le> (if 0 < el_blocked_for (now_of s) (ec_elimit (esi_of s)) then 0 else 1) \<and>
       (\<forall>e \<in> set new. fst e = orders_path r_GlobalPLEX 1))"
proof (cases rule: pass_cases [OF assms(1), case_names blocked outage floor work])
  case blocked
  show ?thesis by (simp add: blocked(2) sched_sleep_fields sched_fields)
next
  case outage
  from hold_back_fields [OF disjI2 [OF outage(3)]] outage(1) show ?thesis by (simp add: sched_fields)
next
  case floor
  from hold_back_fields [OF disjI1 [OF floor(4)]] floor(1) show ?thesis by (simp add: sched_fields)
next
  case work
  with assms(2) show ?thesis by (simp add: gate_open_def)
qed

definition demo_blocked :: "unit sched" where
  "demo_blocked = demo_sched\<lparr>sd_net := demo_snet\<lparr>nt_esi := esi_client_init\<lparr>ec_elimit :=
     el_block 64000000000000000000 minute el_init\<rparr>\<rparr>\<rparr>"

theorem pass_holds_back_witness:
  "\<exists>s'. pass (demo_senv demo_ok_run) None [demo_near] demo_blocked = Some s' \<and> sd_ran s' = [] \<and> nt_log (sd_net s') = []"
proof -
  have b: "0 < el_blocked_for (now_of demo_blocked) (ec_elimit (esi_of demo_blocked))"
    using el_block_arms [of 64000000000000000000 minute el_init]
    by (simp add: demo_blocked_def now_of_def esi_of_def demo_snet_def)
  then obtain s' where s': "pass (demo_senv demo_ok_run) None [demo_near] demo_blocked = Some s'"
    by (simp add: pass_def Let_def)
  from pass_holds_back [OF s' disjI1 [OF b]] b s'
  have "sd_ran s' = sd_ran demo_blocked" "nt_log (sd_net s') = nt_log (sd_net demo_blocked)" by auto
  with s' show ?thesis
    by (intro exI [of _ s']) (simp add: demo_blocked_def demo_sched_def new_sched_def demo_snet_def)
qed

text \<open>
  C34: when a region is next due. Never within the next five seconds, however stale its
  \<open>Expires\<close>; never before that instant has passed by a second; and no later than the
  jitter allows. A missing \<open>Expires\<close> means five minutes.
\<close>
theorem next_due_bounds:
  assumes "next_due env exp s = Some (t, s')" "0 \<le> sc_max_jitter (se_cfg env)"
    "sc_max_jitter (se_cfg env) < 2 ^ 63 - 1"
  shows "now_of s + 5 * second \<le> t \<and> (exp \<noteq> zero_time \<longrightarrow> exp + second \<le> t) \<and>
    t \<le> (if exp = zero_time then now_of s + 5 * minute
         else max (now_of s + 5 * second) (exp + second + sc_max_jitter (se_cfg env)))"
proof -
  let ?n = "sc_max_jitter (se_cfg env) + 1"
  have n: "wrap64 ?n = ?n" using assms(2,3) by (intro wrap64_id) (simp add: int64_ok_def)
  have "0 \<le> se_draw env (sd_draws s) mod ?n" "se_draw env (sd_draws s) mod ?n \<le> sc_max_jitter (se_cfg env)"
    using assms(2) pos_mod_bound [of ?n "se_draw env (sd_draws s)"] by auto
  with assms(1) show ?thesis
    by (auto simp: next_due_def Let_def n unit_defs split: if_splits)
qed

theorem next_due_bounds_witness:
  "\<exists>t s'. next_due (demo_senv demo_ok_run) 64000000000100000000 demo_sched = Some (t, s') \<and>
     now_of demo_sched + 5 * second \<le> t \<and> t \<le> 64000000000100000000 + 6 * second"
proof -
  obtain t s' where t: "next_due (demo_senv demo_ok_run) 64000000000100000000 demo_sched = Some (t, s')"
    by (simp add: demo_sched_simps Let_def wrap64_def)
  have "0 \<le> sc_max_jitter (se_cfg (demo_senv demo_ok_run))" "sc_max_jitter (se_cfg (demo_senv demo_ok_run)) < 2 ^ 63 - 1"
    by (simp_all add: demo_senv_def demo_sched_cfg_def unit_defs)
  from next_due_bounds [OF t this] t show ?thesis
    by (intro exI [of _ t] exI [of _ s']) (simp add: demo_sched_simps max_def)
qed



text \<open>
  Priming. When \<open>prime\<close> succeeds it has swept nothing and sent at most one
  request per region, for its first page, and every region has an instant to be fetched
  at that is in the future.
\<close>
theorem prime_schedules_every_region:
  assumes "prime_loop env c regions s = Some (None, s')"
  shows "sd_ran s' = sd_ran s \<and>
    (\<forall>r \<in> set regions. \<exists>t. sd_due s' (rg_id r) = Some t \<and> now_of s + 5 * second \<le> t) \<and>
    (\<exists>new. nt_log (sd_net s') = nt_log (sd_net s) @ new \<and> length new \<le> length regions \<and>
       (\<forall>e \<in> set new. \<exists>r \<in> set regions. fst e = orders_path (rg_id r) 1))"
  using prime_loop_effect [OF assms] by simp

theorem prime_schedules_every_region_witness:
  "\<exists>s t. prime_loop (demo_senv demo_ok_run) None [demo_near, demo_far] (new_sched demo_snet ()) = Some (None, s) \<and>
     sd_due s 9 = Some t \<and> sd_ran s = []"
proof -
  obtain s where s: "prime_loop (demo_senv demo_ok_run) None [demo_near, demo_far] (new_sched demo_snet ()) = Some (None, s)"
    using demo_prime [of demo_ok_run] by (elim exE conjE) (rule that)
  have "demo_near \<in> set [demo_near, demo_far]" by simp
  with prime_schedules_every_region [OF s] obtain t where "sd_due s (rg_id demo_near) = Some t"
    "sd_ran s = sd_ran (new_sched demo_snet ())" by blast
  with s show ?thesis by (intro exI [of _ s] exI [of _ t]) (simp add: demo_near_def new_sched_def)
qed

end
