(* ===== verification/Service.thy ===== *)
theory Service
  imports Sched_Steps Cycle_Snapshot
begin

text \<open>
  The scheduler over the cycle: the interface \<open>cycleRunner\<close> of scheduler.go as a
  locale, what the scheduler keeps of any runner with its laws, and the runner that
  \<open>Cycle.Run\<close> provides.
\<close>

section \<open>The contract\<close>

text \<open>
  \<open>ok\<close> is the runner's invariant and \<open>live w i\<close> what readers see of region
  \<open>i\<close>. A run keeps the invariant, leaves every other region alone, and lets time pass;
  \<open>good w i\<close> is a quality of a region's rows that a run gives them whenever it changes
  them.
\<close>

locale cycle_runner =
  fixes run :: "ctx \<Rightarrow> region \<Rightarrow> net \<Rightarrow> 'w \<Rightarrow> ((cycle_result \<times> gerr option) \<times> net \<times> 'w) option"
    and ok :: "'w \<Rightarrow> bool"
    and live :: "'w \<Rightarrow> int \<Rightarrow> 'rows"
    and good :: "int \<Rightarrow> 'rows \<Rightarrow> bool"
  assumes run_ok: "run c r n w = Some (ans, n', w') \<Longrightarrow> ok w \<Longrightarrow> ok w'"
    and run_frame: "run c r n w = Some (ans, n', w') \<Longrightarrow> ok w \<Longrightarrow> i \<noteq> rg_id r \<Longrightarrow> live w' i = live w i"
    and run_good: "run c r n w = Some (ans, n', w') \<Longrightarrow> ok w \<Longrightarrow> live w' i \<noteq> live w i \<Longrightarrow> good i (live w' i)"
begin

lemma step_keeps:
  assumes "sched_step env c s s'" "se_run env = run" "ok (sd_rest s)"
  shows "ok (sd_rest s') \<and> (live (sd_rest s') i = live (sd_rest s) i \<or> good i (live (sd_rest s') i)) \<and>
    (\<exists>new. sd_ran s' = sd_ran s @ new \<and>
       (live (sd_rest s') i \<noteq> live (sd_rest s) i \<longrightarrow> (\<exists>x \<in> set new. rg_id (cc_region x) = i)))"
  using assms(1)
proof cases
  case (cycle r res err n w)
  then have r: "run c r (sd_net s) (sd_rest s) = Some ((res, err), n, w)" by (simp add: assms(2))
  from run_ok [OF r assms(3)] run_frame [OF r assms(3), of i] run_good [OF r assms(3), of i] cycle(1)
  show ?thesis by (auto simp: sched_fields)
next
  case (refreshed r res err n w)
  then have r: "run c r (sd_net s) (sd_rest s) = Some ((res, err), n, w)" by (simp add: assms(2))
  from run_ok [OF r assms(3)] run_frame [OF r assms(3), of i] run_good [OF r assms(3), of i] refreshed(1)
  show ?thesis by (auto simp: sched_fields)
qed (simp_all add: assms(3) sched_fields)

lemma steps_keep:
  assumes "sched_steps env c s s'" "se_run env = run" "ok (sd_rest s)"
  shows "ok (sd_rest s') \<and> (live (sd_rest s') i = live (sd_rest s) i \<or> good i (live (sd_rest s') i)) \<and>
    (\<exists>new. sd_ran s' = sd_ran s @ new \<and>
       (live (sd_rest s') i \<noteq> live (sd_rest s) i \<longrightarrow> (\<exists>x \<in> set new. rg_id (cc_region x) = i)))"
  using assms(1)
proof (induction rule: rtranclp_induct)
  case base
  with assms(3) show ?case by simp
next
  case (step a b)
  obtain new where new: "sd_ran a = sd_ran s @ new"
    "live (sd_rest a) i \<noteq> live (sd_rest s) i \<longrightarrow> (\<exists>x \<in> set new. rg_id (cc_region x) = i)"
    using step.IH by blast
  obtain new' where new': "sd_ran b = sd_ran a @ new'"
    "live (sd_rest b) i \<noteq> live (sd_rest a) i \<longrightarrow> (\<exists>x \<in> set new'. rg_id (cc_region x) = i)"
    using step_keeps [OF step.hyps(2) assms(2), of i] step.IH by blast
  have "\<exists>n2. sd_ran b = sd_ran s @ n2 \<and>
      (live (sd_rest b) i \<noteq> live (sd_rest s) i \<longrightarrow> (\<exists>x \<in> set n2. rg_id (cc_region x) = i))"
    using new new' by (intro exI [of _ "new @ new'"]) auto
  with step_keeps [OF step.hyps(2) assms(2), of i] step.IH show ?case by auto
qed

end

section \<open>The cycle as a runner\<close>

text \<open>
  What a runner works on: the tables, and the number of cycles run so far. The
  interleaving of cycle \<open>k\<close> is \<open>plan k\<close>.
\<close>

type_synonym world = "db \<times> nat"

definition cycle_runs :: "cycle \<Rightarrow> (nat \<Rightarrow> ev list) \<Rightarrow> ctx \<Rightarrow> region \<Rightarrow> net \<Rightarrow> world
    \<Rightarrow> ((cycle_result \<times> gerr option) \<times> net \<times> world) option" where
  "cycle_runs cy plan c r n w =
     (case cycle_run cy c r (plan (snd w)) n (fst w) of
        None \<Rightarrow> None
      | Some ((ans, d'), n') \<Rightarrow> Some (ans, n', (d', snd w + 1)))"

definition live_rows :: "world \<Rightarrow> int \<Rightarrow> order_row list option" where
  "live_rows w i = db_part (fst w) i"

text \<open>Rows that are one consistent snapshot of the upstream, fetched by some cycle of the plan.\<close>

definition genuine :: "cycle \<Rightarrow> (nat \<Rightarrow> ev list) \<Rightarrow> int \<Rightarrow> order_row list option \<Rightarrow> bool" where
  "genuine cy plan i rows \<longleftrightarrow>
     (\<exists>c r d k os. rows = Some os \<and> rg_id r = i \<and> is_snapshot cy (cycle_pcfg cy c r d) (plan k) i os)"

text \<open>The laws the contract asks for, given what is known of the database and the drift guard.\<close>

definition sound_cycle :: "cycle \<Rightarrow> bool" where
  "sound_cycle cy \<longleftrightarrow> picks_a_row (cy_env cy) \<and> verify_reads cy"

lemma cycle_runs_effect:
  assumes "sound_cycle cy" "cycle_runs cy plan c r n w = Some (ans, n', w')" "db_ok (fst w)"
  shows "db_ok (fst w')" "i \<noteq> rg_id r \<Longrightarrow> live_rows w' i = live_rows w i"
    "live_rows w' i \<noteq> live_rows w i \<Longrightarrow> genuine cy plan i (live_rows w' i)"
proof -
  from assms(2) obtain d' where d': "cycle_run cy c r (plan (snd w)) n (fst w) = Some ((ans, d'), n')" "w' = (d', snd w + 1)"
    by (auto simp: cycle_runs_def split: option.splits)
  note eff = cycle_run_effect [OF d'(1) _ _ assms(3)]
  have snd1: "picks_a_row (cy_env cy)" "verify_reads cy" using assms(1) by (simp_all add: sound_cycle_def)
  from eff(1) [OF snd1] d'(2) show "db_ok (fst w')" by simp
  note parts = eff(2) [OF snd1]
  from parts d'(2) show "i \<noteq> rg_id r \<Longrightarrow> live_rows w' i = live_rows w i"
    by (auto simp: live_rows_def)
  from parts d'(2) show "live_rows w' i \<noteq> live_rows w i \<Longrightarrow> genuine cy plan i (live_rows w' i)"
    by (auto simp: live_rows_def genuine_def split: if_splits) blast
qed

text \<open>A cycle whose assumptions fail is no runner; the contract is met by every sound one.\<close>

definition sound_runs :: "cycle \<Rightarrow> (nat \<Rightarrow> ev list) \<Rightarrow> ctx \<Rightarrow> region \<Rightarrow> net \<Rightarrow> world
    \<Rightarrow> ((cycle_result \<times> gerr option) \<times> net \<times> world) option" where
  "sound_runs cy plan = (if sound_cycle cy then cycle_runs cy plan else (\<lambda>c r n w. None))"

interpretation crn: cycle_runner "sound_runs cy plan" "\<lambda>w. db_ok (fst w)" live_rows "genuine cy plan"
  for cy plan
  by unfold_locales
    (auto simp: sound_runs_def cycle_runs_effect split: if_splits)

lemma sound_runs_eq: "sound_cycle cy \<Longrightarrow> sound_runs cy plan = cycle_runs cy plan"
  by (simp add: sound_runs_def)

end
