(* ===== verification/Service_Props.thy ===== *)
theory Service_Props
  imports Service Sched_Laws Sched_Props Cycle_Props
begin

text \<open>Properties of the service as a whole: scheduler, cycle, sweep, client and tables together.\<close>

section \<open>A service that runs\<close>

definition demo_later :: time where
  "demo_later = 64000000010000000000"

definition demo_world_env :: "world sched_env" where
  "demo_world_env = \<lparr>se_run = cycle_runs demo_cycle (\<lambda>k. demo_events), se_codec = demo_codec,
     se_exchange = (\<lambda>k. demo_answer ''a''), se_draw = (\<lambda>k. 0), se_cfg = demo_sched_cfg\<rparr>"

definition demo_primed_net :: net where
  "demo_primed_net = (demo_observed 1 demo_net)\<lparr>nt_now := demo_later\<rparr>"

lemma demo_later_run:
  "\<exists>s. pipe_run (cycle_pcfg demo_cycle None demo_region demo_db) demo_events (pipe_init demo_primed_net) = Some s \<and>
     pp_main s = MDone None \<and> pp_copy s = CDone \<and> pp_recv s = [[demo_order 1, demo_order 2], [demo_order 3]] \<and>
     sm_pages (pp_meta s) = 2 \<and> sm_order_count (pp_meta s) = 3"
  by (simp add: cycle_pcfg_def demo_cycle_def new_cycle_def demo_region_def demo_db_def cast_row_def demo_env_def
      demo_order_def demo_primed_net_def demo_later_def demo_simps)

lemma demo_later_cycle:
  "\<exists>res d' n'. cycle_run demo_cycle None demo_region demo_events demo_primed_net demo_db = Some (((res, None), d'), n') \<and>
     rt_outcome res = OutcomeResync \<and> rt_err res = None"
proof -
  obtain s where s: "pipe_run (cycle_pcfg demo_cycle None demo_region demo_db) demo_events (pipe_init demo_primed_net) = Some s"
    "pp_main s = MDone None" "pp_copy s = CDone" "pp_recv s = [[demo_order 1, demo_order 2], [demo_order 3]]"
    "sm_pages (pp_meta s) = 2" "sm_order_count (pp_meta s) = 3"
    using demo_later_run by (elim exE conjE) (rule that)
  from demo_finish [OF s(2-)] obtain res d' where
    "cycle_finish demo_cycle None demo_region s demo_db = ((res, None), d')" "rt_outcome res = OutcomeResync" by blast
  moreover have "pipe_final s" using s(2,3) by (simp add: pipe_final_def sweep_returned_def)
  moreover from calculation have "rt_err res = None"
    using cycle_success_marked [OF demo_ok, of s None demo_region res d'] by auto
  ultimately show ?thesis using s(1) by (auto simp: cycle_run_def)
qed

lemma demo_primed:
  "\<exists>s. prime_loop demo_world_env None [demo_region] (new_sched demo_net (demo_db, 0)) = Some (None, s) \<and>
     sd_due s 7 = Some 64000000005001000000 \<and> sd_net s = demo_observed 1 demo_net \<and> sd_rest s = (demo_db, 0) \<and>
     sd_reports s = {} \<and> sd_ran s = []"
  by (simp add: demo_world_env_def new_sched_def demo_region_def sched_page_def demo_call demo_page_def
      set_next_due_def next_due_def demo_sched_cfg_def unit_defs wrap64_def Let_def zero_time_def now_of_def
      demo_observed_def demo_net_def set_due_def)

text \<open>The first tick after priming runs the region's cycle.\<close>

lemma demo_service_run:
  "\<exists>s. sched_run demo_world_env None [demo_region] [demo_later] demo_net (demo_db, 0) = Some (None, s) \<and>
     map cc_region (sd_ran s) = [demo_region]"
proof -
  obtain p where p: "prime_loop demo_world_env None [demo_region] (new_sched demo_net (demo_db, 0)) = Some (None, p)"
    "sd_due p 7 = Some 64000000005001000000" "sd_net p = demo_observed 1 demo_net" "sd_rest p = (demo_db, 0)"
    "sd_ran p = []"
    using demo_primed by (elim exE conjE) (rule that)
  let ?s = "p\<lparr>sd_net := demo_primed_net\<rparr>"
  have tick: "p\<lparr>sd_net := (sd_net p)\<lparr>nt_now := max (now_of p) demo_later\<rparr>\<rparr> = ?s"
    by (simp add: p(3) demo_primed_net_def now_of_def demo_observed_def demo_net_def demo_later_def millisecond_def)
  obtain res d' n' where c: "cycle_run demo_cycle None demo_region demo_events demo_primed_net demo_db = Some (((res, None), d'), n')"
    "rt_err res = None" using demo_later_cycle by (elim exE conjE) (rule that)
  let ?e = "end_streak keyErrorLimit ?s"
  let ?a = "after_run demo_region res None n' (d', Suc 0) ?e"
  have run: "se_run demo_world_env None demo_region (sd_net ?e) (sd_rest ?e) = Some ((res, None), n', (d', Suc 0))"
    by (simp add: demo_world_env_def cycle_runs_def sched_fields p(4) c(1))
  have "wrap64 (sc_max_jitter (se_cfg demo_world_env) + 1) > 0"
    by (simp add: demo_world_env_def demo_sched_cfg_def unit_defs wrap64_def)
  then obtain s1 where s1: "set_next_due demo_world_env (rg_id demo_region) (sm_expires (rt_meta res)) (end_streak (rg_name demo_region) ?a) = Some s1"
    using set_next_due_total by blast
  have att: "attempts_of (se_cfg demo_world_env) demo_region = 3"
    by (simp add: attempts_of_def can_retry_def demo_region_def RetryMaxPriority_def demo_world_env_def demo_sched_cfg_def)
  have "judge demo_world_env None demo_region 1 res None ?a = Some (Stop s1)"
    by (simp add: judge_def c(2) s1)
  then have "run_region demo_world_env None demo_region ?e = Some s1"
    by (simp add: run_region_def region_loop.simps [of _ _ _ 1 ?e] att run)
  moreover have "el_blocked_for (now_of ?s) (ec_elimit (esi_of ?s)) = 0"
    "paused_for (now_of ?e) (ec_outage (esi_of ?e)) = 0"
    "\<not> below_floor (sc_budget_floor (se_cfg demo_world_env)) (ec_budget (esi_of ?e))"
    by (simp_all add: sched_field_defs demo_primed_net_def demo_later_def demo_observed_def demo_net_def
      el_blocked_for_def paused_for_def time_sub_def sat64_def esi_client_init_def outage_init_def el_init_def
      below_floor_def demo_world_env_def demo_sched_cfg_def zero_time_def Let_def)
  moreover have "sd_due ?e 7 = Some 64000000005001000000" "\<not> now_of ?e < 64000000005001000000"
    using p(2) by (simp_all add: sched_field_defs demo_primed_net_def demo_later_def)
  moreover have "rg_id demo_region = 7" by (simp add: demo_region_def)
  ultimately have work: "pass demo_world_env None [demo_region] ?s = Some s1" by (simp add: pass_def)
  have ticked: "tick_loop demo_world_env None [demo_region] [demo_later] p = Some s1"
    unfolding tick_loop.simps Let_def tick by (simp add: work)
  have ord: "ordered_regions [demo_region] = [demo_region]" by (simp add: ordered_regions_def)
  have "sched_run demo_world_env None [demo_region] [demo_later] demo_net (demo_db, 0) = Some (None, s1)"
    unfolding sched_run_def Let_def ord p(1) by (simp add: ticked del: tick_loop.simps)
  moreover have "map cc_region (sd_ran s1) = [demo_region]"
    using set_next_due_fields(2) [OF s1] by (simp add: sched_fields p(5))
  ultimately show ?thesis by (intro exI conjI)
qed

section \<open>Properties\<close>

text \<open>
  C1: the whole service, over any number of ticks. Whatever the network and the database
  do, the live rows of every region are at any time the rows it had when the service
  started, or exactly one consistent snapshot of the upstream that some cycle fetched; they
  change only in a cycle of that region; and the tables' constraints hold.
\<close>
theorem service_rows_genuine:
  assumes "sched_run env c regions ticks n (d, 0) = Some (e, s)" "se_run env = cycle_runs cy plan"
    "sound_cycle cy" "db_ok d"
  shows "db_ok (fst (sd_rest s)) \<and>
    (db_part (fst (sd_rest s)) i = db_part d i \<or>
     genuine cy plan i (db_part (fst (sd_rest s)) i) \<and> (\<exists>x \<in> set (sd_ran s). rg_id (cc_region x) = i))"
proof -
  have run: "se_run env = sound_runs cy plan" using assms(2,3) by (simp add: sound_runs_eq)
  have ok: "db_ok (fst (sd_rest (new_sched n (d, 0 :: nat))))" using assms(4) by (simp add: new_sched_def)
  from crn.steps_keep [OF sched_run_steps [OF assms(1)] run ok, of i] show ?thesis
    by (auto simp: live_rows_def new_sched_def)
qed

theorem service_rows_genuine_witness:
  "\<exists>s. sched_run demo_world_env None [demo_region] [demo_later] demo_net (demo_db, 0) = Some (None, s) \<and>
     db_ok (fst (sd_rest s)) \<and> map cc_region (sd_ran s) = [demo_region]"
proof -
  obtain s where s: "sched_run demo_world_env None [demo_region] [demo_later] demo_net (demo_db, 0) = Some (None, s)"
    "map cc_region (sd_ran s) = [demo_region]" using demo_service_run by (elim exE conjE) (rule that)
  have "se_run demo_world_env = cycle_runs demo_cycle (\<lambda>k. demo_events)" by (simp add: demo_world_env_def)
  moreover have "sound_cycle demo_cycle" using demo_ok by (simp add: sound_cycle_def)
  ultimately have "db_ok (fst (sd_rest s))" using service_rows_genuine [OF s(1) _ _ demo_ok(3)] by blast
  with s show ?thesis by (intro exI conjI)
qed




end
