(* ===== verification/Regions_Store.thy ===== *)
theory Regions_Store
  imports Publish Status_Store Region Complex_Main
begin

text \<open>
  internal/store/regions.go: the region set, derived from the static data export, and
  the tables each region needs. The schema \<open>sde\<close> belongs to another application
  and is an argument: the rows of its two tables.
\<close>

section \<open>The region set\<close>

record sde =
  sde_regions :: "(int \<times> string) list"    \<comment> \<open>\<open>_key\<close>, \<open>name_en\<close>\<close>
  sde_systems :: "(int \<times> rat) list"       \<comment> \<open>\<open>region_id\<close>, \<open>security_status\<close>\<close>

text \<open>\<open>HAVING max(s.security_status) >= 0.05\<close> over the systems the join finds.\<close>

definition is_empire :: "sde \<Rightarrow> int \<Rightarrow> bool" where
  "is_empire s k \<longleftrightarrow> list_ex (\<lambda>(rg, sec). rg = k \<and> 1 / 20 \<le> sec) (sde_systems s)"

definition empire_regions :: "sde \<Rightarrow> (int \<times> string) list" where
  "empire_regions s = sort_key fst (filter (\<lambda>(k, nm). is_empire s k) (remdups (sde_regions s)))"

definition scan_region :: "int \<times> string \<Rightarrow> region" where
  "scan_region row = \<lparr>rg_id = fst row, rg_name = snd row, rg_priority = region_priority (fst row)\<rparr>"

text \<open>\<open>Regions\<close>: the query, and the rows read from it, each of which can fail.\<close>

definition regions_query :: "db_env \<Rightarrow> sde \<Rightarrow> region list db_call" where
  "regions_query env s =
     db_then (db_wrap ''query sde regions: '' (db_ping env)) (\<lambda>_.
     db_then (db_wrap ''iterate regions: '' (db_ping env)) (\<lambda>_.
       let out = map scan_region (empire_regions s)
       in if out = [] then (\<lambda>d. (Inl (EText ''sde returned no regions; is the sde schema present and readable?''), d))
          else db_return out))"

section \<open>EnsureRegionObjects\<close>

text \<open>
  The names are spliced into the statement unquoted, so a negative identifier, whose
  minus sign no identifier may hold, is a syntax error.
\<close>

definition create_partition :: "int \<Rightarrow> nat \<Rightarrow> db \<Rightarrow> gerr + (unit \<times> db)" where
  "create_partition rg k d =
     (if rg < 0 then Inl (EText ''syntax error'')
      else Inr ((), case db_part d rg of None \<Rightarrow> d\<lparr>db_part := (db_part d)(rg \<mapsto> [])\<rparr> | Some rows \<Rightarrow> d))"

definition create_staging :: "int \<Rightarrow> nat \<Rightarrow> db \<Rightarrow> gerr + (unit \<times> db)" where
  "create_staging rg k d =
     (if rg < 0 then Inl (EText ''syntax error'')
      else Inr ((), case db_stg d rg of None \<Rightarrow> d\<lparr>db_stg := (db_stg d)(rg \<mapsto> [])\<rparr> | Some rows \<Rightarrow> d))"

definition seed_row :: "region \<Rightarrow> status_row option \<Rightarrow> status_row" where
  "seed_row r old =
     (case old of
        None \<Rightarrow> \<lparr>st_name = rg_name r, st_priority = rg_priority r, st_refreshed_at = None, st_expires = None,
          st_last_modified = None, st_pages = None, st_order_count = None, st_consecutive_errors = 0,
          st_last_error = None, st_last_error_at = None\<rparr>
      | Some row \<Rightarrow> row\<lparr>st_name := rg_name r, st_priority := rg_priority r\<rparr>)"

definition seed_status :: "region \<Rightarrow> nat \<Rightarrow> db \<Rightarrow> gerr + (unit \<times> db)" where
  "seed_status r k d =
     (if text_ok (rg_name r) \<and> int4_ok (rg_priority r)
      then Inr ((), d\<lparr>db_status := (db_status d)(rg_id r \<mapsto> seed_row r (db_status d (rg_id r)))\<rparr>)
      else Inl (EText ''invalid value''))"

definition ensure_region :: "db_env \<Rightarrow> region \<Rightarrow> unit db_call" where
  "ensure_region env r =
     db_then (db_wrap (''create partition '' @ partition_name (rg_id r) @ '': '') (db_exec env (create_partition (rg_id r)))) (\<lambda>_.
     db_then (db_wrap (''create staging for '' @ show_int (rg_id r) @ '': '') (db_exec env (create_staging (rg_id r)))) (\<lambda>_.
     db_wrap (''seed region_status '' @ show_int (rg_id r) @ '': '') (db_exec env (seed_status r))))"

fun ensure_region_objects :: "db_env \<Rightarrow> region list \<Rightarrow> unit db_call" where
  "ensure_region_objects env [] = db_return ()"
| "ensure_region_objects env (r # rs) = db_then (ensure_region env r) (\<lambda>_. ensure_region_objects env rs)"

section \<open>Facts\<close>

lemma region_priority_int4 [simp]: "int4_ok (region_priority i)"
  using region_priority_range [of i] by (simp add: int4_ok_def Rest_def)

lemma regions_query_spec:
  assumes "regions_query env s d = (Inr rs, d')"
  shows "rs = map scan_region (empire_regions s)" "rs \<noteq> []" "same_tables d d'"
  using assms
  by (auto simp: regions_query_def Let_def db_then_Inr db_ping_Inr db_return_def
      simp: same_tables_def split: if_splits)

text \<open>
  What setting up regions may do: add what is missing, and rename. \<open>grown d d'\<close> says
  that nothing readers see of an existing region has changed.
\<close>

definition kept_rows :: "'r list option \<Rightarrow> 'r list option \<Rightarrow> bool" where
  "kept_rows x y \<longleftrightarrow> y = x \<or> x = None \<and> y = Some []"

definition kept_status :: "status_row option \<Rightarrow> status_row option \<Rightarrow> bool" where
  "kept_status x y \<longleftrightarrow>
     (\<forall>row. x = Some row \<longrightarrow> (\<exists>nm p. y = Some (row\<lparr>st_name := nm, st_priority := p\<rparr>)))"

definition grown :: "db \<Rightarrow> db \<Rightarrow> bool" where
  "grown d d' \<longleftrightarrow>
     (\<forall>i. kept_rows (db_part d i) (db_part d' i) \<and> kept_rows (db_stg d i) (db_stg d' i) \<and>
          kept_status (db_status d i) (db_status d' i)) \<and>
     db_log d' = db_log d \<and> db_hist d' = db_hist d \<and> db_applied d' = db_applied d"

lemma same_named [simp]: "\<exists>nm p. row = row\<lparr>st_name := nm, st_priority := p\<rparr>" for row :: status_row
  by (intro exI [of _ "st_name row"] exI [of _ "st_priority row"]) simp

lemma kept_refl [simp]: "kept_rows x x" "kept_status y y"
  by (simp_all add: kept_rows_def kept_status_def)

lemma kept_trans:
  "kept_rows x y \<Longrightarrow> kept_rows y z \<Longrightarrow> kept_rows x z"
  "kept_status u v \<Longrightarrow> kept_status v w \<Longrightarrow> kept_status u w"
  by (auto simp: kept_rows_def kept_status_def)

lemma grown_refl [simp]: "grown d d"
  by (simp add: grown_def)

lemma grown_trans: "grown a b \<Longrightarrow> grown b c \<Longrightarrow> grown a c"
  unfolding grown_def using kept_trans by (metis (no_types, lifting))

lemma grown_tick: "same_tables d d' \<Longrightarrow> grown d d'"
  by (simp add: grown_def same_tables_def)

lemma grown_ok:
  assumes "grown d d'" "db_ok d"
  shows "db_ok d'"
proof -
  have "db_stg d' i = db_stg d i \<or> db_stg d' i = Some []" "db_part d' i = db_part d i \<or> db_part d' i = Some []" for i
    using assms(1) by (auto simp: grown_def kept_rows_def)
  with assms(2) show ?thesis unfolding db_ok_def
    by (metis distinct.simps(1) empty_iff list.map_disc_iff list.set(1) option.inject rows_of_def)
qed

lemma db_exec_grown:
  assumes "\<forall>k a d1 d2. f k d1 = Inr (a, d2) \<longrightarrow> grown d1 d2"
  shows "grown d (snd (db_exec env f d))"
proof -
  have t: "grown d (db_tick env d)" by (rule grown_tick) simp
  have "grown d d2" if "f (db_ops d) (db_tick env d) = Inr (a, d2)" for a d2
    using grown_trans [OF t] assms that by blast
  with t show ?thesis by (cases rule: db_exec_cases [of env f d]) simp_all
qed

lemma ensure_stmt_grown:
  "\<forall>k a d1 d2. create_partition rg k d1 = Inr (a, d2) \<longrightarrow> grown d1 d2"
  "\<forall>k a d1 d2. create_staging rg k d1 = Inr (a, d2) \<longrightarrow> grown d1 d2"
  "\<forall>k a d1 d2. seed_status r k d1 = Inr (a, d2) \<longrightarrow> grown d1 d2"
  by (auto simp: grown_def kept_rows_def kept_status_def create_partition_def create_staging_def seed_status_def
      seed_row_def split: option.splits if_splits)

lemma db_then_grown:
  assumes "grown d (snd (m d))" "\<And>a d1. m d = (Inr a, d1) \<Longrightarrow> grown d1 (snd (f a d1))"
  shows "grown d (snd (db_then m f d))"
  using assms grown_trans by (cases "m d") (fastforce simp: db_then_def split: sum.splits)

lemma ensure_region_grown: "grown d (snd (ensure_region env r d))"
  unfolding ensure_region_def
  by (intro db_then_grown) (simp_all add: db_exec_grown [OF ensure_stmt_grown(1)] db_exec_grown [OF ensure_stmt_grown(2)]
      db_exec_grown [OF ensure_stmt_grown(3)])

lemma ensure_grown: "grown d (snd (ensure_region_objects env rs d))"
proof (induction rs arbitrary: d)
  case (Cons r rs)
  then show ?case by (simp add: db_then_grown ensure_region_grown)
qed (simp add: db_return_def)

definition region_ready :: "region \<Rightarrow> db \<Rightarrow> bool" where
  "region_ready r d \<longleftrightarrow> db_part d (rg_id r) \<noteq> None \<and> db_stg d (rg_id r) \<noteq> None \<and> db_status d (rg_id r) \<noteq> None"

lemma grown_ready: "grown d d' \<Longrightarrow> region_ready r d \<Longrightarrow> region_ready r d'"
  unfolding grown_def region_ready_def kept_rows_def kept_status_def by (metis not_None_eq)

lemma db_exec_Inr: "db_exec env f d = (Inr a, d') \<Longrightarrow> f (db_ops d) (db_tick env d) = Inr (a, d')"
  by (auto simp: db_exec_def Let_def split: db_fault.splits sum.splits)

lemma ensure_region_ready:
  assumes "ensure_region env r d = (Inr u, d')"
  shows "region_ready r d'"
proof -
  from assms obtain d1 d2 where e: "db_exec env (create_partition (rg_id r)) d = (Inr (), d1)"
    "db_exec env (create_staging (rg_id r)) d1 = (Inr (), d2)" "db_exec env (seed_status r) d2 = (Inr (), d')"
    by (auto simp: ensure_region_def db_then_Inr)
  note x = e [THEN db_exec_Inr]
  from x(1) have "db_part d1 (rg_id r) \<noteq> None" by (auto simp: create_partition_def split: option.splits if_splits)
  with x(2) have "db_part d2 (rg_id r) \<noteq> None" "db_stg d2 (rg_id r) \<noteq> None"
    by (auto simp: create_staging_def split: option.splits if_splits)
  with x(3) show ?thesis by (auto simp: region_ready_def seed_status_def split: if_splits)
qed

lemma ensure_all_ready:
  "ensure_region_objects env rs d = (Inr u, d') \<Longrightarrow> r \<in> set rs \<Longrightarrow> region_ready r d'"
proof (induction rs arbitrary: d)
  case (Cons q rs)
  then obtain d1 where d1: "ensure_region env q d = (Inr (), d1)" "ensure_region_objects env rs d1 = (Inr u, d')"
    by (auto simp: db_then_Inr)
  show ?case
  proof (cases "r \<in> set rs")
    case True
    with Cons.IH d1(2) show ?thesis by blast
  next
    case False
    with Cons.prems have "r = q" by simp
    with ensure_region_ready [OF d1(1)] grown_ready [OF ensure_grown [of d1 env rs]] d1(2) show ?thesis by simp
  qed
qed simp

text \<open>
  Once its objects exist and its row holds its name and priority, setting a region up
  again changes nothing.
\<close>

definition region_settled :: "region \<Rightarrow> db \<Rightarrow> bool" where
  "region_settled r d \<longleftrightarrow> db_part d (rg_id r) \<noteq> None \<and> db_stg d (rg_id r) \<noteq> None \<and>
     (\<exists>row. db_status d (rg_id r) = Some row \<and> st_name row = rg_name r \<and> st_priority row = rg_priority r)"

lemma settled_tables: "same_tables d d' \<Longrightarrow> region_settled r d' = region_settled r d"
  by (simp add: region_settled_def same_tables_def)

lemma db_exec_fixed:
  assumes "\<And>k a d1 d2. same_tables d d1 \<Longrightarrow> f k d1 = Inr (a, d2) \<Longrightarrow> same_tables d1 d2"
  shows "same_tables d (snd (db_exec env f d))"
proof -
  have t: "same_tables d (db_tick env d)" by simp
  have "same_tables d d2" if "f (db_ops d) (db_tick env d) = Inr (a, d2)" for a d2
    using same_tables_trans [OF t assms [OF t that]] .
  with t show ?thesis by (cases rule: db_exec_cases [of env f d]) simp_all
qed

lemma settled_stmts:
  assumes "region_settled r d" "same_tables d d1"
  shows "create_partition (rg_id r) k d1 = Inr (a, d2) \<Longrightarrow> same_tables d1 d2"
    "create_staging (rg_id r) k d1 = Inr (a, d2) \<Longrightarrow> same_tables d1 d2"
    "seed_status r k d1 = Inr (a, d2) \<Longrightarrow> same_tables d1 d2"
proof -
  have s: "region_settled r d1" using assms settled_tables by blast
  then obtain p t row where e: "db_part d1 (rg_id r) = Some p" "db_stg d1 (rg_id r) = Some t"
    "db_status d1 (rg_id r) = Some row" "st_name row = rg_name r" "st_priority row = rg_priority r"
    by (auto simp: region_settled_def)
  from e(4,5) have same: "row\<lparr>st_name := rg_name r, st_priority := rg_priority r\<rparr> = row" by (cases row) simp
  have "(db_status d1)(rg_id r \<mapsto> row) = db_status d1" using e(3) by (simp add: fun_upd_idem)
  then have "d1\<lparr>db_status := (db_status d1)(rg_id r \<mapsto> row)\<rparr> = d1" by simp
  then show "create_partition (rg_id r) k d1 = Inr (a, d2) \<Longrightarrow> same_tables d1 d2"
    "create_staging (rg_id r) k d1 = Inr (a, d2) \<Longrightarrow> same_tables d1 d2"
    "seed_status r k d1 = Inr (a, d2) \<Longrightarrow> same_tables d1 d2"
    by (simp_all add: create_partition_def create_staging_def seed_status_def seed_row_def e(1-3) same split: if_splits)
qed

lemma db_then_fixed:
  assumes "same_tables d (snd (m d))" "\<And>a d1. m d = (Inr a, d1) \<Longrightarrow> same_tables d1 (snd (f a d1))"
  shows "same_tables d (snd (db_then m f d))"
  using assms same_tables_trans by (cases "m d") (fastforce simp: db_then_def split: sum.splits)

lemma ensure_region_settled: "region_settled r d \<Longrightarrow> same_tables d (snd (ensure_region env r d))"
  unfolding ensure_region_def
proof (intro db_then_fixed, simp_all)
  assume s: "region_settled r d"
  show p: "same_tables d (snd (db_exec env (create_partition (rg_id r)) d))"
    by (rule db_exec_fixed) (rule settled_stmts(1) [OF s])
  fix a d1
  assume "db_exec env (create_partition (rg_id r)) d = (Inr a, d1)"
  with p s have s1: "region_settled r d1" using settled_tables by fastforce
  show q: "same_tables d1 (snd (db_exec env (create_staging (rg_id r)) d1))"
    by (rule db_exec_fixed) (rule settled_stmts(2) [OF s1])
  fix a' d2
  assume "db_exec env (create_staging (rg_id r)) d1 = (Inr a', d2)"
  with q s1 have s2: "region_settled r d2" using settled_tables by fastforce
  show "same_tables d2 (snd (db_exec env (seed_status r) d2))"
    by (rule db_exec_fixed) (rule settled_stmts(3) [OF s2])
qed

lemma ensure_settled:
  "\<forall>r \<in> set rs. region_settled r d \<Longrightarrow> same_tables d (snd (ensure_region_objects env rs d))"
proof (induction rs arbitrary: d)
  case (Cons r rs)
  have "same_tables d1 (snd (ensure_region_objects env rs d1))" if "ensure_region env r d = (Inr (), d1)" for d1
    using Cons.prems that ensure_region_settled [of r d env] settled_tables [of d d1]
    by (intro Cons.IH) simp
  with Cons.prems show ?case by (simp add: db_then_fixed ensure_region_settled)
qed (simp add: db_return_def)

lemma ensure_region_settles:
  assumes "ensure_region env r d = (Inr u, d')"
  shows "region_settled r d'" "region_settled q d \<Longrightarrow> rg_id q \<noteq> rg_id r \<Longrightarrow> region_settled q d'"
proof -
  from assms obtain d1 d2 where e: "db_exec env (create_partition (rg_id r)) d = (Inr (), d1)"
    "db_exec env (create_staging (rg_id r)) d1 = (Inr (), d2)" "db_exec env (seed_status r) d2 = (Inr (), d')"
    by (auto simp: ensure_region_def db_then_Inr)
  note x = e [THEN db_exec_Inr]
  from x(3) have "\<exists>row. db_status d' (rg_id r) = Some row \<and> st_name row = rg_name r \<and> st_priority row = rg_priority r"
    by (auto simp: seed_status_def seed_row_def split: if_splits option.splits)
  with ensure_region_ready [OF assms] show "region_settled r d'"
    by (simp add: region_settled_def region_ready_def)
  from x show "region_settled q d \<Longrightarrow> rg_id q \<noteq> rg_id r \<Longrightarrow> region_settled q d'"
    by (auto simp: region_settled_def create_partition_def create_staging_def seed_status_def
        split: if_splits option.splits)
qed

lemma ensure_settles:
  assumes "ensure_region_objects env rs d = (Inr u, d')" "distinct (map rg_id rs)" "r \<in> set rs"
  shows "region_settled r d'"
proof -
  have keep: "region_settled q d'"
    if "ensure_region_objects env rs d = (Inr u, d')" "rg_id q \<notin> rg_id ` set rs" "region_settled q d" for q rs d
    using that
    by (induction rs arbitrary: d) (auto simp: db_return_def db_then_Inr intro: ensure_region_settles(2))
  show ?thesis using assms
  proof (induction rs arbitrary: d)
    case (Cons q rs)
    then obtain d1 where d1: "ensure_region env q d = (Inr (), d1)" "ensure_region_objects env rs d1 = (Inr u, d')"
      by (auto simp: db_then_Inr)
    from Cons.prems keep [OF d1(2) _ ensure_region_settles(1) [OF d1(1)]] Cons.IH [OF d1(2)] show ?case by auto
  qed simp
qed

end
