(* ===== verification/Csv.thy ===== *)
theory Csv
  imports Prelude
begin

text \<open>
  What internal/everef uses of Go's encoding/csv and io: a stream, the reader that cuts
  it off after so many bytes, and \<open>csv.Reader\<close> with its default settings (comma, no
  comments, strict quotes). A stream is the bytes it delivers and whether it then fails
  instead of ending.
\<close>

type_synonym stream = "string \<times> bool"

text \<open>\<open>io.LimitReader\<close>: at the limit it reports the end without reading on.\<close>

definition limit_reader :: "int \<Rightarrow> stream \<Rightarrow> stream" where
  "limit_reader n st = (if n \<le> int (length (fst st)) then (take (nat n) (fst st), False) else st)"

definition c_nl :: char where "c_nl = CHR 0x0A"
definition c_cr :: char where "c_cr = CHR 0x0D"
definition c_quote :: char where "c_quote = CHR 0x22"
definition c_comma :: char where "c_comma = CHR 0x2C"

lemmas csv_chars = c_nl_def c_cr_def c_quote_def c_comma_def

text \<open>A carriage return before a newline, or at the very end, is dropped.\<close>

fun csv_text :: "string \<Rightarrow> string" where
  "csv_text [] = []"
| "csv_text [c] = (if c = c_cr then [] else [c])"
| "csv_text (c # d # t) = (if c = c_cr \<and> d = c_nl then csv_text (d # t) else c # csv_text (d # t))"

datatype csv_err = BareQuote | QuoteErr | ReadErr | FieldCount

datatype csv_next =
    CsvEOF
  | CsvErr csv_err
  | CsvRec "string list" string    \<comment> \<open>a record, and the text after it\<close>

text \<open>Where the reader is: at the start of a field, in a plain or a quoted one, after a quote in a quoted one.\<close>

datatype csv_mode = Start | Plain | Quoted | Closed

fun csv_scan :: "bool \<Rightarrow> csv_mode \<Rightarrow> string \<Rightarrow> string list \<Rightarrow> string \<Rightarrow> csv_next" where
  "csv_scan bad mode acc fs [] =
     (if bad then CsvErr ReadErr else if mode = Quoted then CsvErr QuoteErr else CsvRec (rev (rev acc # fs)) [])"
| "csv_scan bad mode acc fs (c # t) =
     (case mode of
        Quoted \<Rightarrow> if c = c_quote then csv_scan bad Closed acc fs t else csv_scan bad Quoted (c # acc) fs t
      | Closed \<Rightarrow>
          if c = c_quote then csv_scan bad Quoted (c # acc) fs t
          else if c = c_comma then csv_scan bad Start [] (rev acc # fs) t
          else if c = c_nl then CsvRec (rev (rev acc # fs)) t
          else CsvErr QuoteErr
      | _ \<Rightarrow>
          if c = c_quote then (if mode = Start then csv_scan bad Quoted [] fs t else CsvErr BareQuote)
          else if c = c_comma then csv_scan bad Start [] (rev acc # fs) t
          else if c = c_nl then CsvRec (rev (rev acc # fs)) t
          else csv_scan bad Plain (c # acc) fs t)"

text \<open>One \<open>Read\<close>: empty lines are skipped.\<close>

definition csv_read :: "bool \<Rightarrow> string \<Rightarrow> csv_next" where
  "csv_read bad s =
     (let s = dropWhile (\<lambda>c. c = c_nl) s
      in if s = [] then (if bad then CsvErr ReadErr else CsvEOF) else csv_scan bad Start [] [] s)"

text \<open>A record takes at least one character, so reading to the end ends.\<close>

lemma csv_scan_shorter: "csv_scan bad mode acc fs s = CsvRec r t \<Longrightarrow> length t \<le> length s"
  by (induction bad mode acc fs s rule: csv_scan.induct) (auto split: csv_mode.splits if_splits)

lemma csv_scan_consumes: "csv_scan bad mode acc fs s = CsvRec r t \<Longrightarrow> s \<noteq> [] \<Longrightarrow> length t < length s"
proof (cases s)
  case (Cons c u)
  assume "csv_scan bad mode acc fs s = CsvRec r t"
  with Cons show ?thesis
    by (auto split: csv_mode.splits if_splits dest!: csv_scan_shorter)
qed simp

lemma csv_read_consumes: "csv_read bad s = CsvRec r t \<Longrightarrow> length t < length s"
proof -
  assume a: "csv_read bad s = CsvRec r t"
  let ?s = "dropWhile (\<lambda>c. c = c_nl) s"
  from a have "csv_scan bad Start [] [] ?s = CsvRec r t" "?s \<noteq> []"
    by (auto simp: csv_read_def Let_def split: if_splits)
  from csv_scan_consumes [OF this] show ?thesis
    using length_dropWhile_le [of "\<lambda>c. c = c_nl" s] by linarith
qed

end
