(* ===== verification/Calendar.thy ===== *)
theory Calendar
  imports Prelude "HOL-Library.Monad_Syntax"
begin

text \<open>
  What the history import uses of Go's package \<open>time\<close>: the civil calendar, the
  layout \<open>2006-01-02\<close> in which EVE Ref names its days (\<open>everef.DateFormat\<close>), and
  the parser of RFC 3339 instants. A day is the number of days since 1 January of
  year 1; the instant it stands for is midnight UTC.
\<close>

section \<open>The calendar\<close>

definition leap :: "int \<Rightarrow> bool" where
  "leap y \<longleftrightarrow> y mod 4 = 0 \<and> (y mod 100 \<noteq> 0 \<or> y mod 400 = 0)"

definition days_before_year :: "int \<Rightarrow> int" where
  "days_before_year y = 365 * (y - 1) + (y - 1) div 4 - (y - 1) div 100 + (y - 1) div 400"

definition month_days :: "bool \<Rightarrow> int list" where
  "month_days l = [31, if l then 29 else 28, 31, 30, 31, 30, 31, 31, 30, 31, 30, 31]"

definition valid_date :: "int \<Rightarrow> int \<Rightarrow> int \<Rightarrow> bool" where
  "valid_date y m d \<longleftrightarrow> 1 \<le> m \<and> m \<le> 12 \<and> 1 \<le> d \<and> d \<le> month_days (leap y) ! nat (m - 1)"

definition day_number :: "int \<Rightarrow> int \<Rightarrow> int \<Rightarrow> int" where
  "day_number y m d = days_before_year y + sum_list (take (nat (m - 1)) (month_days (leap y))) + (d - 1)"

text \<open>The way back: cycles of 400, 100, 4 and 1 years, the last of each a day longer.\<close>

definition year_of :: "int \<Rightarrow> int" where
  "year_of n =
     (let a = n div 146097; r = n mod 146097;
          b = min 3 (r div 36524); r = r - 36524 * b;
          c = r div 1461; r = r - 1461 * c;
          e = min 3 (r div 365)
      in 400 * a + 100 * b + 4 * c + e + 1)"

fun split_month :: "int \<Rightarrow> int list \<Rightarrow> int \<Rightarrow> int \<times> int" where
  "split_month m [] k = (m, k + 1)"
| "split_month m (l # ls) k = (if k < l then (m, k + 1) else split_month (m + 1) ls (k - l))"

definition civil :: "int \<Rightarrow> int \<times> int \<times> int" where
  "civil n = (let y = year_of n in (y, split_month 1 (month_days (leap y)) (n - days_before_year y)))"

definition day_of_time :: "time \<Rightarrow> int" where
  "day_of_time t = t div day_dur"

definition day_time :: "int \<Rightarrow> time" where
  "day_time n = n * day_dur"

definition time_year :: "time \<Rightarrow> int" where
  "time_year t = year_of (day_of_time t)"

section \<open>Text\<close>

definition pad :: "nat \<Rightarrow> int \<Rightarrow> string" where
  "pad w n = (let s = show_nat n in replicate (w - length s) (CHR ''0'') @ s)"

text \<open>\<open>Format(DateFormat)\<close>; a negative year has its sign before the padding.\<close>

definition format_day :: "int \<Rightarrow> string" where
  "format_day n =
     (case civil n of (y, m, d) \<Rightarrow>
        (if y < 0 then CHR ''-'' # pad 4 (- y) else pad 4 y) @ CHR ''-'' # pad 2 m @ CHR ''-'' # pad 2 d)"

definition take_digits :: "nat \<Rightarrow> string \<Rightarrow> (int \<times> string) option" where
  "take_digits k s =
     (if length s < k then None
      else case digits_val 0 (take k s) of None \<Rightarrow> None | Some v \<Rightarrow> Some (v, drop k s))"

definition expect :: "char \<Rightarrow> string \<Rightarrow> string option" where
  "expect c s = (case s of [] \<Rightarrow> None | x # xs \<Rightarrow> if x = c then Some xs else None)"

definition parse_ymd :: "string \<Rightarrow> ((int \<times> int \<times> int) \<times> string) option" where
  "parse_ymd s = do {
     (y, s) \<leftarrow> take_digits 4 s; s \<leftarrow> expect (CHR ''-'') s;
     (m, s) \<leftarrow> take_digits 2 s; s \<leftarrow> expect (CHR ''-'') s;
     (d, s) \<leftarrow> take_digits 2 s;
     Some ((y, m, d), s) }"

text \<open>\<open>time.Parse(DateFormat, s)\<close>, as a day number.\<close>

definition parse_day :: "string \<Rightarrow> int option" where
  "parse_day s = do {
     ((y, m, d), s) \<leftarrow> parse_ymd s;
     if s = [] \<and> valid_date y m d then Some (day_number y m d) else None }"

section \<open>RFC 3339\<close>

text \<open>The hour may have one digit.\<close>

definition take_hour :: "string \<Rightarrow> (int \<times> string) option" where
  "take_hour s =
     (case s of
        a # b # t \<Rightarrow> if is_digit a \<and> \<not> is_digit b then Some (digit_val a, b # t) else take_digits 2 s
      | _ \<Rightarrow> take_digits 1 s)"

text \<open>
  A fraction may follow the seconds although the layout has none, after a point or a
  comma; digits beyond the ninth are dropped.
\<close>

definition take_fraction :: "string \<Rightarrow> int \<times> string" where
  "take_fraction s =
     (case s of
        p # c # t \<Rightarrow>
          if (p = CHR ''.'' \<or> p = CHR '','') \<and> is_digit c
          then let ds = takeWhile is_digit (c # t); k = take 9 ds
               in (case digits_val 0 k of None \<Rightarrow> 0 | Some v \<Rightarrow> v * 10 ^ (9 - length k), dropWhile is_digit (c # t))
          else (0, s)
      | _ \<Rightarrow> (0, s))"

text \<open>\<open>Z07:00\<close>: offsets of 24 hours and of 60 minutes are let through.\<close>

definition take_zone :: "string \<Rightarrow> (int \<times> string) option" where
  "take_zone s =
     (case s of
        [] \<Rightarrow> None
      | sign # t \<Rightarrow>
          if sign = CHR ''Z'' then Some (0, t)
          else do {
            (h, t) \<leftarrow> take_digits 2 t; t \<leftarrow> expect (CHR '':'') t; (m, t) \<leftarrow> take_digits 2 t;
            if 24 < h \<or> 60 < m then None
            else if sign = CHR ''+'' then Some (h * 3600 + m * 60, t)
            else if sign = CHR ''-'' then Some (- (h * 3600 + m * 60), t) else None })"

text \<open>\<open>time.Parse(time.RFC3339, s)\<close>, as an instant.\<close>

definition parse_rfc3339 :: "string \<Rightarrow> time option" where
  "parse_rfc3339 s = do {
     ((y, m, d), s) \<leftarrow> parse_ymd s; s \<leftarrow> expect (CHR ''T'') s;
     (h, s) \<leftarrow> take_hour s; s \<leftarrow> expect (CHR '':'') s;
     (mi, s) \<leftarrow> take_digits 2 s; s \<leftarrow> expect (CHR '':'') s;
     (sec, s) \<leftarrow> take_digits 2 s;
     let (ns, s) = take_fraction s;
     (off, s) \<leftarrow> take_zone s;
     if s = [] \<and> valid_date y m d \<and> h < 24 \<and> mi < 60 \<and> sec < 60
     then Some ((day_number y m d * 86400 + h * 3600 + mi * 60 + sec - off) * second + ns) else None }"

section \<open>Facts\<close>

lemma days_before_next: "days_before_year (y + 1) = days_before_year y + (if leap y then 366 else 365)"
proof -
  have step: "y div k = (y - 1) div k + (if y mod k = 0 then 1 else 0)" if k: "0 < k" for k :: int
  proof -
    define q r where "q = (y - 1) div k" and "r = (y - 1) mod k"
    have y: "y = k * q + (r + 1)" "0 \<le> r" "r < k" using k mult_div_mod_eq [of k "y - 1"] by (simp_all add: q_def r_def)
    show ?thesis
    proof (cases "r + 1 = k")
      case True
      have "y = k * (q + 1) + 0" unfolding distrib_left using y(1) True by linarith
      from int_div_pos_eq [OF this order_refl k] int_mod_pos_eq [OF this order_refl k] show ?thesis
        unfolding q_def [symmetric] by simp
    next
      case False
      have p: "0 \<le> r + 1" "r + 1 < k" using y(2,3) False by linarith+
      from int_div_pos_eq [OF y(1) p] int_mod_pos_eq [OF y(1) p] p y(2) show ?thesis
        unfolding q_def [symmetric] by simp
    qed
  qed
  have m: "y mod 400 = 0 \<Longrightarrow> y mod 100 = 0" "y mod 100 = 0 \<Longrightarrow> y mod 4 = 0"
    using dvd_trans [of 100 400 y] dvd_trans [of 4 100 y] by (simp_all add: mod_eq_0_iff_dvd)
  have "days_before_year (y + 1) = 365 * y + y div 4 - y div 100 + y div 400"
    by (simp add: days_before_year_def)
  also have "\<dots> = days_before_year y + 365 + ((if y mod 4 = 0 then 1 else 0) - (if y mod 100 = 0 then 1 else 0) +
      (if y mod 400 = 0 then 1 else 0))"
    unfolding step [of 4, simplified] step [of 100, simplified] step [of 400, simplified] days_before_year_def by simp
  finally show ?thesis using m by (cases "y mod 4 = 0"; cases "y mod 100 = 0"; cases "y mod 400 = 0") (simp_all add: leap_def)
qed

lemma year_of_bounds: "days_before_year (year_of n) \<le> n" "n < days_before_year (year_of n + 1)"
proof -
  define a r1 where "a = n div 146097" and "r1 = n mod 146097"
  define b r2 where "b = min 3 (r1 div 36524)" and "r2 = r1 - 36524 * b"
  define c r3 where "c = r2 div 1461" and "r3 = r2 - 1461 * c"
  define e r4 where "e = min 3 (r3 div 365)" and "r4 = r3 - 365 * e"
  have y: "year_of n = 400 * a + 100 * b + 4 * c + e + 1"
    by (simp add: year_of_def Let_def a_def r1_def b_def r2_def c_def r3_def e_def)
  have n: "n = 146097 * a + 36524 * b + 1461 * c + 365 * e + r4"
    by (simp add: a_def r4_def r3_def r2_def r1_def)
  have split: "0 \<le> x div k \<and> k * (x div k) \<le> x \<and> x < k * (x div k) + k" if "0 \<le> x" "0 < k" for x k :: int
    using that mult_div_mod_eq [of k x] pos_mod_bound [of k x] pos_mod_sign [of k x] pos_imp_zdiv_nonneg_iff [of k x]
    by linarith
  have r1: "0 \<le> r1" "r1 \<le> 146096" by (simp_all add: r1_def)
  with split [of r1 36524] have b: "0 \<le> b" "b \<le> 3" "0 \<le> r2" "r2 \<le> 36524" "r2 = 36524 \<Longrightarrow> b = 3"
    unfolding b_def r2_def min_def by (simp_all split: if_splits)
  then have c: "0 \<le> c" "c \<le> 24" "0 \<le> r3" "r3 \<le> 1460" "r3 = 1460 \<Longrightarrow> c = 24 \<Longrightarrow> b = 3"
    using split [of r2 1461] unfolding c_def r3_def by linarith+
  with split [of r3 365] have e: "0 \<le> e" "e \<le> 3" "0 \<le> r4" "r4 \<le> 365" "r4 = 365 \<Longrightarrow> e = 3 \<and> r3 = 1460"
    unfolding e_def r4_def min_def by (simp_all split: if_splits)
  let ?z = "400 * a + 100 * b + 4 * c + e"
  have "?z div 4 = 100 * a + 25 * b + c" using e by simp
  moreover have "?z div 100 = 4 * a + b" using c e by simp
  moreover have "?z div 400 = a" using b c e by simp
  ultimately have start: "days_before_year (year_of n) = n - r4"
    unfolding y days_before_year_def using n by simp
  then show "days_before_year (year_of n) \<le> n" using e by simp
  have "leap (year_of n)" if "r4 = 365"
  proof -
    have e3: "e = 3" "c = 24 \<longrightarrow> b = 3" using e(5) c(5) that by auto
    then have four: "year_of n = 4 * (100 * a + 25 * b + c + 1) + 0" using y by simp
    then have 4: "year_of n mod 4 = 0" by (rule int_mod_pos_eq) simp_all
    show ?thesis
    proof (cases "c = 24")
      case True
      with e3 y have "year_of n = 400 * (a + 1) + 0" by simp
      then have "year_of n mod 400 = 0" by (rule int_mod_pos_eq) simp_all
      with 4 show ?thesis by (simp add: leap_def)
    next
      case False
      with c have "0 \<le> 4 * c + 4" "4 * c + 4 < 100" by auto
      moreover from e3(1) y have "year_of n = 100 * (4 * a + b) + (4 * c + 4)" by simp
      ultimately have "year_of n mod 100 = 4 * c + 4" by (intro int_mod_pos_eq)
      with 4 c(1) show ?thesis by (simp add: leap_def)
    qed
  qed
  with e(4) show "n < days_before_year (year_of n + 1)"
    by (cases "r4 = 365") (auto simp: start days_before_next)
qed

lemma days_before_mono: "y \<le> z \<Longrightarrow> days_before_year y \<le> days_before_year z"
proof (induction z rule: int_ge_induct)
  case (step i)
  then show ?case using days_before_next [of i] by (auto split: if_splits)
qed simp

lemma year_of_unique:
  assumes "days_before_year y \<le> n" "n < days_before_year (y + 1)"
  shows "year_of n = y"
proof (rule ccontr)
  assume "year_of n \<noteq> y"
  then consider "year_of n + 1 \<le> y" | "y + 1 \<le> year_of n" by linarith
  then show False
    by cases (use assms year_of_bounds [of n] days_before_mono in force)+
qed

lemma split_month_sum:
  "list_all (\<lambda>l. 0 \<le> l) ls \<Longrightarrow> i < length ls \<Longrightarrow> 0 \<le> x \<Longrightarrow> x < ls ! i \<Longrightarrow>
   split_month m ls (sum_list (take i ls) + x) = (m + int i, x + 1)"
proof (induction m ls "sum_list (take i ls) + x" arbitrary: i rule: split_month.induct)
  case (2 m l ls)
  show ?case
  proof (cases i)
    case 0
    with "2.prems" show ?thesis by simp
  next
    case (Suc j)
    have pos: "0 \<le> sum_list (take j ls)"
      using "2.prems"(1) by (intro sum_list_nonneg) (auto simp: list_all_iff dest: in_set_takeD)
    have k: "sum_list (take i (l # ls)) + x = l + (sum_list (take j ls) + x)" by (simp add: Suc)
    from "2.hyps" [of j] "2.prems" pos have "split_month (m + 1) ls (sum_list (take j ls) + x) = (m + 1 + int j, x + 1)"
      by (simp add: Suc)
    with pos "2.prems"(3) show ?thesis unfolding k by (simp add: Suc)
  qed
qed simp

lemma split_month_range:
  fixes ls :: "int list"
  assumes "list_all (\<lambda>l. 0 \<le> l) ls" "0 \<le> k" "k < sum_list ls"
  shows "\<exists>i x. i < length ls \<and> 0 \<le> x \<and> x < ls ! i \<and> k = sum_list (take i ls) + x"
  using assms
proof (induction ls arbitrary: k)
  case (Cons l ls)
  show ?case
  proof (cases "k < l")
    case True
    with Cons.prems show ?thesis by (intro exI [of _ 0] exI [of _ k]) simp
  next
    case False
    with Cons.prems have "0 \<le> k - l" "k - l < sum_list ls" by simp_all
    with Cons.IH [of "k - l"] Cons.prems(1) obtain i x where
      "i < length ls" "0 \<le> x" "x < ls ! i" "k - l = sum_list (take i ls) + x" by auto
    then show ?thesis by (intro exI [of _ "Suc i"] exI [of _ x]) simp
  qed
qed simp

lemma month_days_facts:
  "length (month_days l) = 12" "list_all (\<lambda>x. 0 \<le> x) (month_days l)"
  "sum_list (month_days l) = (if l then 366 else 365)"
  by (simp_all add: month_days_def)

lemma day_in_year:
  assumes "valid_date y m d"
  shows "0 \<le> sum_list (take (nat (m - 1)) (month_days (leap y))) + (d - 1)"
    "sum_list (take (nat (m - 1)) (month_days (leap y))) + (d - 1) < (if leap y then 366 else 365)"
proof -
  let ?ls = "month_days (leap y)" and ?i = "nat (m - 1)"
  have i: "?i < 12" and d: "1 \<le> d" "d \<le> ?ls ! ?i" using assms by (auto simp: valid_date_def)
  have nonneg: "0 \<le> x" if "x \<in> set ?ls" for x using month_days_facts(2) [of "leap y"] that by (auto simp: list_all_iff)
  have "0 \<le> sum_list (take ?i ?ls)" by (intro sum_list_nonneg) (auto dest: in_set_takeD nonneg)
  with d show "0 \<le> sum_list (take ?i ?ls) + (d - 1)" by simp
  have "0 \<le> sum_list (drop (Suc ?i) ?ls)" by (intro sum_list_nonneg) (auto dest: in_set_dropD nonneg)
  moreover have "sum_list ?ls = sum_list (take ?i ?ls) + ?ls ! ?i + sum_list (drop (Suc ?i) ?ls)"
    using id_take_nth_drop [of ?i ?ls] i month_days_facts(1) [of "leap y"]
    by (metis (no_types, lifting) add.assoc sum_list.Cons sum_list.append)
  ultimately show "sum_list (take ?i ?ls) + (d - 1) < (if leap y then 366 else 365)"
    using d month_days_facts(3) [of "leap y"] by (simp split: if_splits)
qed

text \<open>A date is its day number and the other way round.\<close>

lemma civil_day_number: "valid_date y m d \<Longrightarrow> civil (day_number y m d) = (y, m, d)"
proof -
  assume v: "valid_date y m d"
  let ?ls = "month_days (leap y)"
  have y: "year_of (day_number y m d) = y"
    using day_in_year [OF v] by (intro year_of_unique) (auto simp: day_number_def days_before_next)
  have "split_month 1 ?ls (sum_list (take (nat (m - 1)) ?ls) + (d - 1)) = (1 + int (nat (m - 1)), d - 1 + 1)"
    using v month_days_facts [of "leap y"] by (intro split_month_sum) (auto simp: valid_date_def)
  moreover have "day_number y m d - days_before_year y = sum_list (take (nat (m - 1)) ?ls) + (d - 1)"
    by (simp add: day_number_def)
  ultimately show ?thesis using v by (simp add: civil_def y Let_def valid_date_def)
qed

lemma civil_cases:
  obtains y m d where "civil n = (y, m, d)" "valid_date y m d" "day_number y m d = n" "y = year_of n"
proof -
  let ?y = "year_of n" and ?ls = "month_days (leap (year_of n))"
  have "0 \<le> n - days_before_year ?y" "n - days_before_year ?y < sum_list ?ls"
    using year_of_bounds [of n] by (auto simp: days_before_next month_days_facts split: if_splits)
  from split_month_range [OF month_days_facts(2) this] obtain i x where
    x: "i < length ?ls" "0 \<le> x" "x < ?ls ! i" "n - days_before_year ?y = sum_list (take i ?ls) + x" by blast
  have "civil n = (?y, 1 + int i, x + 1)"
    using split_month_sum [OF month_days_facts(2) x(1-3), of 1] by (simp add: civil_def Let_def x(4))
  moreover have "valid_date ?y (1 + int i) (x + 1)"
    using x month_days_facts(1) [of "leap ?y"] by (simp add: valid_date_def)
  moreover have "day_number ?y (1 + int i) (x + 1) = n" using x(4) by (simp add: day_number_def)
  ultimately show thesis by (intro that) simp_all
qed

section \<open>Round trips\<close>

lemma digit_val_range: "is_digit c \<Longrightarrow> 0 \<le> digit_val c \<and> digit_val c \<le> 9"
  by (simp add: is_digit_def digit_val_def)

lemma digit_val_inj: "digit_val c = digit_val d \<Longrightarrow> c = d"
proof -
  assume "digit_val c = digit_val d"
  then have "(of_char c :: int) = of_char d" by (simp add: digit_val_def)
  then show ?thesis by simp
qed

lemma digits_val_digits: "digits_val a ds = Some v \<Longrightarrow> list_all is_digit ds"
  by (induction ds arbitrary: a) (auto split: if_splits)

text \<open>Digit strings of one length that denote one number are one string.\<close>

lemma digits_val_inj:
  "digits_val a xs = Some v \<Longrightarrow> digits_val b ys = Some v \<Longrightarrow> length xs = length ys \<Longrightarrow> a = b \<and> xs = ys"
proof (induction xs arbitrary: a b ys)
  case (Cons x xs)
  from Cons.prems(3) obtain y zs where ys: "ys = y # zs" "length xs = length zs" by (cases ys) auto
  from Cons.prems ys have d: "is_digit x" "is_digit y" by (auto split: if_splits)
  with Cons.prems ys have "10 * a + digit_val x = 10 * b + digit_val y \<and> xs = zs"
    by (intro Cons.IH) simp_all
  moreover have "x' = y'" if "10 * a + x' = 10 * b + y'" "0 \<le> x' \<and> x' \<le> 9" "0 \<le> y' \<and> y' \<le> 9" for x' y' :: int
    using that by presburger
  from this [OF _ digit_val_range [OF d(1)] digit_val_range [OF d(2)]] calculation
  have "digit_val x = digit_val y" by blast
  ultimately show ?case using ys(1) digit_val_inj by auto
qed simp

lemma digits_val_zeros: "digits_val 0 (replicate k (CHR ''0'') @ s) = digits_val 0 s"
proof (induction k)
  case (Suc k)
  moreover have "is_digit (CHR ''0'')" "digit_val (CHR ''0'') = 0" by (simp_all add: is_digit_def digit_val_def)
  ultimately show ?case by simp
qed simp

lemma digits_val_nonneg: "digits_val a ds = Some v \<Longrightarrow> 0 \<le> a \<Longrightarrow> a \<le> v"
proof (induction ds arbitrary: a)
  case (Cons d ds)
  then have "is_digit d" "digits_val (10 * a + digit_val d) ds = Some v" by (auto split: if_splits)
  with digit_val_range [of d] Cons.prems(2) Cons.IH [of "10 * a + digit_val d"] show ?case by auto
qed simp

lemma show_nat_length: "0 \<le> n \<Longrightarrow> n < 10 ^ w \<Longrightarrow> 0 < w \<Longrightarrow> length (show_nat n) \<le> w"
proof (induction n arbitrary: w rule: show_nat.induct)
  case (1 n)
  show ?case
  proof (cases "n < 10")
    case True
    with 1 show ?thesis by (simp add: show_nat.simps [of n])
  next
    case False
    with 1 obtain k where w: "w = Suc k" "0 < k" by (metis gr0_conv_Suc neq0_conv power_one_right One_nat_def)
    from 1(3) w have "n div 10 < 10 ^ k" by simp
    with 1(1) [OF False, of k] 1(2) w show ?thesis by (simp add: show_nat.simps [of n] False)
  qed
qed

lemma pad_facts:
  assumes "0 \<le> n" "n < 10 ^ w" "0 < w"
  shows "length (pad w n) = w" "digits_val 0 (pad w n) = Some n"
  using show_nat_length [OF assms] digits_val_show_nat [OF assms(1)]
  by (simp_all add: pad_def Let_def digits_val_zeros)

lemma take_digits_pad:
  "0 \<le> n \<Longrightarrow> n < 10 ^ w \<Longrightarrow> 0 < w \<Longrightarrow> take_digits w (pad w n @ rest) = Some (n, rest)"
  by (simp add: take_digits_def pad_facts)

lemma digits_val_bound: "digits_val a ds = Some v \<Longrightarrow> v < (a + 1) * 10 ^ length ds"
proof (induction ds arbitrary: a)
  case (Cons d ds)
  then have d: "is_digit d" "digits_val (10 * a + digit_val d) ds = Some v" by (auto split: if_splits)
  from Cons.IH [OF d(2)] have "v < (10 * a + digit_val d + 1) * 10 ^ length ds" .
  also have "\<dots> \<le> (10 * a + 10) * 10 ^ length ds"
    using digit_val_range [OF d(1)] by (intro mult_right_mono) simp_all
  finally show ?case by (simp add: algebra_simps)
qed simp

lemma take_digits_Some:
  assumes "take_digits w s = Some (v, rest)" "0 < w"
  shows "s = pad w v @ rest" "0 \<le> v" "v < 10 ^ w"
proof -
  from assms have l: "length (take w s) = w" "digits_val 0 (take w s) = Some v" "rest = drop w s"
    by (auto simp: take_digits_def split: if_splits option.splits)
  show v: "0 \<le> v" "v < 10 ^ w" using digits_val_nonneg [OF l(2)] digits_val_bound [OF l(2)] l(1) by simp_all
  from digits_val_inj [OF l(2) pad_facts(2) [OF v assms(2)]] l(1) pad_facts(1) [OF v assms(2)]
  have "take w s = pad w v" by simp
  then show "s = pad w v @ rest" using l(3) by (metis append_take_drop_id)
qed

lemma expect_Some [simp]: "expect c s = Some t \<longleftrightarrow> s = c # t"
  by (auto simp: expect_def split: list.splits)

lemma expect_Cons [simp]: "expect c (c # t) = Some t"
  by simp

lemma parse_ymd_text:
  "parse_ymd s = Some ((y, m, d), t) \<Longrightarrow>
   s = pad 4 y @ CHR ''-'' # pad 2 m @ CHR ''-'' # pad 2 d @ t \<and> 0 \<le> y \<and> y < 10000"
proof -
  assume "parse_ymd s = Some ((y, m, d), t)"
  then obtain a b where p: "take_digits 4 s = Some (y, CHR ''-'' # a)" "take_digits 2 a = Some (m, CHR ''-'' # b)"
    "take_digits 2 b = Some (d, t)"
    by (auto simp: parse_ymd_def bind_eq_Some_conv)
  from take_digits_Some [OF p(1)] take_digits_Some [OF p(2)] take_digits_Some [OF p(3)] show ?thesis by simp
qed

lemma parse_ymd_pad:
  "0 \<le> y \<Longrightarrow> y < 10000 \<Longrightarrow> 0 \<le> m \<Longrightarrow> m < 100 \<Longrightarrow> 0 \<le> d \<Longrightarrow> d < 100 \<Longrightarrow>
   parse_ymd (pad 4 y @ CHR ''-'' # pad 2 m @ CHR ''-'' # pad 2 d @ t) = Some ((y, m, d), t)"
  by (simp add: parse_ymd_def take_digits_pad)

lemma valid_date_day: "valid_date y m d \<Longrightarrow> d \<le> 31 \<and> m \<le> 12"
proof -
  assume v: "valid_date y m d"
  then have "nat (m - 1) < 12" by (auto simp: valid_date_def)
  moreover have "list_all (\<lambda>x. x \<le> 31) (month_days (leap y))" by (simp add: month_days_def)
  ultimately have "month_days (leap y) ! nat (m - 1) \<le> 31"
    by (simp add: list_all_length month_days_facts(1))
  with v show ?thesis by (auto simp: valid_date_def)
qed

lemma format_parse: "parse_day s = Some n \<Longrightarrow> format_day n = s"
proof -
  assume "parse_day s = Some n"
  then obtain y m d where p: "parse_ymd s = Some ((y, m, d), [])" "valid_date y m d" "n = day_number y m d"
    by (auto simp: parse_day_def bind_eq_Some_conv split: if_splits)
  with parse_ymd_text [OF p(1)] show ?thesis by (simp add: format_day_def civil_day_number)
qed

lemma parse_format: "0 \<le> year_of n \<Longrightarrow> year_of n < 10000 \<Longrightarrow> parse_day (format_day n) = Some n"
proof (cases rule: civil_cases [of n])
  case (1 y m d)
  assume y: "0 \<le> year_of n" "year_of n < 10000"
  from 1 valid_date_day [OF 1(2)] y have "parse_ymd (format_day n) = Some ((y, m, d), [])"
    using parse_ymd_pad [of y m d "[]"] by (simp add: format_day_def valid_date_def)
  with 1 show ?thesis by (simp add: parse_day_def)
qed

lemma parse_day_year: "parse_day s = Some n \<Longrightarrow> 0 \<le> year_of n \<and> year_of n < 10000"
proof -
  assume "parse_day s = Some n"
  then obtain y m d where p: "parse_ymd s = Some ((y, m, d), [])" "valid_date y m d" "n = day_number y m d"
    by (auto simp: parse_day_def bind_eq_Some_conv split: if_splits)
  have "fst (civil n) = year_of n" by (simp add: civil_def Let_def)
  with p civil_day_number [OF p(2)] parse_ymd_text [OF p(1)] show ?thesis by simp
qed

text \<open>No two days are written alike, whatever their years.\<close>

lemma pad_val: "0 \<le> n \<Longrightarrow> digits_val 0 (pad w n) = Some n"
  by (simp add: pad_def Let_def digits_val_zeros digits_val_show_nat)

lemma pad_inj: "0 \<le> m \<Longrightarrow> 0 \<le> n \<Longrightarrow> pad w m = pad w n \<Longrightarrow> m = n"
  by (metis pad_val option.inject)

lemma pad_no_sign: "CHR ''-'' \<notin> set (pad w n)"
proof
  assume "CHR ''-'' \<in> set (pad w n)"
  then have "CHR ''-'' \<in> set (show_nat n)" by (auto simp: pad_def Let_def)
  with show_nat_digits have "is_digit (CHR ''-'')" by blast
  then show False by (simp add: is_digit_def)
qed

definition pad_year :: "int \<Rightarrow> string" where
  "pad_year y = (if y < 0 then CHR ''-'' # pad 4 (- y) else pad 4 y)"

lemma pad_year_inj: "pad_year y = pad_year z \<Longrightarrow> y = z"
proof -
  assume e: "pad_year y = pad_year z"
  have sign: "CHR ''-'' \<in> set (pad_year x) \<longleftrightarrow> x < 0" for x
    using pad_no_sign by (simp add: pad_year_def)
  from sign [of y] sign [of z] e have s: "y < 0 \<longleftrightarrow> z < 0" by simp
  show "y = z"
  proof (cases "y < 0")
    case True
    with s e have "pad 4 (- y) = pad 4 (- z)" by (simp add: pad_year_def)
    with True s show ?thesis using pad_inj [of "- y" "- z" 4] by simp
  next
    case False
    with s e have "pad 4 y = pad 4 z" by (simp add: pad_year_def)
    with False s show ?thesis using pad_inj [of y z 4] by simp
  qed
qed

lemma format_day_inj: "format_day a = format_day b \<Longrightarrow> a = b"
proof (cases rule: civil_cases [of a]; cases rule: civil_cases [of b])
  fix y m d z k e
  assume f: "format_day a = format_day b" and a: "civil a = (y, m, d)" "valid_date y m d" "day_number y m d = a"
    and b: "civil b = (z, k, e)" "valid_date z k e" "day_number z k e = b"
  have r: "0 \<le> m" "m < 10 ^ 2" "0 \<le> d" "d < 10 ^ 2" "0 \<le> k" "k < 10 ^ 2" "0 \<le> e" "e < 10 ^ 2"
    using a(2) b(2) valid_date_day [OF a(2)] valid_date_day [OF b(2)] by (auto simp: valid_date_def)
  note len = pad_facts(1) [OF r(1,2)] pad_facts(1) [OF r(3,4)] pad_facts(1) [OF r(5,6)] pad_facts(1) [OF r(7,8)]
  from f have "pad_year y @ CHR ''-'' # pad 2 m @ CHR ''-'' # pad 2 d = pad_year z @ CHR ''-'' # pad 2 k @ CHR ''-'' # pad 2 e"
    by (simp add: format_day_def a(1) b(1) pad_year_def)
  then have p: "pad_year y = pad_year z" "pad 2 m @ CHR ''-'' # pad 2 d = pad 2 k @ CHR ''-'' # pad 2 e"
    using len by simp_all
  then have "pad 2 m = pad 2 k" "pad 2 d = pad 2 e" using len by simp_all
  with p(1) r pad_inj pad_year_inj have "y = z" "m = k" "d = e" by blast+
  with a(3) b(3) show "a = b" by simp
qed

lemma parse_day_inj: "parse_day s = Some n \<Longrightarrow> parse_day t = Some n \<Longrightarrow> s = t"
  using format_parse by blast

end
