(* ===== verification/Everef.thy ===== *)
theory Everef
  imports Csv Calendar Esi_Errors "HOL-Library.List_Lexorder" "HOL-Library.Char_ord"
begin

text \<open>
  internal/everef: the client of the EVE Ref dataset (client.go) and the parser of its
  day files (parse.go). The JSON decoder and the bzip2 decompressor are library code and
  stay parameters; a request is answered by whatever the network does with it.
\<close>

section \<open>Client\<close>

definition max_totals_bytes :: int where
  "max_totals_bytes = 8388608"

definition max_day_bytes :: int where
  "max_day_bytes = 67108864"

definition max_day_decompressed :: int where
  "max_day_decompressed = 536870912"

record everef_client =
  vc_base :: string
  vc_agent :: string
  vc_max_compressed :: int
  vc_max_decompressed :: int

definition new_everef :: "string \<Rightarrow> string \<Rightarrow> everef_client" where
  "new_everef base agent = \<lparr>vc_base = base, vc_agent = agent, vc_max_compressed = max_day_bytes,
     vc_max_decompressed = max_day_decompressed\<rparr>"

text \<open>A request refused before it is sent, one that failed, or an answer.\<close>

datatype ev_reply =
    BadRequest gerr
  | DoErr gerr
  | Reply int stream

record ev_codec =
  ec_json :: "stream \<Rightarrow> gerr + (string \<times> int) list"
  ec_bunzip :: "stream \<Rightarrow> stream"

definition totals_url :: "everef_client \<Rightarrow> string" where
  "totals_url c = vc_base c @ ''/totals.json''"

text \<open>\<open>Totals\<close>: what it makes of the reply to its request.\<close>

definition totals_reply :: "ev_codec \<Rightarrow> ev_reply \<Rightarrow> gerr + (string \<times> int) list" where
  "totals_reply cd reply =
     (case reply of
        BadRequest e \<Rightarrow> Inl e
      | DoErr e \<Rightarrow> Inl (EWrap ''fetch totals: '' e [])
      | Reply status body \<Rightarrow>
          if status \<noteq> 200 then Inl (EText (''fetch totals: http '' @ show_int status))
          else (case ec_json cd (limit_reader max_totals_bytes body) of
                  Inl e \<Rightarrow> Inl (EWrap ''decode totals: '' e [])
                | Inr totals \<Rightarrow> Inr totals))"

definition day_url :: "everef_client \<Rightarrow> int \<Rightarrow> string" where
  "day_url c day = vc_base c @ ''/'' @ show_int (year_of day) @ ''/market-history-'' @ format_day day @ ''.csv.bz2''"

text \<open>\<open>OpenDay\<close>: the stream the caller reads, capped before and after decompression.\<close>

definition bzip_reader :: "everef_client \<Rightarrow> ev_codec \<Rightarrow> stream \<Rightarrow> stream" where
  "bzip_reader c cd body =
     limit_reader (vc_max_decompressed c) (ec_bunzip cd (limit_reader (vc_max_compressed c) body))"

definition open_day_reply :: "everef_client \<Rightarrow> ev_codec \<Rightarrow> int \<Rightarrow> ev_reply \<Rightarrow> gerr + stream" where
  "open_day_reply c cd day reply =
     (let d = format_day day
      in case reply of
           BadRequest e \<Rightarrow> Inl e
         | DoErr e \<Rightarrow> Inl (EWrap (''fetch day '' @ d @ '': '') e [])
         | Reply status body \<Rightarrow>
             if status = 404 then Inl (EWrap [] EDayNotFound ('': '' @ d))
             else if status \<noteq> 200 then Inl (EText (''fetch day '' @ d @ '': http '' @ show_int status))
             else Inr (bzip_reader c cd body))"

section \<open>Parser: data\<close>

record everef_rec =
  er_region :: int
  er_type :: int
  er_date :: int
  er_average :: string
  er_highest :: string
  er_lowest :: string
  er_volume :: int
  er_order_count :: int
  er_lm :: time

definition want_cols :: "string list" where
  "want_cols = [''average'', ''date'', ''highest'', ''lowest'', ''order_count'', ''volume'',
     ''http_last_modified'', ''region_id'', ''type_id'']"

text \<open>\<open>Filter\<close>; a nil region set keeps every region.\<close>

record day_filter =
  df_regions :: "int set option"
  df_after :: time

text \<open>\<open>idx\<close>: the last column of that name.\<close>

fun col_index :: "string list \<Rightarrow> string \<Rightarrow> nat option" where
  "col_index [] c = None"
| "col_index (n # ns) c =
     (case col_index ns c of Some i \<Rightarrow> Some (Suc i) | None \<Rightarrow> if n = c then Some 0 else None)"

definition column :: "string list \<Rightarrow> string list \<Rightarrow> string \<Rightarrow> string" where
  "column header rc c = (case col_index header c of Some i \<Rightarrow> rc ! i | None \<Rightarrow> [])"

section \<open>Parser: the ISK columns\<close>

definition isk_char :: "char \<Rightarrow> bool" where
  "isk_char c \<longleftrightarrow> is_digit c \<or> c = CHR ''.'' \<or> c = CHR ''-'' \<or> c = CHR ''+''"

definition drop_sign :: "string \<Rightarrow> string" where
  "drop_sign s = (case s of c # t \<Rightarrow> if c = CHR ''-'' \<or> c = CHR ''+'' then t else s | [] \<Rightarrow> [])"

text \<open>
  The strings of these characters that \<open>strconv.ParseFloat\<close> reads: a sign, digits and
  one point, with a digit somewhere. (What it reads besides, exponents, hexadecimal and
  the names of the special values, holds a character the next check refuses.)
\<close>

definition plain_decimal :: "string \<Rightarrow> bool" where
  "plain_decimal s =
     (let t = drop_sign s; i = takeWhile is_digit t
      in case dropWhile is_digit t of
           [] \<Rightarrow> i \<noteq> []
         | c # f \<Rightarrow> c = CHR ''.'' \<and> list_all is_digit f \<and> (i \<noteq> [] \<or> f \<noteq> []))"

definition before_point :: "string \<Rightarrow> string" where
  "before_point s = dropWhile (\<lambda>c. c = CHR ''+'' \<or> c = CHR ''-'') (takeWhile (\<lambda>c. c \<noteq> CHR ''.'') s)"

definition isk_column :: "string \<Rightarrow> gerr + string" where
  "isk_column s =
     (if s = [] then Inl (EText ''empty'')
      else if \<not> (list_all isk_char s \<and> plain_decimal s) then Inl (EText ''not a decimal'')
      else if 18 < length (before_point s) then Inl (EText ''exceeds numeric(20,2)'')
      else Inr s)"

section \<open>Parser: records\<close>

text \<open>An error that names the record and the column.\<close>

definition bad_column :: "int \<Rightarrow> string \<Rightarrow> gerr \<Rightarrow> gerr" where
  "bad_column n c e = EWrap (''record '' @ show_int n @ '': bad '' @ c @ '': '') e []"

definition need :: "int \<Rightarrow> string \<Rightarrow> 'a option \<Rightarrow> ('a \<Rightarrow> gerr + 'b) \<Rightarrow> gerr + 'b" where
  "need n c x k = (case x of None \<Rightarrow> Inl (bad_column n c (EText ''invalid value'')) | Some a \<Rightarrow> k a)"

definition need_isk :: "int \<Rightarrow> string \<Rightarrow> string \<Rightarrow> (string \<Rightarrow> gerr + 'b) \<Rightarrow> gerr + 'b" where
  "need_isk n c s k = (case isk_column s of Inl e \<Rightarrow> Inl (bad_column n c e) | Inr a \<Rightarrow> k a)"

text \<open>What the two filters keep.\<close>

definition wanted :: "day_filter \<Rightarrow> int \<Rightarrow> time \<Rightarrow> bool" where
  "wanted f rg lm \<longleftrightarrow>
     \<not> (case df_regions f of None \<Rightarrow> False | Some rs \<Rightarrow> rg \<notin> rs) \<and>
     \<not> (df_after f \<noteq> zero_time \<and> lm < df_after f)"

text \<open>One record: when it was scraped, and the row if it is kept.\<close>

definition parse_columns :: "(string \<Rightarrow> string) \<Rightarrow> int \<Rightarrow> int \<Rightarrow> time \<Rightarrow> gerr + everef_rec" where
  "parse_columns get n rg lm =
     need n ''date'' (parse_day (get ''date'')) (\<lambda>date.
     need n ''type_id'' (atoi (get ''type_id'')) (\<lambda>ty.
     need n ''volume'' (atoi (get ''volume'')) (\<lambda>volume.
     need n ''order_count'' (atoi (get ''order_count'')) (\<lambda>cnt.
     need_isk n ''average'' (get ''average'') (\<lambda>avg.
     need_isk n ''highest'' (get ''highest'') (\<lambda>high.
     need_isk n ''lowest'' (get ''lowest'') (\<lambda>low.
       Inr \<lparr>er_region = rg, er_type = ty, er_date = date, er_average = avg, er_highest = high,
         er_lowest = low, er_volume = volume, er_order_count = cnt, er_lm = lm\<rparr>)))))))"

definition parse_record :: "day_filter \<Rightarrow> (string \<Rightarrow> string) \<Rightarrow> int \<Rightarrow> gerr + (time \<times> everef_rec option)" where
  "parse_record f get n =
     need n ''http_last_modified'' (parse_rfc3339 (get ''http_last_modified'')) (\<lambda>lm.
     need n ''region_id'' (atoi (get ''region_id'')) (\<lambda>rg.
       if \<not> wanted f rg lm then Inr (lm, None)
       else map_sum id (\<lambda>row. (lm, Some row)) (parse_columns get n rg lm)))"

definition csv_error :: "csv_err \<Rightarrow> gerr" where
  "csv_error e = EText (case e of BareQuote \<Rightarrow> ''bare quote'' | QuoteErr \<Rightarrow> ''extraneous or missing quote''
     | ReadErr \<Rightarrow> ''read error'' | FieldCount \<Rightarrow> ''wrong number of fields'')"

text \<open>The loop: rows newest first, the watermark, the number of records read.\<close>

function parse_loop ::
  "day_filter \<Rightarrow> string list \<Rightarrow> bool \<Rightarrow> string \<Rightarrow> everef_rec list \<Rightarrow> time \<Rightarrow> int \<Rightarrow> gerr + (everef_rec list \<times> time \<times> int)"
where
  "parse_loop f header bad s rows wm seen =
     (case csv_read bad s of
        CsvEOF \<Rightarrow> Inr (rev rows, wm, seen)
      | CsvErr e \<Rightarrow> Inl (EWrap (''read record '' @ show_int seen @ '': '') (csv_error e) [])
      | CsvRec rc t \<Rightarrow>
          if length rc \<noteq> length header
          then Inl (EWrap (''read record '' @ show_int seen @ '': '') (csv_error FieldCount) [])
          else case parse_record f (column header rc) (seen + 1) of
                 Inl e \<Rightarrow> Inl e
               | Inr (lm, kept) \<Rightarrow>
                   parse_loop f header bad t (case kept of None \<Rightarrow> rows | Some r \<Rightarrow> r # rows)
                     (if wm < lm then lm else wm) (seen + 1))"
  by pat_completeness auto
termination
  by (relation "measure (\<lambda>(f, header, bad, s, rows, wm, seen). length s)") (auto dest: csv_read_consumes)

declare parse_loop.simps [simp del]

text \<open>The verb \<open>%v\<close> of a slice of strings.\<close>

fun join_space :: "string list \<Rightarrow> string" where
  "join_space [] = []"
| "join_space [x] = x"
| "join_space (x # xs) = x @ '' '' @ join_space xs"

definition parse_file :: "day_filter \<Rightarrow> stream \<Rightarrow> gerr + (everef_rec list \<times> time \<times> int)" where
  "parse_file f st =
     (case csv_read (snd st) (csv_text (fst st)) of
        CsvEOF \<Rightarrow> Inl (EWrap ''read header: '' (EText ''EOF'') [])
      | CsvErr e \<Rightarrow> Inl (EWrap ''read header: '' (csv_error e) [])
      | CsvRec header t \<Rightarrow>
          (case find (\<lambda>c. col_index header c = None) want_cols of
             Some c \<Rightarrow> Inl (EText (''missing column '' @ quoted c @ '' in header ['' @ join_space header @ '']''))
           | None \<Rightarrow> parse_loop f header (snd st) t [] zero_time 0))"

section \<open>Days\<close>

text \<open>The keys of a map, given by its entries, oldest first.\<close>

definition Days :: "(string \<times> int) list \<Rightarrow> string list" where
  "Days totals = sort (map fst totals)"

end
