(* ===== verification/History_Store.thy ===== *)
theory History_Store
  imports Regions_Store Everef
begin

text \<open>
  internal/store/history.go: the yearly partitions, the import of one day file in a
  transaction with its bookkeeping, and the coverage query.
\<close>

section \<open>Partitions\<close>

definition history_staging :: string where
  "history_staging = ''stg_history''"

definition history_cols :: "string list" where
  "history_cols = [''region_id'', ''type_id'', ''date'', ''average'', ''highest'', ''lowest'',
     ''volume'', ''order_count'', ''http_last_modified'']"

definition create_history_staging :: "nat \<Rightarrow> db \<Rightarrow> gerr + (unit \<times> db)" where
  "create_history_staging k d =
     Inr ((), case ht_staging (db_hist d) of
                None \<Rightarrow> d\<lparr>db_hist := (db_hist d)\<lparr>ht_staging := Some []\<rparr>\<rparr>
              | Some rows \<Rightarrow> d)"

text \<open>
  The bounds are written \<open>'%d-01-01'\<close>, which is a date for years of at least four
  digits; shorter years are refused or mean something else, and no day this service selects
  is in one.
\<close>

definition create_year :: "int \<Rightarrow> nat \<Rightarrow> db \<Rightarrow> gerr + (unit \<times> db)" where
  "create_year y k d =
     (if y < 1000 then Inl (EText ''invalid partition bound'')
      else Inr ((), d\<lparr>db_hist := (db_hist d)\<lparr>ht_years := insert y (ht_years (db_hist d))\<rparr>\<rparr>))"

definition ensure_history_year :: "db_env \<Rightarrow> int \<Rightarrow> unit db_call" where
  "ensure_history_year env y =
     db_wrap (''create history partition '' @ show_int y @ '': '') (db_exec env (create_year y))"

fun ensure_years :: "db_env \<Rightarrow> int list \<Rightarrow> unit db_call" where
  "ensure_years env [] = db_return ()"
| "ensure_years env (y # ys) = db_then (ensure_history_year env y) (\<lambda>_. ensure_years env ys)"

definition ensure_history_partitions :: "db_env \<Rightarrow> time \<Rightarrow> time \<Rightarrow> unit db_call" where
  "ensure_history_partitions env from until =
     db_then (db_wrap ''create history staging: '' (db_exec env create_history_staging))
       (\<lambda>_. ensure_years env [time_year from..time_year until])"

section \<open>Bookkeeping\<close>

record everef_day =
  ed_day :: time
  ed_totals :: int
  ed_upserted :: int
  ed_watermark :: time
  ed_imported_at :: time

definition scan_day :: "int \<times> everef_row \<Rightarrow> everef_day" where
  "scan_day row = \<lparr>ed_day = day_time (fst row), ed_totals = ev_totals (snd row), ed_upserted = ev_upserted (snd row),
     ed_watermark = (case ev_watermark (snd row) of None \<Rightarrow> zero_time | Some w \<Rightarrow> w),
     ed_imported_at = ev_imported_at (snd row)\<rparr>"

text \<open>The map \<open>EverefDays\<close> builds: a later row with an equal key would replace an earlier one.\<close>

definition days_map :: "(int \<times> everef_row) list \<Rightarrow> string \<rightharpoonup> everef_day" where
  "days_map rows = map_of (rev (map (\<lambda>row. (format_day (fst row), scan_day row)) rows))"

definition everef_days :: "db_env \<Rightarrow> (string \<rightharpoonup> everef_day) db_call" where
  "everef_days env =
     db_then (db_wrap ''load everef_day: '' (db_ping env)) (\<lambda>_.
     db_then (db_ping env) (\<lambda>_ d. (Inr (days_map (ht_days (db_hist d))), d)))"

definition day_row :: "int \<Rightarrow> int \<Rightarrow> time \<Rightarrow> time \<Rightarrow> everef_row" where
  "day_row totals upserted wm now = \<lparr>ev_totals = totals, ev_upserted = upserted,
     ev_watermark = (if wm = zero_time then None else Some (micros wm)), ev_imported_at = micros now\<rparr>"

definition record_day :: "int \<Rightarrow> everef_row \<Rightarrow> nat \<Rightarrow> db \<Rightarrow> gerr + (unit \<times> db)" where
  "record_day day new k d =
     (let h = db_hist d; rows = ht_days h
      in case map_of rows day of
           None \<Rightarrow> Inr ((), d\<lparr>db_hist := h\<lparr>ht_days := rows @ [(day, new)]\<rparr>\<rparr>)
         | Some old \<Rightarrow>
             if \<not> int64_ok (ev_upserted old + ev_upserted new) then Inl (EText ''bigint out of range'')
             else Inr ((), d\<lparr>db_hist := h\<lparr>ht_days :=
               map (\<lambda>(i, r). (i, if i = day then new\<lparr>ev_upserted := ev_upserted old + ev_upserted new\<rparr> else r)) rows\<rparr>\<rparr>))"

section \<open>ImportHistory\<close>

text \<open>A parsed row as the columns store it.\<close>

definition cast_hist :: "db_env \<Rightarrow> everef_rec \<Rightarrow> hist_row option" where
  "cast_hist env r =
     (case (de_numeric env (er_average r), de_numeric env (er_highest r), de_numeric env (er_lowest r)) of
        (Some a, Some h, Some l) \<Rightarrow>
          Some \<lparr>hr_region = er_region r, hr_type = er_type r, hr_date = er_date r, hr_average = a, hr_highest = h,
            hr_lowest = l, hr_volume = er_volume r, hr_order_count = er_order_count r, hr_last_modified = micros (er_lm r)\<rparr>
      | _ \<Rightarrow> None)"

fun cast_all :: "db_env \<Rightarrow> everef_rec list \<Rightarrow> hist_row list option" where
  "cast_all env [] = Some []"
| "cast_all env (r # rs) =
     (case (cast_hist env r, cast_all env rs) of (Some h, Some hs) \<Rightarrow> Some (h # hs) | _ \<Rightarrow> None)"

definition truncate_history :: "nat \<Rightarrow> db \<Rightarrow> gerr + (unit \<times> db)" where
  "truncate_history k d =
     (case ht_staging (db_hist d) of
        None \<Rightarrow> Inl (EText ''undefined table'')
      | Some old \<Rightarrow> Inr ((), d\<lparr>db_hist := (db_hist d)\<lparr>ht_staging := Some []\<rparr>\<rparr>))"

definition copy_history :: "db_env \<Rightarrow> everef_rec list \<Rightarrow> nat \<Rightarrow> db \<Rightarrow> gerr + (unit \<times> db)" where
  "copy_history env rows k d =
     (case (ht_staging (db_hist d), copy_history_rows rows) of
        (Some old, Some sent) \<Rightarrow>
          (case cast_all env sent of
             None \<Rightarrow> Inl (EText ''invalid value'')
           | Some new \<Rightarrow> Inr ((), d\<lparr>db_hist := (db_hist d)\<lparr>ht_staging := Some (old @ new)\<rparr>\<rparr>))
      | _ \<Rightarrow> Inl (EText ''undefined table''))"

text \<open>\<open>DISTINCT ON (region_id, type_id, date) ... ORDER BY ..., http_last_modified DESC\<close>.\<close>

definition hist_key :: "hist_row \<Rightarrow> int \<times> int \<times> int" where
  "hist_key r = (hr_region r, hr_type r, hr_date r)"

definition newest :: "hist_row list \<Rightarrow> hist_row list" where
  "newest rows = filter (\<lambda>r. list_all (\<lambda>q. hr_last_modified q \<le> hr_last_modified r) rows) rows"

definition distinct_latest :: "(hist_row list \<Rightarrow> hist_row) \<Rightarrow> hist_row list \<Rightarrow> hist_row list" where
  "distinct_latest pick rows =
     map (\<lambda>i. pick (newest (filter (\<lambda>r. hist_key r = i) rows))) (remdups (map hist_key rows))"

definition hist_find :: "hist_row list \<Rightarrow> int \<times> int \<times> int \<Rightarrow> hist_row option" where
  "hist_find rows i = find (\<lambda>r. hist_key r = i) rows"

text \<open>\<open>ON CONFLICT ... DO UPDATE\<close> sets every column outside the key.\<close>

definition set_hist :: "hist_row \<Rightarrow> hist_row \<Rightarrow> hist_row" where
  "set_hist new r = r\<lparr>hr_average := hr_average new, hr_highest := hr_highest new, hr_lowest := hr_lowest new,
     hr_volume := hr_volume new, hr_order_count := hr_order_count new, hr_last_modified := hr_last_modified new\<rparr>"

definition upsert_rows :: "hist_row list \<Rightarrow> hist_row list \<Rightarrow> hist_row list" where
  "upsert_rows new old =
     map (\<lambda>r. case hist_find new (hist_key r) of Some n \<Rightarrow> set_hist n r | None \<Rightarrow> r) old @
     filter (\<lambda>n. hist_find old (hist_key n) = None) new"

definition upsert_history :: "db_env \<Rightarrow> nat \<Rightarrow> db \<Rightarrow> gerr + (int \<times> db)" where
  "upsert_history env k d =
     (case ht_staging (db_hist d) of
        None \<Rightarrow> Inl (EText ''undefined table'')
      | Some stg \<Rightarrow>
          (let new = distinct_latest (de_pick_hist env k) stg
           in if list_all (\<lambda>r. year_of (hr_date r) \<in> ht_years (db_hist d)) new
              then Inr (int (length new), d\<lparr>db_hist := (db_hist d)\<lparr>ht_rows := upsert_rows new (ht_rows (db_hist d))\<rparr>\<rparr>)
              else Inl (EText ''no partition of relation found for row'')))"

definition import_rows :: "db_env \<Rightarrow> int \<Rightarrow> everef_rec list \<Rightarrow> int db_call" where
  "import_rows env day rows =
     (if rows = [] then db_return 0
      else
        db_then (db_wrap ''truncate history staging: '' (db_stmt env truncate_history)) (\<lambda>_.
        db_then (db_wrap ''copy history staging: '' (db_stmt env (copy_history env rows))) (\<lambda>_.
        db_wrap (''upsert history for '' @ format_day day @ '': '') (db_stmt env (upsert_history env)))))"

definition import_history ::
  "db_env \<Rightarrow> int \<Rightarrow> everef_rec list \<Rightarrow> int \<Rightarrow> time \<Rightarrow> time \<Rightarrow> int db_call" where
  "import_history env day rows totals wm now =
     db_then (ensure_history_year env (year_of day)) (\<lambda>_.
     db_then (db_wrap ''acquire history conn: '' (db_ping env)) (\<lambda>_.
     db_tx env (Some ''commit history import: '')
       (db_then (import_rows env day rows) (\<lambda>upserted.
        db_then (db_wrap ''record everef_day: '' (db_stmt env (record_day day (day_row totals upserted wm now)))) (\<lambda>_.
        db_return upserted)))))"

section \<open>HistoryCoverage\<close>

definition coverage_of :: "hist_row list \<Rightarrow> int \<times> time \<times> time" where
  "coverage_of rows =
     (let dates = map hr_date rows
      in (int (length rows),
          if rows = [] then zero_time else day_time (Min (set dates)),
          if rows = [] then zero_time else day_time (Max (set dates))))"

definition coverage_stmt :: "nat \<Rightarrow> db \<Rightarrow> gerr + ((int \<times> time \<times> time) \<times> db)" where
  "coverage_stmt k d = Inr (coverage_of (ht_rows (db_hist d)), d)"

definition history_coverage :: "db_env \<Rightarrow> (int \<times> time \<times> time) db_call" where
  "history_coverage env = db_wrap ''history coverage: '' (db_exec env coverage_stmt)"

end
