(* ===== verification/Everef_Laws.thy ===== *)
theory Everef_Laws
  imports Everef
begin

text \<open>
  What the parser of a day file computes: the records it keeps, the watermark, the
  equivalence of an incremental read with a full one, the ISK columns and the day keys.
\<close>

section \<open>Records\<close>

text \<open>All records of a text, read to the end.\<close>

function csv_records :: "bool \<Rightarrow> string \<Rightarrow> csv_err + string list list" where
  "csv_records bad s =
     (case csv_read bad s of
        CsvEOF \<Rightarrow> Inr []
      | CsvErr e \<Rightarrow> Inl e
      | CsvRec rc t \<Rightarrow> map_sum id (Cons rc) (csv_records bad t))"
  by pat_completeness auto
termination
  by (relation "measure (\<lambda>(bad, s). length s)") (auto dest: csv_read_consumes)

declare csv_records.simps [simp del]

definition lm_of :: "string list \<Rightarrow> string list \<Rightarrow> time" where
  "lm_of header rc = the (parse_rfc3339 (column header rc ''http_last_modified''))"

definition rg_of :: "string list \<Rightarrow> string list \<Rightarrow> int" where
  "rg_of header rc = the (atoi (column header rc ''region_id''))"

definition row_of :: "string list \<Rightarrow> string list \<Rightarrow> everef_rec option" where
  "row_of header rc =
     (case parse_columns (column header rc) 0 (rg_of header rc) (lm_of header rc) of Inr r \<Rightarrow> Some r | Inl e \<Rightarrow> None)"

definition keeps :: "day_filter \<Rightarrow> string list \<Rightarrow> string list \<Rightarrow> bool" where
  "keeps f header rc \<longleftrightarrow> wanted f (rg_of header rc) (lm_of header rc)"

lemma need_Inr [simp]: "need n c x k = Inr b \<longleftrightarrow> (\<exists>a. x = Some a \<and> k a = Inr b)"
  by (simp add: need_def split: option.split)

lemma need_isk_Inr [simp]: "need_isk n c s k = Inr b \<longleftrightarrow> (\<exists>a. isk_column s = Inr a \<and> k a = Inr b)"
  by (simp add: need_isk_def split: sum.split)

lemma parse_columns_number: "parse_columns get n rg lm = Inr r \<Longrightarrow> parse_columns get m rg lm = Inr r"
  unfolding parse_columns_def need_Inr need_isk_Inr .

lemma parse_columns_lm: "parse_columns get n rg lm = Inr r \<Longrightarrow> er_lm r = lm \<and> er_region r = rg"
  unfolding parse_columns_def need_Inr need_isk_Inr by auto

lemma map_sum_Inr: "map_sum id g x = Inr y \<longleftrightarrow> (\<exists>r. x = Inr r \<and> y = g r)"
  by (cases x) auto

lemma parse_record_Inr:
  "parse_record f get n = Inr (lm, kept) \<longleftrightarrow>
     parse_rfc3339 (get ''http_last_modified'') = Some lm \<and>
     (\<exists>rg. atoi (get ''region_id'') = Some rg \<and>
        (if wanted f rg lm then \<exists>r. parse_columns get n rg lm = Inr r \<and> kept = Some r else kept = None))"
  unfolding parse_record_def need_Inr by (auto simp: map_sum_Inr split: if_splits)

lemma parse_record_column:
  assumes "parse_record f (column header rc) n = Inr (lm, kept)"
  shows "lm = lm_of header rc" "keeps f header rc \<Longrightarrow> row_of header rc = kept \<and> kept \<noteq> None"
    "\<not> keeps f header rc \<Longrightarrow> kept = None"
  using assms parse_columns_number [of "column header rc" n _ _ _ 0]
  by (auto simp: parse_record_Inr keeps_def lm_of_def rg_of_def row_of_def split: if_splits)

lemma max_if: "(if x < y then y else x) = max x y" for x y :: int
  by (simp add: max_def)

text \<open>What a successful read of the rest of a file adds to what was read before.\<close>

lemma parse_loop_ok:
  assumes "parse_loop f header bad s rows wm seen = Inr (out, wm', seen')"
  shows "\<exists>recs. csv_records bad s = Inr recs \<and> seen' = seen + int (length recs) \<and>
    wm' = foldl max wm (map (lm_of header) recs) \<and>
    out = rev rows @ List.map_filter (row_of header) (filter (keeps f header) recs) \<and>
    (\<forall>rc \<in> set recs. length rc = length header \<and> (keeps f header rc \<longrightarrow> row_of header rc \<noteq> None))"
  using assms
proof (induction f header bad s rows wm seen rule: parse_loop.induct)
  case (1 f header bad s rows wm seen)
  show ?case
  proof (cases "csv_read bad s")
    case CsvEOF
    with "1.prems" show ?thesis
      by (simp add: parse_loop.simps [of f header bad s] csv_records.simps [of bad s] map_filter_simps)
  next
    case (CsvErr e)
    with "1.prems" show ?thesis by (simp add: parse_loop.simps [of f header bad s])
  next
    case (CsvRec rc t)
    with "1.prems" obtain lm kept where len: "length rc = length header"
      and p: "parse_record f (column header rc) (seen + 1) = Inr (lm, kept)"
      by (auto simp: parse_loop.simps [of f header bad s] split: if_splits sum.splits)
    let ?rows = "case kept of None \<Rightarrow> rows | Some r \<Rightarrow> r # rows"
    from "1.prems" CsvRec len p have
      "parse_loop f header bad t ?rows (if wm < lm then lm else wm) (seen + 1) = Inr (out, wm', seen')"
      by (simp add: parse_loop.simps [of f header bad s])
    from "1.IH" [OF CsvRec _ p refl this] len obtain recs where
      r: "csv_records bad t = Inr recs" "seen' = seen + 1 + int (length recs)"
        "wm' = foldl max (if wm < lm then lm else wm) (map (lm_of header) recs)"
        "out = rev ?rows @ List.map_filter (row_of header) (filter (keeps f header) recs)"
        "\<forall>rc \<in> set recs. length rc = length header \<and> (keeps f header rc \<longrightarrow> row_of header rc \<noteq> None)"
      by auto
    have "csv_records bad s = Inr (rc # recs)" using CsvRec r(1) by (simp add: csv_records.simps [of bad s])
    moreover have "out = rev rows @ List.map_filter (row_of header) (filter (keeps f header) (rc # recs))"
      using parse_record_column [OF p] unfolding r(4) by (cases kept) (auto simp: map_filter_simps)
    moreover have "wm' = foldl max wm (map (lm_of header) (rc # recs))"
      using parse_record_column(1) [OF p] unfolding r(3) max_if by simp
    moreover have "\<forall>q \<in> set (rc # recs). length q = length header \<and> (keeps f header q \<longrightarrow> row_of header q \<noteq> None)"
      using r(5) len parse_record_column(2) [OF p] by auto
    ultimately show ?thesis using r(2) by (intro exI [of _ "rc # recs"]) simp
  qed
qed

section \<open>Incremental reads\<close>

definition since :: "time \<Rightarrow> everef_rec \<Rightarrow> bool" where
  "since w r \<longleftrightarrow> w = zero_time \<or> w \<le> er_lm r"

lemma wanted_after:
  "df_after f = zero_time \<Longrightarrow>
   wanted (f\<lparr>df_after := w\<rparr>) rg lm \<longleftrightarrow> wanted f rg lm \<and> (w = zero_time \<or> w \<le> lm)"
  by (auto simp: wanted_def)

lemma parse_loop_since:
  assumes "df_after f = zero_time" "parse_loop f header bad s rows wm seen = Inr (out, wm', seen')"
  shows "parse_loop (f\<lparr>df_after := w\<rparr>) header bad s (filter (since w) rows) wm seen = Inr (filter (since w) out, wm', seen')"
  using assms
proof (induction f header bad s rows wm seen rule: parse_loop.induct)
  case (1 f header bad s rows wm seen)
  show ?case
  proof (cases "csv_read bad s")
    case CsvEOF
    with "1.prems" show ?thesis
      by (auto simp: parse_loop.simps [of f header bad s] parse_loop.simps [of _ header bad s] rev_filter)
  next
    case (CsvErr e)
    with "1.prems" show ?thesis by (simp add: parse_loop.simps [of f header bad s])
  next
    case (CsvRec rc t)
    with "1.prems" obtain lm kept where len: "length rc = length header"
      and p: "parse_record f (column header rc) (seen + 1) = Inr (lm, kept)"
      by (auto simp: parse_loop.simps [of f header bad s] split: if_splits sum.splits)
    let ?rows = "case kept of None \<Rightarrow> rows | Some r \<Rightarrow> r # rows"
    let ?kept = "case kept of None \<Rightarrow> None | Some r \<Rightarrow> if since w r then Some r else None"
    from "1.prems" CsvRec len p have
      "parse_loop f header bad t ?rows (if wm < lm then lm else wm) (seen + 1) = Inr (out, wm', seen')"
      by (simp add: parse_loop.simps [of f header bad s])
    from "1.IH" [OF CsvRec _ p refl "1.prems"(1) this] len have rest:
      "parse_loop (f\<lparr>df_after := w\<rparr>) header bad t (filter (since w) ?rows) (if wm < lm then lm else wm) (seen + 1) =
        Inr (filter (since w) out, wm', seen')" by simp
    have "parse_record (f\<lparr>df_after := w\<rparr>) (column header rc) (seen + 1) = Inr (lm, ?kept)"
      using p parse_columns_lm unfolding parse_record_Inr wanted_after [OF "1.prems"(1)]
      by (fastforce simp: since_def split: if_splits)
    moreover have "filter (since w) ?rows = (case ?kept of None \<Rightarrow> filter (since w) rows | Some r \<Rightarrow> r # filter (since w) rows)"
      by (cases kept) auto
    ultimately show ?thesis using CsvRec len rest
      by (simp add: parse_loop.simps [of "f\<lparr>df_after := w\<rparr>" header bad s])
  qed
qed

lemma parse_file_header:
  assumes "parse_file f st = Inr (out, wm, seen)"
  obtains header t where "csv_read (snd st) (csv_text (fst st)) = CsvRec header t"
    "\<forall>c \<in> set want_cols. col_index header c \<noteq> None"
    "parse_loop f header (snd st) t [] zero_time 0 = Inr (out, wm, seen)"
  using assms
  by (auto simp: parse_file_def find_None_iff split: csv_next.splits option.splits)

text \<open>An incremental read is the full read less the rows scraped before its bound.\<close>

lemma parse_file_since:
  assumes "df_after f = zero_time" "parse_file f st = Inr (out, wm, seen)"
  shows "parse_file (f\<lparr>df_after := w\<rparr>) st = Inr (filter (since w) out, wm, seen)"
proof (rule parse_file_header [OF assms(2)])
  fix header t
  assume h: "csv_read (snd st) (csv_text (fst st)) = CsvRec header t" "\<forall>c \<in> set want_cols. col_index header c \<noteq> None"
    "parse_loop f header (snd st) t [] zero_time 0 = Inr (out, wm, seen)"
  from h(2) have "find (\<lambda>c. col_index header c = None) want_cols = None" by (simp add: find_None_iff)
  with h(1) parse_loop_since [OF assms(1) h(3), of w] show ?thesis by (simp add: parse_file_def)
qed

lemma foldl_max: "a \<le> foldl max a xs" "x \<in> set xs \<Longrightarrow> x \<le> foldl max a xs" for a x :: int
proof -
  have up: "b \<le> foldl max b ys" for b :: int and ys
    by (induction ys arbitrary: b) (auto intro: order_trans [OF max.cobounded1])
  then show "a \<le> foldl max a xs" .
  show "x \<in> set xs \<Longrightarrow> x \<le> foldl max a xs"
  proof (induction xs arbitrary: a)
    case (Cons y ys)
    with order_trans [OF max.cobounded2 up, of x a ys] show ?case by auto
  qed simp
qed

lemma row_of_lm: "row_of header rc = Some r \<Longrightarrow> er_lm r = lm_of header rc \<and> er_region r = rg_of header rc"
  by (auto simp: row_of_def dest: parse_columns_lm split: sum.splits)

lemma parse_file_rows:
  assumes "parse_file f st = Inr (out, wm, seen)" "r \<in> set out"
  shows "er_lm r \<le> wm" "wanted f (er_region r) (er_lm r)"
proof -
  from parse_file_header [OF assms(1)] obtain header t where
    "parse_loop f header (snd st) t [] zero_time 0 = Inr (out, wm, seen)" by blast
  from parse_loop_ok [OF this] obtain recs where
    r: "wm = foldl max zero_time (map (lm_of header) recs)"
      "out = List.map_filter (row_of header) (filter (keeps f header) recs)" by auto
  from assms(2) r(2) obtain rc where "rc \<in> set recs" "keeps f header rc" "row_of header rc = Some r"
    by (auto simp: List.map_filter_def)
  with row_of_lm foldl_max(2) [of "lm_of header rc" "map (lm_of header) recs" zero_time]
  show "er_lm r \<le> wm" "wanted f (er_region r) (er_lm r)" by (auto simp: r(1) keeps_def)
qed

section \<open>The ISK columns\<close>

text \<open>
  What \<open>numeric(20,2)\<close> makes of a plain decimal, in hundredths: the value rounded half
  away from zero. The column holds less than \<open>10 ^ 20\<close> hundredths.
\<close>

definition abs_hundredths :: "string \<Rightarrow> int" where
  "abs_hundredths s =
     (let t = drop_sign s; i = takeWhile is_digit t; f = drop 1 (dropWhile is_digit t); k = length f
      in case digits_val 0 (i @ f) of
           None \<Rightarrow> 0
         | Some n \<Rightarrow> if k \<le> 2 then n * 10 ^ (2 - k) else (2 * n + 10 ^ (k - 2)) div (2 * 10 ^ (k - 2)))"

lemma isk_column_Inr:
  "isk_column s = Inr t \<longleftrightarrow> t = s \<and> list_all isk_char s \<and> plain_decimal s \<and> length (before_point s) \<le> 18"
  by (auto simp: isk_column_def plain_decimal_def drop_sign_def)

lemma digit_not_sign: "is_digit c \<Longrightarrow> c \<noteq> CHR ''.'' \<and> c \<noteq> CHR ''+'' \<and> c \<noteq> CHR ''-''"
  by (auto simp: is_digit_def)

lemma take_until_point:
  assumes "dropWhile is_digit t = [] \<or> (\<exists>f. dropWhile is_digit t = CHR ''.'' # f)"
  shows "takeWhile (\<lambda>c. c \<noteq> CHR ''.'') t = takeWhile is_digit t"
  using assms
proof (induction t)
  case (Cons c t)
  then show ?case using digit_not_sign [of c] by (cases "is_digit c") auto
qed simp

lemma drop_signs_digits: "list_all is_digit i \<Longrightarrow> dropWhile (\<lambda>c. c = CHR ''+'' \<or> c = CHR ''-'') i = i"
  using digit_not_sign by (cases i) auto

lemma before_point_digits:
  assumes "plain_decimal s"
  shows "before_point s = takeWhile is_digit (drop_sign s)"
proof -
  let ?t = "drop_sign s"
  have "dropWhile is_digit ?t = [] \<or> (\<exists>f. dropWhile is_digit ?t = CHR ''.'' # f)"
    using assms by (auto simp: plain_decimal_def Let_def split: list.splits)
  note t = take_until_point [OF this]
  have d: "list_all is_digit (takeWhile is_digit ?t)" by (auto simp: list_all_iff dest: set_takeWhileD)
  show ?thesis
  proof (cases "?t = s")
    case True
    with t drop_signs_digits [OF d] show ?thesis by (simp add: before_point_def)
  next
    case False
    then obtain c u where s: "s = c # u" "c = CHR ''-'' \<or> c = CHR ''+''" "?t = u"
      by (auto simp: drop_sign_def split: list.splits if_splits)
    with t drop_signs_digits [OF d] show ?thesis by (auto simp: before_point_def)
  qed
qed

lemma digits_val_total: "list_all is_digit ds \<Longrightarrow> \<exists>v. digits_val a ds = Some v"
  by (induction ds arbitrary: a) auto

text \<open>
  Accepted values fit the column, but for the rounding of the last digits: one just below
  \<open>10 ^ 18\<close> ISK can round up to it.
\<close>

lemma isk_column_bound:
  assumes "isk_column s = Inr t"
  shows "t = s" "0 \<le> abs_hundredths s" "abs_hundredths s \<le> 10 ^ 20"
proof -
  from assms have s: "t = s" "plain_decimal s" "length (before_point s) \<le> 18" by (simp_all add: isk_column_Inr)
  then show "t = s" by simp
  define i f where "i = takeWhile is_digit (drop_sign s)" and "f = drop 1 (dropWhile is_digit (drop_sign s))"
  have "list_all is_digit f"
  proof (cases "dropWhile is_digit (drop_sign s)")
    case Nil
    then show ?thesis unfolding f_def Nil by simp
  next
    case (Cons c u)
    with s(2) show ?thesis unfolding f_def by (simp add: plain_decimal_def Let_def)
  qed
  moreover have "list_all is_digit i" by (auto simp: i_def list_all_iff dest: set_takeWhileD)
  ultimately obtain n where n: "digits_val 0 (i @ f) = Some n" using digits_val_total [of "i @ f" 0] by auto
  have i18: "length i \<le> 18" using s(3) before_point_digits [OF s(2)] by (simp add: i_def)
  have "n < 10 ^ length (i @ f)" using digits_val_bound [OF n] by simp
  also have "\<dots> \<le> 10 ^ (18 + length f)" using i18 by (intro power_increasing) simp_all
  finally have n1: "n < 10 ^ 18 * 10 ^ length f" by (simp add: power_add)
  have n0: "0 \<le> n" using digits_val_nonneg [OF n] by simp
  have h: "abs_hundredths s = (if length f \<le> 2 then n * 10 ^ (2 - length f)
      else (2 * n + 10 ^ (length f - 2)) div (2 * 10 ^ (length f - 2)))"
    using n by (simp add: abs_hundredths_def Let_def i_def f_def)
  show "0 \<le> abs_hundredths s" using n0 by (simp add: h pos_imp_zdiv_nonneg_iff)
  show "abs_hundredths s \<le> 10 ^ 20"
  proof (cases "length f \<le> 2")
    case True
    have "n * 10 ^ (2 - length f) \<le> 10 ^ 18 * 10 ^ length f * 10 ^ (2 - length f)"
      using n1 by (intro mult_right_mono) simp_all
    also have "\<dots> = 10 ^ 20" using True by (simp flip: power_add)
    finally show ?thesis by (simp add: h True)
  next
    case False
    define p :: int where "p = 10 ^ (length f - 2)"
    have "length f = 2 + (length f - 2)" using False by linarith
    then have "(10::int) ^ length f = 10 ^ (2 + (length f - 2))" by (rule arg_cong [where f = "power 10"])
    also have "\<dots> = 100 * p" by (simp only: power_add p_def) simp
    finally have "(10::int) ^ length f = 100 * p" .
    moreover have p: "0 < p" by (simp add: p_def)
    ultimately have lt: "2 * n + p < (10 ^ 20 + 1) * (2 * p)" using n1 by simp
    have "(2 * n + p) div (2 * p) * (2 * p) \<le> 2 * n + p" using p div_mult_mod_eq [of "2 * n + p" "2 * p"] pos_mod_sign [of "2 * p" "2 * n + p"] by linarith
    with lt have "(2 * n + p) div (2 * p) * (2 * p) < (10 ^ 20 + 1) * (2 * p)" by (rule order.strict_trans1 [rotated])
    with p have "(2 * n + p) div (2 * p) < 10 ^ 20 + 1" by (simp only: mult_less_cancel_right)
    with False show ?thesis by (simp add: h p_def)
  qed
qed

lemma isk_column_edge:
  "isk_column ''999999999999999999.995'' = Inr ''999999999999999999.995'' \<and>
   abs_hundredths ''999999999999999999.995'' = 10 ^ 20"
  by (simp add: isk_column_def isk_char_def is_digit_def plain_decimal_def drop_sign_def before_point_def
      abs_hundredths_def Let_def digit_val_def)

section \<open>Day keys in order\<close>

lemma less_append:
  "length xs = length ys \<Longrightarrow> xs @ u < ys @ v \<longleftrightarrow> xs < ys \<or> xs = ys \<and> u < v"
  for xs ys u v :: string
  by (induction xs ys rule: list_induct2) auto

lemma digit_less: "c < d \<longleftrightarrow> digit_val c < digit_val d" for c d :: char
proof -
  show ?thesis unfolding less_char_def digit_val_def
    using of_nat_of_char [where 'a = int, of c] of_nat_of_char [where 'a = int, of d] by linarith
qed

lemma digits_val_less:
  "digits_val a xs = Some v \<Longrightarrow> digits_val b ys = Some w \<Longrightarrow> length xs = length ys \<Longrightarrow> a < b \<Longrightarrow> v < w"
proof (induction xs arbitrary: a b ys)
  case (Cons x xs)
  from Cons.prems(3) obtain y zs where ys: "ys = y # zs" "length xs = length zs" by (cases ys) auto
  from Cons.prems ys have d: "is_digit x" "is_digit y" by (auto split: if_splits)
  from Cons.prems(4) digit_val_range [OF d(1)] digit_val_range [OF d(2)] have "10 * a + digit_val x < 10 * b + digit_val y"
    by linarith
  with Cons.IH Cons.prems ys d show ?case by (auto split: if_splits)
qed simp

lemma digits_val_mono:
  "digits_val a xs = Some v \<Longrightarrow> digits_val a ys = Some w \<Longrightarrow> length xs = length ys \<Longrightarrow> xs < ys \<Longrightarrow> v < w"
proof (induction xs arbitrary: a ys)
  case (Cons x xs)
  from Cons.prems(3) obtain y zs where ys: "ys = y # zs" "length xs = length zs" by (cases ys) auto
  from Cons.prems ys have d: "digits_val (10 * a + digit_val x) xs = Some v" "digits_val (10 * a + digit_val y) zs = Some w"
    by (auto split: if_splits)
  show ?case
  proof (cases "x = y")
    case True
    with Cons.IH [OF d(1)] d(2) ys Cons.prems(4) show ?thesis by simp
  next
    case False
    with Cons.prems(4) ys digit_less [of x y] have "10 * a + digit_val x < 10 * a + digit_val y" by simp
    with digits_val_less [OF d ys(2)] show ?thesis by simp
  qed
qed simp

lemma pad_mono:
  assumes "0 \<le> a" "a < 10 ^ w" "0 \<le> b" "b < 10 ^ w" "0 < w"
  shows "pad w a < pad w b \<longleftrightarrow> a < b"
proof -
  note p = pad_facts [OF assms(1,2,5)] pad_facts [OF assms(3,4,5)]
  have fwd: "pad w a < pad w b \<Longrightarrow> a < b" using digits_val_mono [OF p(2,4)] p(1,3) by simp
  have bwd: "pad w b < pad w a \<Longrightarrow> b < a" using digits_val_mono [OF p(4,2)] p(1,3) by simp
  have "pad w a = pad w b \<Longrightarrow> a = b" using p(2,4) by (metis option.inject)
  with fwd bwd show ?thesis by (metis less_asym neq_iff)
qed

lemma day_number_mono:
  assumes "valid_date y m d" "valid_date z k e" "y < z \<or> y = z \<and> (m < k \<or> m = k \<and> d < e)"
  shows "day_number y m d < day_number z k e"
proof -
  from assms(3) consider "y < z" | "y = z" "m < k" | "y = z" "m = k" "d < e" by blast
  then show ?thesis
  proof cases
    case 1
    have "day_number y m d < days_before_year (y + 1)"
      using day_in_year [OF assms(1)] by (simp add: day_number_def days_before_next split: if_splits)
    also have "\<dots> \<le> days_before_year z" using 1 by (intro days_before_mono) simp
    also have "\<dots> \<le> day_number z k e" using day_in_year(1) [OF assms(2)] by (simp add: day_number_def)
    finally show ?thesis .
  next
    case 2
    let ?ls = "month_days (leap y)"
    define i j where "i = nat (m - 1)" and "j = nat (k - 1)"
    have ij: "i < j" "j < 12" using 2 assms(1,2) by (auto simp: valid_date_def i_def j_def)
    have "take j ?ls = take i ?ls @ ?ls ! i # take (j - Suc i) (drop (Suc i) ?ls)"
      using ij month_days_facts(1) [of "leap y"]
      by (simp add: Cons_nth_drop_Suc flip: take_drop take_Suc_Cons)
         (metis Suc_diff_Suc append_take_drop_id drop_take less_or_eq_imp_le min.absorb1 min.commute take_take)
    moreover have "0 \<le> sum_list (take (j - Suc i) (drop (Suc i) ?ls))"
      using month_days_facts(2) [of "leap y"]
      by (intro sum_list_nonneg) (auto simp: list_all_iff dest!: in_set_takeD in_set_dropD)
    ultimately have "sum_list (take i ?ls) + ?ls ! i \<le> sum_list (take j ?ls)" by simp
    with assms(1,2) 2 show ?thesis by (auto simp: day_number_def valid_date_def i_def j_def)
  next
    case 3
    then show ?thesis by (simp add: day_number_def)
  qed
qed

text \<open>The order of the keys as text is the order of the days.\<close>

lemma parse_day_mono:
  assumes "parse_day s = Some a" "parse_day t = Some b"
  shows "s < t \<longleftrightarrow> a < b"
proof -
  have key: "a < b" if "parse_day s = Some a" "parse_day t = Some b" "s < t" for s t a b
  proof -
    from that obtain y m d z k e where p: "parse_ymd s = Some ((y, m, d), [])" "valid_date y m d" "a = day_number y m d"
      "parse_ymd t = Some ((z, k, e), [])" "valid_date z k e" "b = day_number z k e"
      by (auto simp: parse_day_def bind_eq_Some_conv split: if_splits)
    note st = parse_ymd_text [OF p(1)] parse_ymd_text [OF p(4)]
    have r: "0 \<le> m" "m < 100" "0 \<le> d" "d < 100" "0 \<le> k" "k < 100" "0 \<le> e" "e < 100"
      using valid_date_day [OF p(2)] valid_date_day [OF p(5)] p(2,5) by (auto simp: valid_date_def)
    have eq: "pad w x = pad w x' \<Longrightarrow> x = x'" if "0 \<le> x" "x < 10 ^ w" "0 \<le> x'" "x' < 10 ^ w" "0 < w" for w x x'
      using pad_facts(2) [OF that(1,2,5)] pad_facts(2) [OF that(3-5)] by (metis option.inject)
    from st that(3) have "y < z \<or> y = z \<and> (m < k \<or> m = k \<and> d < e)"
      using r pad_mono [of y 4 z] pad_mono [of m 2 k] pad_mono [of d 2 e] eq [of y 4 z] eq [of m 2 k]
      by (auto simp: less_append pad_facts(1))
    from day_number_mono [OF p(2,5) this] p(3,6) show ?thesis by simp
  qed
  from key [OF assms] key [OF assms(2,1)] assms show ?thesis
    by (cases s t rule: linorder_cases) auto
qed

lemma Days_sorted: "sorted (Days totals)" "set (Days totals) = fst ` set totals"
  by (simp_all add: Days_def)

end
