(* ===== verification/History_Laws.thy ===== *)
theory History_Laws
  imports History_Store Everef_Laws
begin

text \<open>
  What an import does to the history: all of it or nothing, each key's newest row, other
  tables untouched; and why reading only what is new keeps the table in step with the
  whole file.
\<close>

section \<open>Upsert\<close>

lemma hist_find_Some: "hist_find rows i = Some r \<Longrightarrow> r \<in> set rows \<and> hist_key r = i"
  by (auto simp: hist_find_def find_Some_iff)

lemma hist_find_None: "hist_find rows i = None \<longleftrightarrow> i \<notin> hist_key ` set rows"
  by (auto simp: hist_find_def find_None_iff)

lemma hist_find_append: "hist_find (xs @ ys) i = (case hist_find xs i of Some r \<Rightarrow> Some r | None \<Rightarrow> hist_find ys i)"
  by (induction xs) (auto simp: hist_find_def)

lemma hist_find_map:
  "(\<And>r. hist_key (f r) = hist_key r) \<Longrightarrow> hist_find (map f xs) i = map_option f (hist_find xs i)"
  by (induction xs) (auto simp: hist_find_def)

lemma hist_find_filter: "hist_find (filter (\<lambda>n. P (hist_key n)) xs) i = (if P i then hist_find xs i else None)"
  by (induction xs) (auto simp: hist_find_def)

lemma set_hist_key [simp]: "hist_key (set_hist n r) = hist_key r"
  by (simp add: set_hist_def hist_key_def)

lemma set_hist_same: "hist_key n = hist_key r \<Longrightarrow> set_hist n r = n"
  by (cases n, cases r) (simp add: set_hist_def hist_key_def)

lemma upsert_find:
  "hist_find (upsert_rows new old) i = (case hist_find new i of Some n \<Rightarrow> Some n | None \<Rightarrow> hist_find old i)"
proof -
  let ?f = "\<lambda>r. case hist_find new (hist_key r) of Some n \<Rightarrow> set_hist n r | None \<Rightarrow> r"
  have "hist_key (?f r) = hist_key r" for r by (simp split: option.split)
  then have m: "hist_find (map ?f old) i = map_option ?f (hist_find old i)" by (rule hist_find_map)
  show ?thesis
  proof (cases "hist_find old i")
    case None
    with m show ?thesis
      by (simp add: upsert_rows_def hist_find_append hist_find_filter [of "\<lambda>i. hist_find old i = None"] split: option.split)
  next
    case (Some r)
    with hist_find_Some [OF Some] m have "hist_find (map ?f old) i = Some (case hist_find new i of Some n \<Rightarrow> set_hist n r | None \<Rightarrow> r)"
      by simp
    with Some hist_find_Some [OF Some] show ?thesis
      by (auto simp: upsert_rows_def hist_find_append set_hist_same dest: hist_find_Some split: option.splits)
  qed
qed

lemma upsert_keys:
  assumes "distinct (map hist_key new)" "distinct (map hist_key old)"
  shows "distinct (map hist_key (upsert_rows new old))"
    "hist_key ` set (upsert_rows new old) = hist_key ` set new \<union> hist_key ` set old"
proof -
  let ?f = "\<lambda>r. case hist_find new (hist_key r) of Some n \<Rightarrow> set_hist n r | None \<Rightarrow> r"
  have f: "hist_key (?f r) = hist_key r" for r by (simp split: option.split)
  then have "map hist_key (map ?f old) = map hist_key old" by simp
  moreover have "distinct (map hist_key (filter P new))" for P using assms(1) by (simp add: distinct_map_filter)
  ultimately show "distinct (map hist_key (upsert_rows new old))"
    using assms(2) by (auto simp: upsert_rows_def hist_find_None f simp del: map_map)
  have "i \<in> hist_key ` set (upsert_rows new old) \<longleftrightarrow> i \<in> hist_key ` set new \<union> hist_key ` set old" for i
    using hist_find_None [of "upsert_rows new old" i] hist_find_None [of new i] hist_find_None [of old i] upsert_find [of new old i]
    by (auto split: option.splits)
  then show "hist_key ` set (upsert_rows new old) = hist_key ` set new \<union> hist_key ` set old" by blast
qed

lemma newest_nonempty: "rows \<noteq> [] \<Longrightarrow> newest rows \<noteq> []"
proof -
  assume "rows \<noteq> []"
  then have "Max (hr_last_modified ` set rows) \<in> hr_last_modified ` set rows" by simp
  then obtain r where "r \<in> set rows" "hr_last_modified r = Max (hr_last_modified ` set rows)" by auto
  then have "r \<in> set (newest rows)" by (auto simp: newest_def list_all_iff)
  then show ?thesis by auto
qed

lemma latest_pick:
  assumes "picks_hist env" "i \<in> hist_key ` set rows"
  shows "de_pick_hist env k (newest (filter (\<lambda>r. hist_key r = i) rows)) \<in> set rows"
    "hist_key (de_pick_hist env k (newest (filter (\<lambda>r. hist_key r = i) rows))) = i"
    "q \<in> set rows \<Longrightarrow> hist_key q = i \<Longrightarrow>
     hr_last_modified q \<le> hr_last_modified (de_pick_hist env k (newest (filter (\<lambda>r. hist_key r = i) rows)))"
proof -
  let ?top = "newest (filter (\<lambda>r. hist_key r = i) rows)"
  have "?top \<noteq> []" using assms(2) by (intro newest_nonempty) (auto simp: filter_empty_conv)
  with assms(1) have "de_pick_hist env k ?top \<in> set ?top" by (simp add: picks_hist_def)
  then show "de_pick_hist env k ?top \<in> set rows" "hist_key (de_pick_hist env k ?top) = i"
    "q \<in> set rows \<Longrightarrow> hist_key q = i \<Longrightarrow> hr_last_modified q \<le> hr_last_modified (de_pick_hist env k ?top)"
    by (auto simp: newest_def list_all_iff)
qed

lemma distinct_latest_keys:
  assumes "picks_hist env"
  shows "map hist_key (distinct_latest (de_pick_hist env k) rows) = remdups (map hist_key rows)"
proof -
  have "map hist_key (distinct_latest (de_pick_hist env k) rows) = map (\<lambda>i. i) (remdups (map hist_key rows))"
    unfolding distinct_latest_def map_map
    by (rule map_cong) (auto simp: latest_pick [OF assms])
  then show ?thesis by simp
qed

lemma distinct_latest_find:
  assumes "picks_hist env"
  shows "hist_find (distinct_latest (de_pick_hist env k) rows) i =
    (if i \<in> hist_key ` set rows then Some (de_pick_hist env k (newest (filter (\<lambda>r. hist_key r = i) rows))) else None)"
proof -
  let ?g = "\<lambda>i. de_pick_hist env k (newest (filter (\<lambda>r. hist_key r = i) rows))"
  have "hist_find (map ?g is) i = (if i \<in> set is then Some (?g i) else None)" if "set is \<subseteq> hist_key ` set rows" for "is"
    using that latest_pick(2) [OF assms] by (induction "is") (auto simp: hist_find_def)
  from this [of "remdups (map hist_key rows)"] show ?thesis by (simp add: distinct_latest_def)
qed

section \<open>One import\<close>

definition hist_ok :: "db \<Rightarrow> bool" where
  "hist_ok d \<longleftrightarrow> distinct (map hist_key (ht_rows (db_hist d))) \<and> distinct (map fst (ht_days (db_hist d))) \<and>
     (\<forall>(rg, ty, day) \<in> hist_key ` set (ht_rows (db_hist d)). year_of day \<in> ht_years (db_hist d))"

lemma hist_ok_days: "hist_ok d \<Longrightarrow> distinct (map fst (ht_days (db_hist d)))"
  by (simp add: hist_ok_def)

text \<open>The tables of the other components.\<close>

definition same_rest :: "db \<Rightarrow> db \<Rightarrow> bool" where
  "same_rest d d' \<longleftrightarrow> db_stg d' = db_stg d \<and> db_part d' = db_part d \<and> db_status d' = db_status d \<and>
     db_log d' = db_log d \<and> db_applied d' = db_applied d"

lemma same_rest_refl [simp]: "same_rest d d"
  by (simp add: same_rest_def)

lemma same_rest_trans: "same_rest a b \<Longrightarrow> same_rest b c \<Longrightarrow> same_rest a c"
  by (simp add: same_rest_def)

lemma same_tables_rest: "same_tables d d' \<Longrightarrow> same_rest d d' \<and> db_hist d' = db_hist d"
  by (simp add: same_tables_def same_rest_def)

text \<open>The readers' view of the history is unchanged; a partition may have been added.\<close>

definition same_history :: "db \<Rightarrow> db \<Rightarrow> bool" where
  "same_history d d' \<longleftrightarrow> ht_rows (db_hist d') = ht_rows (db_hist d) \<and> ht_days (db_hist d') = ht_days (db_hist d) \<and>
     ht_years (db_hist d) \<subseteq> ht_years (db_hist d')"

lemma same_history_refl [simp]: "same_history d d"
  by (simp add: same_history_def)

lemma same_history_trans: "same_history a b \<Longrightarrow> same_history b c \<Longrightarrow> same_history a c"
  by (auto simp: same_history_def)

lemma same_history_ok: "same_history d d' \<Longrightarrow> hist_ok d \<Longrightarrow> hist_ok d'"
  by (fastforce simp: same_history_def hist_ok_def)

text \<open>The effect of a committed import.\<close>

definition upserted_day :: "int \<Rightarrow> everef_row \<Rightarrow> (int \<rightharpoonup> everef_row) \<Rightarrow> everef_row" where
  "upserted_day day new m =
     (case m day of None \<Rightarrow> new | Some old \<Rightarrow> new\<lparr>ev_upserted := ev_upserted old + ev_upserted new\<rparr>)"

definition imported :: "db_env \<Rightarrow> int \<Rightarrow> everef_rec list \<Rightarrow> int \<Rightarrow> time \<Rightarrow> time \<Rightarrow> int \<Rightarrow> db \<Rightarrow> db \<Rightarrow> bool" where
  "imported env day rows totals wm now n d d' \<longleftrightarrow>
     (\<exists>hs k. cast_all env rows = Some hs \<and>
        (let new = distinct_latest (de_pick_hist env k) hs
         in n = int (length new) \<and>
            (\<forall>i. hist_find (ht_rows (db_hist d')) i =
               (case hist_find new i of Some h \<Rightarrow> Some h | None \<Rightarrow> hist_find (ht_rows (db_hist d)) i)))) \<and>
     map_of (ht_days (db_hist d')) = (map_of (ht_days (db_hist d)))
       (day \<mapsto> upserted_day day (day_row totals n wm now) (map_of (ht_days (db_hist d)))) \<and>
     (hist_ok d \<longrightarrow> hist_ok d')"

lemma map_of_update:
  "map_of (map (\<lambda>(i, r). (i, if i = day then g r else r)) rows) =
     (case map_of rows day of None \<Rightarrow> map_of rows | Some r \<Rightarrow> (map_of rows)(day \<mapsto> g r))"
  by (induction rows) (auto simp: fun_eq_iff split: option.splits)

lemma record_day_effect:
  assumes "record_day day new k d = Inr (u, d')"
  shows "same_rest d d'" "ht_rows (db_hist d') = ht_rows (db_hist d)" "ht_years (db_hist d') = ht_years (db_hist d)"
    "map_of (ht_days (db_hist d')) =
      (map_of (ht_days (db_hist d)))(day \<mapsto> upserted_day day new (map_of (ht_days (db_hist d))))"
    "hist_ok d \<Longrightarrow> hist_ok d'"
proof -
  let ?rows = "ht_days (db_hist d)"
  show "same_rest d d'" "ht_rows (db_hist d') = ht_rows (db_hist d)" "ht_years (db_hist d') = ht_years (db_hist d)"
    using assms by (auto simp: record_day_def Let_def same_rest_def split: option.splits if_splits)
  then have ok: "hist_ok d' \<longleftrightarrow> hist_ok d" if "distinct (map fst (ht_days (db_hist d'))) = distinct (map fst ?rows)"
    using that by (simp add: hist_ok_def)
  show "map_of (ht_days (db_hist d')) = (map_of ?rows)(day \<mapsto> upserted_day day new (map_of ?rows))" (is ?m)
    and "hist_ok d \<Longrightarrow> hist_ok d'"
  proof -
    have "?m \<and> (distinct (map fst (ht_days (db_hist d'))) = distinct (map fst ?rows))"
    proof (cases "map_of ?rows day")
      case None
      then have "ht_days (db_hist d') = ?rows @ [(day, new)]" using assms by (auto simp: record_day_def Let_def)
      moreover have "map_of (?rows @ [(day, new)]) = (map_of ?rows)(day \<mapsto> new)"
      proof
        fix i
        show "map_of (?rows @ [(day, new)]) i = ((map_of ?rows)(day \<mapsto> new)) i"
          using None by (cases "map_of ?rows i") (auto simp: map_add_def)
      qed
      moreover have "day \<notin> fst ` set ?rows" using None by (simp add: map_of_eq_None_iff)
      ultimately show ?thesis using None by (simp add: upserted_day_def)
    next
      case (Some old)
      let ?new = "new\<lparr>ev_upserted := ev_upserted old + ev_upserted new\<rparr>"
      from Some assms have "ht_days (db_hist d') = map (\<lambda>(i, r). (i, if i = day then ?new else r)) ?rows"
        by (auto simp: record_day_def Let_def split: if_splits)
      moreover have "map fst (map (\<lambda>(i, r). (i, if i = day then ?new else r)) ?rows) = map fst ?rows" by auto
      ultimately show ?thesis using Some map_of_update [of day "\<lambda>r. ?new" ?rows] by (simp add: upserted_day_def del: map_map)
    qed
    with ok show ?m "hist_ok d \<Longrightarrow> hist_ok d'" by auto
  qed
qed

lemma upsert_history_effect:
  assumes "upsert_history env k d = Inr (n, d')" "ht_staging (db_hist d) = Some stg" "picks_hist env"
  shows "same_rest d d'" "ht_days (db_hist d') = ht_days (db_hist d)" "ht_years (db_hist d') = ht_years (db_hist d)"
    "n = int (length (distinct_latest (de_pick_hist env k) stg))"
    "hist_find (ht_rows (db_hist d')) i =
      (case hist_find (distinct_latest (de_pick_hist env k) stg) i of Some h \<Rightarrow> Some h | None \<Rightarrow> hist_find (ht_rows (db_hist d)) i)"
    "hist_ok d \<Longrightarrow> hist_ok d'"
proof -
  let ?new = "distinct_latest (de_pick_hist env k) stg"
  from assms(1,2) have y: "list_all (\<lambda>r. year_of (hr_date r) \<in> ht_years (db_hist d)) ?new" "n = int (length ?new)"
    "d' = d\<lparr>db_hist := (db_hist d)\<lparr>ht_rows := upsert_rows ?new (ht_rows (db_hist d))\<rparr>\<rparr>"
    by (auto simp: upsert_history_def Let_def split: if_splits)
  then show "same_rest d d'" "ht_days (db_hist d') = ht_days (db_hist d)" "ht_years (db_hist d') = ht_years (db_hist d)"
    "n = int (length ?new)" by (simp_all add: same_rest_def)
  show "hist_find (ht_rows (db_hist d')) i = (case hist_find ?new i of Some h \<Rightarrow> Some h | None \<Rightarrow> hist_find (ht_rows (db_hist d)) i)"
    by (simp add: y(3) upsert_find)
  have dist: "distinct (map hist_key ?new)" using distinct_latest_keys [OF assms(3)] by simp
  show "hist_ok d \<Longrightarrow> hist_ok d'"
    using upsert_keys [OF dist] y(1) by (auto simp: hist_ok_def y(3) list_all_iff hist_key_def)
qed

text \<open>The statements of the import, in their transaction.\<close>

lemma import_rows_effect:
  assumes "import_rows env day rows d = (Inr n, d')" "picks_hist env"
  shows "\<exists>hs k. cast_all env rows = Some hs \<and> n = int (length (distinct_latest (de_pick_hist env k) hs)) \<and>
    (\<forall>i. hist_find (ht_rows (db_hist d')) i =
      (case hist_find (distinct_latest (de_pick_hist env k) hs) i of Some h \<Rightarrow> Some h | None \<Rightarrow> hist_find (ht_rows (db_hist d)) i)) \<and>
    same_rest d d' \<and> ht_days (db_hist d') = ht_days (db_hist d) \<and> ht_years (db_hist d') = ht_years (db_hist d) \<and>
    (hist_ok d \<longrightarrow> hist_ok d')"
proof (cases "rows = []")
  case True
  with assms(1) show ?thesis
    by (intro exI [of _ "[]"]) (simp add: import_rows_def db_return_def distinct_latest_def hist_find_def)
next
  case False
  with assms(1) obtain d1 d2 where s: "db_stmt env truncate_history d = (Inr (), d1)"
    "db_stmt env (copy_history env rows) d1 = (Inr (), d2)" "db_stmt env (upsert_history env) d2 = (Inr n, d')"
    by (auto simp: import_rows_def db_then_Inr)
  from s(1) have h1: "db_hist d1 = (db_hist d)\<lparr>ht_staging := Some []\<rparr>" "same_rest d d1"
    by (auto simp: db_stmt_Inr truncate_history_def same_rest_def split: option.splits)
  from s(2) h1(1) obtain hs where h2: "cast_all env rows = Some hs" "db_hist d2 = (db_hist d1)\<lparr>ht_staging := Some hs\<rparr>" "same_rest d1 d2"
    by (auto simp: db_stmt_Inr copy_history_def copy_history_rows same_rest_def split: option.splits)
  let ?d = "db_tick env d2"
  from s(3) have u: "upsert_history env (db_ops d2) ?d = Inr (n, d')" by (simp add: db_stmt_Inr)
  have stg: "ht_staging (db_hist ?d) = Some hs" by (simp add: h2(2))
  note e = upsert_history_effect [OF u stg assms(2)]
  have "same_rest d ?d" using same_rest_trans [OF h1(2) h2(3)] by (simp add: same_rest_def)
  from same_rest_trans [OF this e(1)] have "same_rest d d'" .
  moreover have "hist_ok ?d = hist_ok d" by (simp add: hist_ok_def h1(1) h2(2))
  moreover have "ht_rows (db_hist ?d) = ht_rows (db_hist d)" by (simp add: h1(1) h2(2))
  note e(5) [unfolded this]
  ultimately show ?thesis using e(2-4,6) h2(1) by (intro exI [of _ hs] exI [of _ "db_ops d2"]) (simp add: h1(1) h2(2))
qed

lemma ensure_year_effect:
  "same_rest d (snd (ensure_history_year env y d)) \<and> same_history d (snd (ensure_history_year env y d))"
  unfolding ensure_history_year_def db_wrap_snd
  by (cases rule: db_exec_cases [of env "create_year y" d])
    (auto simp: create_year_def same_rest_def same_history_def split: if_splits)


lemma imported_from:
  assumes "imported env day rows totals wm now n d d'" "same_history c d" "same_history d' d2"
  shows "imported env day rows totals wm now n c d2"
proof -
  have e: "ht_rows (db_hist d) = ht_rows (db_hist c)" "ht_days (db_hist d) = ht_days (db_hist c)"
    "ht_rows (db_hist d2) = ht_rows (db_hist d')" "ht_days (db_hist d2) = ht_days (db_hist d')"
    using assms(2,3) by (simp_all add: same_history_def)
  have "hist_ok c \<longrightarrow> hist_ok d2"
    using assms same_history_ok by (auto simp: imported_def)
  with assms(1) show ?thesis unfolding imported_def e by blast
qed

lemma same_tables_history: "same_tables d d' \<Longrightarrow> same_history d d'"
  by (simp add: same_tables_def same_history_def)

lemma import_body_effect:
  assumes "db_then (import_rows env day rows) (\<lambda>upserted.
        db_then (db_wrap ''record everef_day: '' (db_stmt env (record_day day (day_row totals upserted wm now)))) (\<lambda>_.
        db_return upserted)) d = (Inr n, d')"
    and "picks_hist env"
  shows "imported env day rows totals wm now n d d' \<and> same_rest d d'"
proof -
  from assms(1) obtain d1 where d1: "import_rows env day rows d = (Inr n, d1)"
    "db_stmt env (record_day day (day_row totals n wm now)) d1 = (Inr (), d')"
    by (auto simp: db_then_Inr db_return_def)
  from import_rows_effect [OF d1(1) assms(2)] obtain hs k where h: "cast_all env rows = Some hs"
    "n = int (length (distinct_latest (de_pick_hist env k) hs))"
    "\<And>i. hist_find (ht_rows (db_hist d1)) i =
      (case hist_find (distinct_latest (de_pick_hist env k) hs) i of Some h \<Rightarrow> Some h | None \<Rightarrow> hist_find (ht_rows (db_hist d)) i)"
    "same_rest d d1" "ht_days (db_hist d1) = ht_days (db_hist d)" "hist_ok d \<longrightarrow> hist_ok d1" by blast
  from d1(2) have r: "record_day day (day_row totals n wm now) (db_ops d1) (db_tick env d1) = Inr ((), d')"
    by (simp add: db_stmt_Inr)
  note e = record_day_effect [OF r]
  have "same_rest d (db_tick env d1)" using h(4) by (simp add: same_rest_def)
  from same_rest_trans [OF this e(1)] have "same_rest d d'" .
  moreover have "hist_ok (db_tick env d1) = hist_ok d1" by (simp add: hist_ok_def)
  moreover have "ht_rows (db_hist d') = ht_rows (db_hist d1)" using e(2) by simp
  moreover have "map_of (ht_days (db_hist d')) = (map_of (ht_days (db_hist d)))
       (day \<mapsto> upserted_day day (day_row totals n wm now) (map_of (ht_days (db_hist d))))"
    using e(4) h(5) by simp
  ultimately show ?thesis using h(1-3,6) e(5) unfolding imported_def Let_def
    by (intro conjI exI [of _ hs] exI [of _ k]) auto
qed

lemma import_history_effect:
  assumes "import_history env day rows totals wm now d = (r, d')" "picks_hist env"
  shows "same_rest d d'"
    "r = Inr n \<Longrightarrow> imported env day rows totals wm now n d d'"
    "r = Inl e \<Longrightarrow> same_history d d' \<or> (\<exists>n. imported env day rows totals wm now n d d')"
proof -
  let ?body = "db_then (import_rows env day rows) (\<lambda>upserted.
        db_then (db_wrap ''record everef_day: '' (db_stmt env (record_day day (day_row totals upserted wm now)))) (\<lambda>_.
        db_return upserted))"
  let ?tx = "db_tx env (Some ''commit history import: '') ?body"
  obtain r1 d1 where y: "ensure_history_year env (year_of day) d = (r1, d1)" by force
  from ensure_year_effect [of d env "year_of day"] y have s1: "same_rest d d1" "same_history d d1" by simp_all
  obtain r2 d2 where p: "db_wrap ''acquire history conn: '' (db_ping env) d1 = (r2, d2)" by force
  have "same_tables d1 d2" using db_ping_tables [of d1 env] db_wrap_snd [of "''acquire history conn: ''" "db_ping env" d1] p by simp
  then have s2: "same_rest d d2" "same_history d d2"
    using s1 same_rest_trans same_history_trans same_tables_rest same_tables_history by blast+
  have key: "same_rest d d' \<and> (\<forall>n. r = Inr n \<longrightarrow> imported env day rows totals wm now n d d') \<and>
    (\<forall>e. r = Inl e \<longrightarrow> same_history d d' \<or> (\<exists>n. imported env day rows totals wm now n d d'))"
  proof (cases r1)
    case (Inl e)
    with assms(1) y have "r = Inl e" "d' = d1" by (simp_all add: import_history_def db_then_def)
    with s1 show ?thesis by simp
  next
    case r1: (Inr u)
    show ?thesis
    proof (cases r2)
      case (Inl e)
      with assms(1) y p r1 have "r = Inl e" "d' = d2" by (simp_all add: import_history_def db_then_def)
      with s2 show ?thesis by simp
    next
      case (Inr v)
      with assms(1) y p r1 have tx: "?tx d2 = (r, d')" by (simp add: import_history_def db_then_def)
      have via: "same_rest d d' \<and> imported env day rows totals wm now n d d'"
        if "db_ping env d2 = (Inr (), d3)" "?body d3 = (Inr n, d4)" "d' = db_tick env d4" for d3 d4 n
      proof -
        have t3: "same_tables d2 d3" using that(1) db_ping_tables [of d2 env] by simp
        have t4: "same_tables d4 d'" by (simp add: that(3))
        note b = import_body_effect [OF that(2) assms(2)]
        have "same_rest d d'"
          using s2(1) t3 t4 b same_rest_trans same_tables_rest by blast
        moreover have "imported env day rows totals wm now n d d'"
          using b imported_from same_history_trans [OF s2(2) same_tables_history [OF t3]] same_tables_history [OF t4] by blast
        ultimately show ?thesis ..
      qed
      show ?thesis
      proof (cases r)
        case (Inr n)
        with tx have "?tx d2 = (Inr n, d')" by simp
        from db_tx_Inr [OF this] obtain d3 d4 where "db_ping env d2 = (Inr (), d3)" "?body d3 = (Inr n, d4)" "d' = db_tick env d4"
          by blast
        from via [OF this] Inr show ?thesis by simp
      next
        case (Inl e)
        with tx have "?tx d2 = (Inl e, d')" by simp
        from db_tx_Inl [OF this] consider "same_tables d2 d'"
          | d3 d4 n where "db_ping env d2 = (Inr (), d3)" "?body d3 = (Inr n, d4)" "d' = db_tick env d4" by blast
        then show ?thesis
        proof cases
          case 1
          then show ?thesis
            using Inl s2 same_rest_trans same_tables_rest same_history_trans same_tables_history by blast
        next
          case 2
          from via [OF 2] Inl show ?thesis by auto
        qed
      qed
    qed
  qed
  then show "same_rest d d'" "r = Inr n \<Longrightarrow> imported env day rows totals wm now n d d'"
    "r = Inl e \<Longrightarrow> same_history d d' \<or> (\<exists>n. imported env day rows totals wm now n d d')" by blast+
qed

section \<open>In step with the whole file\<close>

definition rec_key :: "everef_rec \<Rightarrow> int \<times> int \<times> int" where
  "rec_key r = (er_region r, er_type r, er_date r)"

text \<open>A row of \<open>market.history\<close> that says what a record of the file says, column by column.\<close>

definition stores :: "db_env \<Rightarrow> everef_rec \<Rightarrow> hist_row \<Rightarrow> bool" where
  "stores env r h \<longleftrightarrow> hr_region h = er_region r \<and> hr_type h = er_type r \<and> hr_date h = er_date r \<and>
     de_numeric env (er_average r) = Some (hr_average h) \<and> de_numeric env (er_highest r) = Some (hr_highest h) \<and>
     de_numeric env (er_lowest r) = Some (hr_lowest h) \<and> hr_volume h = er_volume r \<and>
     hr_order_count h = er_order_count r \<and> hr_last_modified h = micros (er_lm r)"

lemma stores_cast: "stores env r h \<longleftrightarrow> cast_hist env r = Some h"
  by (cases h) (auto simp: stores_def cast_hist_def split: option.splits)

text \<open>
  The table holds, for every key of the file, a newest record of that key. This is what an
  import of the whole file establishes.
\<close>

definition in_step :: "db_env \<Rightarrow> hist_row list \<Rightarrow> everef_rec list \<Rightarrow> bool" where
  "in_step env rows file \<longleftrightarrow>
     list_all (\<lambda>i. case hist_find rows i of
         None \<Rightarrow> False
       | Some h \<Rightarrow> list_ex (\<lambda>r. stores env r h \<and>
           list_all (\<lambda>q. rec_key q = i \<longrightarrow> micros (er_lm q) \<le> micros (er_lm r)) file) file) (map rec_key file)"

lemma in_step_iff:
  "in_step env rows file \<longleftrightarrow>
     (\<forall>i \<in> rec_key ` set file. \<exists>h r. hist_find rows i = Some h \<and> r \<in> set file \<and> cast_hist env r = Some h \<and>
        (\<forall>q \<in> set file. rec_key q = i \<longrightarrow> micros (er_lm q) \<le> micros (er_lm r)))"
proof -
  have "(case x of None \<Rightarrow> False | Some h \<Rightarrow> list_ex (P h) xs) \<longleftrightarrow> (\<exists>h r. x = Some h \<and> r \<in> set xs \<and> P h r)"
    for x :: "hist_row option" and P and xs :: "everef_rec list"
    by (auto simp: list_ex_iff split: option.split)
  then show ?thesis unfolding in_step_def stores_cast list_all_iff set_map by simp
qed

lemma cast_hist_key: "cast_hist env r = Some h \<Longrightarrow> hist_key h = rec_key r \<and> hr_last_modified h = micros (er_lm r)"
  by (auto simp: cast_hist_def hist_key_def rec_key_def split: option.splits)

lemma cast_all_set:
  "cast_all env rows = Some hs \<Longrightarrow> (\<forall>h \<in> set hs. \<exists>r \<in> set rows. cast_hist env r = Some h) \<and>
     (\<forall>r \<in> set rows. \<exists>h \<in> set hs. cast_hist env r = Some h)"
proof (induction rows arbitrary: hs)
  case (Cons r rows)
  then obtain h hs' where "cast_hist env r = Some h" "cast_all env rows = Some hs'" "hs = h # hs'"
    by (auto split: option.splits)
  with Cons.IH [of hs'] show ?case by auto
qed simp

text \<open>
  An incremental import keeps the table in step with a file that grows: the records that
  were not there before were scraped no earlier than the bound of this read.
\<close>

lemma import_in_step:
  assumes "imported env day (filter (since w) file) totals wm now n d d'" "picks_hist env"
    "in_step env (ht_rows (db_hist d)) old" "set old \<subseteq> set file"
    "\<forall>r \<in> set file. r \<in> set old \<or> since w r"
  shows "in_step env (ht_rows (db_hist d')) file"
  unfolding in_step_iff
proof (intro ballI)
  fix i assume i: "i \<in> rec_key ` set file"
  let ?new = "filter (since w) file"
  from assms(1) obtain hs k where hs: "cast_all env ?new = Some hs"
    and find: "\<And>i. hist_find (ht_rows (db_hist d')) i = (case hist_find (distinct_latest (de_pick_hist env k) hs) i of
        Some h \<Rightarrow> Some h | None \<Rightarrow> hist_find (ht_rows (db_hist d)) i)"
    unfolding imported_def Let_def by blast
  note c = cast_all_set [OF hs]
  show "\<exists>h r. hist_find (ht_rows (db_hist d')) i = Some h \<and> r \<in> set file \<and> cast_hist env r = Some h \<and>
        (\<forall>q \<in> set file. rec_key q = i \<longrightarrow> micros (er_lm q) \<le> micros (er_lm r))"
  proof (cases "i \<in> rec_key ` set ?new")
    case True
    then have ih: "i \<in> hist_key ` set hs" using c cast_hist_key by force
    let ?h = "de_pick_hist env k (newest (filter (\<lambda>r. hist_key r = i) hs))"
    note p = latest_pick [OF assms(2) ih, where k = k]
    from find distinct_latest_find [OF assms(2)] ih have f: "hist_find (ht_rows (db_hist d')) i = Some ?h" by simp
    from c p(1) obtain r where r: "r \<in> set ?new" "cast_hist env r = Some ?h" by blast
    have "micros (er_lm q) \<le> micros (er_lm r)" if q: "q \<in> set file" "rec_key q = i" for q
    proof (cases "since w q")
      case True
      with q c obtain h where "h \<in> set hs" "cast_hist env q = Some h" by auto
      note h = this
      have "hist_key h = i" "hr_last_modified h = micros (er_lm q)" using cast_hist_key [OF h(2)] q(2) by simp_all
      with p(3) [OF h(1)] cast_hist_key [OF r(2)] show ?thesis by simp
    next
      case False
      with r(1) have "er_lm q \<le> er_lm r" by (auto simp: since_def)
      then show ?thesis by (rule micros_mono)
    qed
    with f r show ?thesis by auto
  next
    case False
    then have no: "i \<notin> hist_key ` set hs" using c cast_hist_key by force
    then have f: "hist_find (ht_rows (db_hist d')) i = hist_find (ht_rows (db_hist d)) i"
      using find distinct_latest_find [OF assms(2)] by simp
    have old: "q \<in> set old" if "q \<in> set file" "rec_key q = i" for q
      using that False assms(5) by auto
    with i have "i \<in> rec_key ` set old" by auto
    with assms(3) obtain h r where "hist_find (ht_rows (db_hist d)) i = Some h" "r \<in> set old" "cast_hist env r = Some h"
      "\<forall>q \<in> set old. rec_key q = i \<longrightarrow> micros (er_lm q) \<le> micros (er_lm r)" unfolding in_step_iff by blast
    with f old assms(4) show ?thesis by (intro exI [of _ h] exI [of _ r]) auto
  qed
qed

text \<open>An import leaves the rows alone whose keys are not in it.\<close>

lemma import_other_keys:
  assumes "imported env day rows totals wm now n d d'" "picks_hist env" "i \<notin> rec_key ` set rows"
  shows "hist_find (ht_rows (db_hist d')) i = hist_find (ht_rows (db_hist d)) i"
proof -
  from assms(1) obtain hs k where hs: "cast_all env rows = Some hs"
    and find: "\<And>i. hist_find (ht_rows (db_hist d')) i = (case hist_find (distinct_latest (de_pick_hist env k) hs) i of
        Some h \<Rightarrow> Some h | None \<Rightarrow> hist_find (ht_rows (db_hist d)) i)"
    unfolding imported_def Let_def by blast
  have "i \<notin> hist_key ` set hs" using cast_all_set [OF hs] cast_hist_key assms(3) by force
  with find distinct_latest_find [OF assms(2)] show ?thesis by simp
qed

end
