(* ===== verification/History.thy ===== *)
theory History
  imports History_Laws Streak
begin

text \<open>
  internal/ingest/history.go: the importer that keeps the history in step with the EVE
  Ref dataset. Its requests meet the replies \<open>he_reply 0, he_reply 1, ...\<close>; the clock is
  the database's, which every call and every request advances. What is sent to the error
  tracker is the list \<open>hi_events\<close>: job, day (empty where there is none), error.
\<close>

section \<open>State\<close>

record history_cfg =
  hc_poll_interval :: dur
  hc_backfill_days :: int
  hc_recent_days :: int
  hc_spacing :: dur

record history_importer =
  hm_client :: everef_client
  hm_regions :: "int set"
  hm_cfg :: history_cfg

record history_env =
  he_db :: db_env
  he_codec :: ev_codec
  he_reply :: "nat \<Rightarrow> ev_reply"
  he_wait :: "nat \<Rightarrow> dur"

record history_st =
  hi_db :: db
  hi_urls :: "string list"
  hi_reports :: streak
  hi_events :: "(string \<times> string \<times> gerr) list"

definition jobTotals :: string where "jobTotals = ''totals''"
definition jobBookkeeping :: string where "jobBookkeeping = ''bookkeeping''"
definition jobImportDay :: string where "jobImportDay = ''import-day''"

definition new_history_importer :: "everef_client \<Rightarrow> region list \<Rightarrow> history_cfg \<Rightarrow> history_importer" where
  "new_history_importer c regions cfg = \<lparr>hm_client = c, hm_regions = rg_id ` set regions, hm_cfg = cfg\<rparr>"

definition hi_now :: "history_st \<Rightarrow> time" where
  "hi_now s = db_now (hi_db s)"

definition hi_wait :: "time \<Rightarrow> history_st \<Rightarrow> history_st" where
  "hi_wait t s = s\<lparr>hi_db := (hi_db s)\<lparr>db_now := t\<rparr>\<rparr>"

definition hi_get :: "history_env \<Rightarrow> string \<Rightarrow> history_st \<Rightarrow> ev_reply \<times> history_st" where
  "hi_get env url s =
     (let k = length (hi_urls s)
      in (he_reply env k, hi_wait (hi_now s + max 0 (he_wait env k)) (s\<lparr>hi_urls := hi_urls s @ [url]\<rparr>)))"

definition hi_call :: "'a db_call \<Rightarrow> history_st \<Rightarrow> (gerr + 'a) \<times> history_st" where
  "hi_call m s = (let (r, d) = m (hi_db s) in (r, s\<lparr>hi_db := d\<rparr>))"

definition hi_sleep :: "ctx \<Rightarrow> dur \<Rightarrow> history_st \<Rightarrow> bool \<times> history_st" where
  "hi_sleep c dr s = (let (ok, t) = sleep c dr (hi_now s) in (ok, hi_wait t s))"

definition hi_note :: "string \<Rightarrow> string \<Rightarrow> gerr \<Rightarrow> history_st \<Rightarrow> history_st" where
  "hi_note job day e s =
     (let (report, st) = streak_first job (hi_reports s); s1 = s\<lparr>hi_reports := st\<rparr>
      in if report then s1\<lparr>hi_events := hi_events s @ [(job, day, e)]\<rparr> else s1)"

definition hi_ends :: "string \<Rightarrow> history_st \<Rightarrow> history_st" where
  "hi_ends job s = s\<lparr>hi_reports := streak_ends job (hi_reports s)\<rparr>"

section \<open>Which days\<close>

text \<open>The count of a day in the index; a missing key reads as zero.\<close>

definition index_count :: "(string \<times> int) list \<Rightarrow> string \<Rightarrow> int" where
  "index_count totals day = (case map_of totals day of None \<Rightarrow> 0 | Some n \<Rightarrow> n)"

definition day_due :: "history_cfg \<Rightarrow> time \<Rightarrow> (string \<times> int) list \<Rightarrow> (string \<rightharpoonup> everef_day) \<Rightarrow> string \<Rightarrow> bool" where
  "day_due cfg now totals stored day =
     (let today = day_of_time now; oldest = today - hc_backfill_days cfg; recent = today - hc_recent_days cfg
      in case parse_day day of
           None \<Rightarrow> False
         | Some d \<Rightarrow>
             if d < oldest then False
             else if index_count totals day = 0 then False
             else case stored day of
                    None \<Rightarrow> True
                  | Some st \<Rightarrow> recent < d \<and> ed_totals st < index_count totals day)"

definition select_days :: "history_cfg \<Rightarrow> time \<Rightarrow> (string \<times> int) list \<Rightarrow> (string \<rightharpoonup> everef_day) \<Rightarrow> string list" where
  "select_days cfg now totals stored = filter (day_due cfg now totals stored) (Days totals)"

section \<open>One day\<close>

definition import_day ::
  "history_env \<Rightarrow> history_importer \<Rightarrow> string \<Rightarrow> int \<Rightarrow> time \<Rightarrow> history_st \<Rightarrow> (gerr + int) \<times> history_st" where
  "import_day env h day announced wm s =
     (case parse_day day of
        None \<Rightarrow> (Inl (EWrap (''bad day '' @ day @ '': '') (EText ''cannot parse'') []), s)
      | Some d \<Rightarrow>
          (let (reply, s1) = hi_get env (day_url (hm_client h) d) s
           in case open_day_reply (hm_client h) (he_codec env) d reply of
                Inl e \<Rightarrow> (Inl e, s1)
              | Inr body \<Rightarrow>
                  (case parse_file \<lparr>df_regions = Some (hm_regions h), df_after = wm\<rparr> body of
                     Inl e \<Rightarrow> (Inl (EWrap (''parse '' @ day @ '': '') e []), s1)
                   | Inr (rows, new_wm, scanned) \<Rightarrow>
                       hi_call (import_history (he_db env) d rows announced new_wm (hi_now s1)) s1)))"

definition stored_watermark :: "(string \<rightharpoonup> everef_day) \<Rightarrow> string \<Rightarrow> time" where
  "stored_watermark stored day = (case stored day of None \<Rightarrow> zero_time | Some st \<Rightarrow> ed_watermark st)"

text \<open>The loop over the due days: whether it ran to the end, and how many files it imported.\<close>

fun import_loop ::
  "history_env \<Rightarrow> history_importer \<Rightarrow> ctx \<Rightarrow> (string \<times> int) list \<Rightarrow> (string \<rightharpoonup> everef_day) \<Rightarrow> string list \<Rightarrow> int
     \<Rightarrow> history_st \<Rightarrow> (bool \<times> int) \<times> history_st" where
  "import_loop env h c totals stored [] files s = ((True, files), s)"
| "import_loop env h c totals stored (day # days) files s =
     (if ctx_done c (hi_now s) then ((False, files), s)
      else case import_day env h day (index_count totals day) (stored_watermark stored day) s of
        (Inl e, s1) \<Rightarrow>
          if err_is e EDayNotFound then import_loop env h c totals stored days files s1
          else import_loop env h c totals stored days files
                 (if ctx_done c (hi_now s1) then s1 else hi_note jobImportDay day e s1)
      | (Inr n, s1) \<Rightarrow>
          (let (ok, s2) = hi_sleep c (hc_spacing (hm_cfg h)) (hi_ends jobImportDay s1)
           in if ok then import_loop env h c totals stored days (files + 1) s2 else ((False, files + 1), s2)))"

section \<open>once and Run\<close>

definition fetch_totals :: "history_env \<Rightarrow> history_importer \<Rightarrow> history_st \<Rightarrow> (gerr + (string \<times> int) list) \<times> history_st" where
  "fetch_totals env h s =
     (let (reply, s1) = hi_get env (totals_url (hm_client h)) s in (totals_reply (he_codec env) reply, s1))"

definition once :: "history_env \<Rightarrow> history_importer \<Rightarrow> ctx \<Rightarrow> history_st \<Rightarrow> history_st" where
  "once env h c s =
     (case fetch_totals env h s of
        (Inl e, s1) \<Rightarrow> if ctx_done c (hi_now s1) then s1 else hi_note jobTotals [] e s1
      | (Inr totals, s1) \<Rightarrow>
          (case hi_call (everef_days (he_db env)) (hi_ends jobTotals s1) of
             (Inl e, s2) \<Rightarrow> if ctx_done c (hi_now s2) then s2 else hi_note jobBookkeeping [] e s2
           | (Inr stored, s2) \<Rightarrow>
               (let s3 = hi_ends jobBookkeeping s2;
                    due = select_days (hm_cfg h) (hi_now s3) totals stored
                in if due = [] then s3
                   else (case import_loop env h c totals stored due 0 s3 of
                           ((False, files), s4) \<Rightarrow> s4
                         | ((True, files), s4) \<Rightarrow>
                             if 0 < files then snd (hi_call (history_coverage (he_db env)) s4) else s4))))"

text \<open>\<open>Run\<close>, over the instants at which its ticker fires.\<close>

fun history_ticks :: "history_env \<Rightarrow> history_importer \<Rightarrow> ctx \<Rightarrow> time list \<Rightarrow> history_st \<Rightarrow> history_st" where
  "history_ticks env h c [] s = s"
| "history_ticks env h c (t # ts) s =
     (let now = max (hi_now s) t
      in if ctx_done c now then s else history_ticks env h c ts (once env h c (hi_wait now s)))"

definition history_run :: "history_env \<Rightarrow> history_importer \<Rightarrow> ctx \<Rightarrow> time list \<Rightarrow> history_st \<Rightarrow> history_st" where
  "history_run env h c ticks s = history_ticks env h c ticks (once env h c s)"

section \<open>The small steps\<close>

named_theorems hi_fields \<open>the fields of the importer's state after its small steps\<close>

lemma hi_small [hi_fields]:
  "hi_db (hi_note job day e s) = hi_db s" "hi_urls (hi_note job day e s) = hi_urls s"
  "hi_db (hi_ends job s) = hi_db s" "hi_urls (hi_ends job s) = hi_urls s" "hi_events (hi_ends job s) = hi_events s"
  "hi_events (hi_wait t s) = hi_events s" "hi_reports (hi_wait t s) = hi_reports s" "hi_urls (hi_wait t s) = hi_urls s"
  "hi_reports (hi_ends job s) = hi_reports s - {job}"
  by (simp_all add: hi_note_def hi_ends_def hi_wait_def streak_ends_def Let_def split: prod.splits)

lemma hi_wait_tables [hi_fields]:
  "same_rest d (hi_db (hi_wait t s)) = same_rest d (hi_db s)" "db_hist (hi_db (hi_wait t s)) = db_hist (hi_db s)"
  "hist_ok (hi_db (hi_wait t s)) = hist_ok (hi_db s)"
  by (simp_all add: hi_wait_def same_rest_def hist_ok_def)

lemma hi_get_fields [hi_fields]:
  "hi_db (snd (hi_get env url s)) = (hi_db s)\<lparr>db_now := hi_now s + max 0 (he_wait env (length (hi_urls s)))\<rparr>"
  "hi_events (snd (hi_get env url s)) = hi_events s" "hi_reports (snd (hi_get env url s)) = hi_reports s"
  "fst (hi_get env url s) = he_reply env (length (hi_urls s))"
  by (simp_all add: hi_get_def hi_wait_def hi_now_def Let_def)

lemma everef_days_reads: "same_tables d (snd (everef_days env d))"
  unfolding everef_days_def by (intro db_then_fixed) (simp_all add: db_ping_tables)

lemma coverage_reads: "same_tables d (snd (history_coverage env d))"
  unfolding history_coverage_def db_wrap_snd
  by (rule db_exec_reads(1) [where q = "\<lambda>d. coverage_of (ht_rows (db_hist d))"]) (simp add: coverage_stmt_def)

end
