(* ===== verification/History_Reach.thy ===== *)
theory History_Reach
  imports History
begin

text \<open>
  What the importer can do to the database, however long it runs. The interface
  \<open>importer_reach\<close> says which relations between the tables before and after are kept by
  all of \<open>Run\<close>: those that hold where the tables are the same, compose, and hold of one day's
  import. Two are: the frame (History only touches its own tables, and keeps their
  constraints), and the origin of every row.
\<close>

section \<open>The interface\<close>

locale importer_reach =
  fixes R :: "history_env \<Rightarrow> history_importer \<Rightarrow> db \<Rightarrow> db \<Rightarrow> bool"
  assumes reach_same: "same_tables d d' \<Longrightarrow> R env h d d'"
    and reach_trans: "R env h a b \<Longrightarrow> R env h b c \<Longrightarrow> R env h a c"
    and reach_import: "R env h (hi_db s) (hi_db (snd (import_day env h day announced wm s)))"
begin

lemma small:
  "R env h (hi_db s) (hi_db (hi_note job day e s))" "R env h (hi_db s) (hi_db (hi_ends job s))"
  "R env h (hi_db s) (hi_db (hi_wait t s))" "R env h (hi_db s) (hi_db (snd (hi_get env url s)))"
  "R env h (hi_db s) (hi_db (snd (hi_sleep c dr s)))"
  by (rule reach_same, simp add: hi_fields same_tables_def hi_sleep_def hi_wait_def Let_def split: prod.split)+

lemma queries:
  "R env h (hi_db s) (hi_db (snd (hi_call (everef_days de) s)))"
  "R env h (hi_db s) (hi_db (snd (hi_call (history_coverage de) s)))"
  using reach_same [OF everef_days_reads] reach_same [OF coverage_reads]
  by (simp_all add: hi_call_def split: prod.split) (metis snd_conv)+

lemma loop: "R env h (hi_db s) (hi_db (snd (import_loop env h c totals stored days files s)))"
proof (induction days arbitrary: files s)
  case Nil
  then show ?case by (simp add: reach_same)
next
  case (Cons day days)
  show ?case
  proof (cases "ctx_done c (hi_now s)")
    case True
    then show ?thesis by (simp add: reach_same)
  next
    case False
    obtain r s1 where d: "import_day env h day (index_count totals day) (stored_watermark stored day) s = (r, s1)" by force
    have s1: "R env h (hi_db s) (hi_db s1)" using reach_import [of env h s day] d by (metis snd_conv)
    have next': "R env h (hi_db s) (hi_db (snd (import_loop env h c totals stored days n s2)))"
      if "R env h (hi_db s1) (hi_db s2)" for n s2
      using reach_trans [OF reach_trans [OF s1 that] Cons.IH] .
    show ?thesis
    proof (cases r)
      case (Inl e)
      with False d next' [OF small(1)] next' [OF reach_same [OF same_tables_refl]] show ?thesis by simp
    next
      case (Inr n)
      obtain ok s2 where sl: "hi_sleep c (hc_spacing (hm_cfg h)) (hi_ends jobImportDay s1) = (ok, s2)" by force
      have "R env h (hi_db s1) (hi_db s2)"
        using reach_trans [OF small(2) small(5)] sl by (metis snd_conv)
      with False d Inr sl next' reach_trans [OF s1] show ?thesis by simp
    qed
  qed
qed

lemma once_reaches: "R env h (hi_db s) (hi_db (once env h c s))"
proof -
  obtain r s1 where f: "fetch_totals env h s = (r, s1)" by force
  then have s1: "R env h (hi_db s) (hi_db s1)" using small(4) [of env h s "totals_url (hm_client h)"]
    by (simp add: fetch_totals_def split: prod.splits)
  show ?thesis
  proof (cases r)
    case (Inl e)
    with f reach_trans [OF s1 small(1)] s1 show ?thesis by (simp add: once_def)
  next
    case (Inr totals)
    obtain q s2 where q: "hi_call (everef_days (he_db env)) (hi_ends jobTotals s1) = (q, s2)" by force
    have s2: "R env h (hi_db s) (hi_db s2)"
      using reach_trans [OF reach_trans [OF s1 small(2)] queries(1)] q by (metis snd_conv)
    show ?thesis
    proof (cases q)
      case (Inl e)
      with f Inr q s2 reach_trans [OF s2 small(1)] show ?thesis by (simp add: once_def)
    next
      case q': (Inr stored)
      let ?s3 = "hi_ends jobBookkeeping s2"
      let ?due = "select_days (hm_cfg h) (hi_now ?s3) totals stored"
      have s3: "R env h (hi_db s) (hi_db ?s3)" using reach_trans [OF s2 small(2)] .
      obtain b files s4 where l: "import_loop env h c totals stored ?due 0 ?s3 = ((b, files), s4)" by (metis prod.exhaust)
      have s4: "R env h (hi_db s) (hi_db s4)" using reach_trans [OF s3 loop] l by (metis snd_conv)
      from f Inr q q' l s3 s4 reach_trans [OF s4 queries(2)] show ?thesis
        by (simp add: once_def Let_def split: bool.split)
    qed
  qed
qed

lemma run_reaches: "R env h (hi_db s) (hi_db (history_run env h c ticks s))"
proof -
  have "R env h (hi_db s) (hi_db (history_ticks env h c ticks s))" for s
  proof (induction ticks arbitrary: s)
    case Nil
    then show ?case by (simp add: reach_same)
  next
    case (Cons t ts)
    let ?w = "hi_wait (max (hi_now s) t) s"
    have "R env h (hi_db s) (hi_db (once env h c ?w))" using reach_trans [OF small(3) once_reaches] .
    with Cons.IH reach_trans show ?case by (auto simp: Let_def reach_same)
  qed
  from reach_trans [OF once_reaches this] show ?thesis by (simp add: history_run_def)
qed

end

section \<open>Where the rows come from\<close>

text \<open>
  A row of \<open>market.history\<close> that EVE Ref published: a reply carried a day file with a record
  of a tracked region that the row stores, column by column.
\<close>

definition published :: "history_env \<Rightarrow> history_importer \<Rightarrow> hist_row \<Rightarrow> bool" where
  "published env h row \<longleftrightarrow>
     (\<exists>k body w recs wm n r. he_reply env k = Reply 200 body \<and>
        parse_file \<lparr>df_regions = Some (hm_regions h), df_after = w\<rparr> (bzip_reader (hm_client h) (he_codec env) body)
          = Inr (recs, wm, n) \<and>
        r \<in> set recs \<and> stores (he_db env) r row)"

definition originates :: "history_env \<Rightarrow> history_importer \<Rightarrow> db \<Rightarrow> db \<Rightarrow> bool" where
  "originates env h d d' \<longleftrightarrow> picks_hist (he_db env) \<longrightarrow>
     (\<forall>i row. hist_find (ht_rows (db_hist d')) i = Some row \<longrightarrow>
        hist_find (ht_rows (db_hist d)) i = Some row \<or> published env h row)"

definition frames :: "history_env \<Rightarrow> history_importer \<Rightarrow> db \<Rightarrow> db \<Rightarrow> bool" where
  "frames env h d d' \<longleftrightarrow> picks_hist (he_db env) \<longrightarrow> same_rest d d' \<and> (hist_ok d \<longrightarrow> hist_ok d')"

text \<open>One day's import: nothing changes, or the rows of one reply are merged in.\<close>

lemma import_day_parts:
  assumes "picks_hist (he_db env)" "import_day env h key announced b s = (r, s')"
  shows "same_rest (hi_db s) (hi_db s') \<and>
    (same_history (hi_db s) (hi_db s') \<or>
     (\<exists>day body recs wm n m now. he_reply env (length (hi_urls s)) = Reply 200 body \<and>
        parse_file \<lparr>df_regions = Some (hm_regions h), df_after = b\<rparr> (bzip_reader (hm_client h) (he_codec env) body)
          = Inr (recs, wm, n) \<and>
        imported (he_db env) day recs announced wm now m (hi_db s) (hi_db s')))"
proof (cases "parse_day key")
  case None
  with assms(2) show ?thesis by (simp add: import_day_def)
next
  case (Some day)
  obtain reply s1 where g: "hi_get env (day_url (hm_client h) day) s = (reply, s1)" by force
  from hi_get_fields [of env "day_url (hm_client h) day" s] g have r1: "reply = he_reply env (length (hi_urls s))"
    and d1: "hi_db s1 = (hi_db s)\<lparr>db_now := hi_now s + max 0 (he_wait env (length (hi_urls s)))\<rparr>" by simp_all
  have same: "same_rest (hi_db s) (hi_db s1)" "same_history (hi_db s) (hi_db s1)"
    by (simp_all add: d1 same_rest_def same_history_def)
  show ?thesis
  proof (cases "open_day_reply (hm_client h) (he_codec env) day reply")
    case (Inl e)
    with Some g assms(2) same show ?thesis by (simp add: import_day_def)
  next
    case (Inr st)
    then obtain body where body: "reply = Reply 200 body" "st = bzip_reader (hm_client h) (he_codec env) body"
      by (auto simp: open_day_reply_def Let_def split: ev_reply.splits if_splits)
    show ?thesis
    proof (cases "parse_file \<lparr>df_regions = Some (hm_regions h), df_after = b\<rparr> st")
      case (Inl e)
      with Some g Inr assms(2) same show ?thesis by (simp add: import_day_def)
    next
      case p: (Inr res)
      obtain recs wm n where res: "res = (recs, wm, n)" by (cases res)
      obtain q d' where i: "import_history (he_db env) day recs announced wm (hi_now s1) (hi_db s1) = (q, d')" by force
      from Some g Inr p res i assms(2) have q: "r = q" "hi_db s' = d'" by (auto simp: import_day_def hi_call_def)
      note e = import_history_effect [OF i assms(1)]
      have rest: "same_rest (hi_db s) (hi_db s')" using same_rest_trans [OF same(1) e(1)] q by simp
      have via: "imported (he_db env) day recs announced wm (hi_now s1) m (hi_db s) (hi_db s')"
        if "imported (he_db env) day recs announced wm (hi_now s1) m (hi_db s1) d'" for m
        using imported_from [OF that same(2) same_history_refl] q by simp
      have "same_history (hi_db s) (hi_db s') \<or>
          (\<exists>m. imported (he_db env) day recs announced wm (hi_now s1) m (hi_db s) (hi_db s'))"
      proof (cases q)
        case (Inl x)
        with e(3) [of x] via same_history_trans [OF same(2)] q(2) show ?thesis by blast
      next
        case (Inr m)
        with e(2) [of m] via show ?thesis by blast
      qed
      with rest body r1 p res show ?thesis by metis
    qed
  qed
qed

lemma imported_origin:
  assumes "imported env day recs totals wm now m d d'" "picks_hist env" "hist_find (ht_rows (db_hist d')) i = Some row"
  shows "hist_find (ht_rows (db_hist d)) i = Some row \<or> (\<exists>r \<in> set recs. stores env r row)"
proof -
  from assms(1) obtain hs k where hs: "cast_all env recs = Some hs"
    and find: "\<And>i. hist_find (ht_rows (db_hist d')) i = (case hist_find (distinct_latest (de_pick_hist env k) hs) i of
        Some h \<Rightarrow> Some h | None \<Rightarrow> hist_find (ht_rows (db_hist d)) i)"
    unfolding imported_def Let_def by blast
  show ?thesis
  proof (cases "i \<in> hist_key ` set hs")
    case True
    with find assms(3) distinct_latest_find [OF assms(2)]
    have "row = de_pick_hist env k (newest (filter (\<lambda>r. hist_key r = i) hs))" by simp
    with latest_pick(1) [OF assms(2) True] cast_all_set [OF hs] show ?thesis by (auto simp: stores_cast)
  next
    case False
    with find assms(3) distinct_latest_find [OF assms(2)] show ?thesis by simp
  qed
qed

interpretation frm: importer_reach frames
proof
  fix d d' :: db and env h
  assume "same_tables d d'"
  then show "frames env h d d'" by (auto simp: frames_def same_tables_def same_rest_def hist_ok_def)
next
  fix a b c env h
  assume "frames env h a b" "frames env h b c"
  then show "frames env h a c" using same_rest_trans by (auto simp: frames_def)
next
  fix env h s day announced wm
  obtain r s' where i: "import_day env h day announced wm s = (r, s')" by force
  show "frames env h (hi_db s) (hi_db (snd (import_day env h day announced wm s)))"
    using import_day_parts [OF _ i] same_history_ok by (auto simp: frames_def i imported_def)
qed

interpretation org: importer_reach originates
proof
  fix d d' :: db and env h
  assume "same_tables d d'"
  then show "originates env h d d'" by (simp add: originates_def same_tables_def)
next
  fix a b c env h
  assume "originates env h a b" "originates env h b c"
  then show "originates env h a c" unfolding originates_def by blast
next
  fix env h s day announced wm
  obtain r s' where i: "import_day env h day announced wm s = (r, s')" by force
  show "originates env h (hi_db s) (hi_db (snd (import_day env h day announced wm s)))"
    unfolding originates_def i snd_conv
  proof (intro impI allI)
    fix i' row
    assume p: "picks_hist (he_db env)" and f: "hist_find (ht_rows (db_hist (hi_db s'))) i' = Some row"
    from import_day_parts [OF p i] f imported_origin [OF _ p f]
    show "hist_find (ht_rows (db_hist (hi_db s))) i' = Some row \<or> published env h row"
      unfolding published_def same_history_def by metis
  qed
qed

text \<open>Every row, then, is an old one or a published one.\<close>

lemma hist_find_in: "distinct (map hist_key rows) \<Longrightarrow> row \<in> set rows \<Longrightarrow> hist_find rows (hist_key row) = Some row"
  by (induction rows) (auto simp: hist_find_def)

lemma hist_find_mem: "hist_find rows i = Some row \<Longrightarrow> row \<in> set rows"
  by (simp add: hist_find_def find_Some_iff) (metis nth_mem)

lemma run_rows:
  assumes "picks_hist (he_db env)" "hist_ok (hi_db s)"
    "row \<in> set (ht_rows (db_hist (hi_db (history_run env h c ticks s))))"
  shows "row \<in> set (ht_rows (db_hist (hi_db s))) \<or> published env h row"
proof -
  have "hist_ok (hi_db (history_run env h c ticks s))"
    using frm.run_reaches [of env h s c ticks] assms(1,2) by (simp add: frames_def)
  then have "hist_find (ht_rows (db_hist (hi_db (history_run env h c ticks s)))) (hist_key row) = Some row"
    using assms(3) hist_find_in by (simp add: hist_ok_def)
  with org.run_reaches [of env h s c ticks] assms(1) hist_find_mem show ?thesis
    unfolding originates_def by blast
qed

end
