(* ===== verification/History_Props.thy ===== *)
theory History_Props
  imports History_Reach
begin

text \<open>Properties of the history import: day files, bookkeeping, selection of days, reporting.\<close>

section \<open>A file that grows\<close>

text \<open>
  The table and the bookkeeping of day \<open>d\<close> after its file was imported while it held
  \<open>file\<close>, with watermark \<open>w\<close>.
\<close>

definition follows :: "db_env \<Rightarrow> db \<Rightarrow> int \<Rightarrow> everef_rec list \<Rightarrow> time \<Rightarrow> bool" where
  "follows env d day file w \<longleftrightarrow> in_step env (ht_rows (db_hist d)) file \<and>
     (case map_of (ht_days (db_hist d)) day of
        None \<Rightarrow> file = []
      | Some ev \<Rightarrow> ev_watermark ev = (if w = zero_time then None else Some (micros w)))"

text \<open>The bound of the next read: what the importer finds in the bookkeeping.\<close>

definition next_bound :: "db \<Rightarrow> int \<Rightarrow> time" where
  "next_bound d day =
     (case map_of (ht_days (db_hist d)) day of
        None \<Rightarrow> zero_time
      | Some ev \<Rightarrow> (case ev_watermark ev of None \<Rightarrow> zero_time | Some w \<Rightarrow> w))"

text \<open>EVE Ref appends: what was in the file stays, what is new was scraped no earlier than anything before.\<close>

definition extends :: "everef_rec list \<Rightarrow> time \<Rightarrow> everef_rec list \<Rightarrow> bool" where
  "extends old w new \<longleftrightarrow> set old \<subseteq> set new \<and> (\<forall>r \<in> set new. r \<in> set old \<or> w \<le> er_lm r)"

lemma follows_bound:
  assumes "follows env d day old w" "extends old w new" "r \<in> set new"
  shows "r \<in> set old \<or> since (next_bound d day) r"
proof (cases "map_of (ht_days (db_hist d)) day")
  case None
  then show ?thesis by (simp add: next_bound_def since_def)
next
  case (Some ev)
  with assms(1) have e: "ev_watermark ev = (if w = zero_time then None else Some (micros w))" by (simp add: follows_def)
  from assms(2,3) consider "r \<in> set old" | "w \<le> er_lm r" by (auto simp: extends_def)
  then show ?thesis
  proof cases
    case 2
    then have "micros w \<le> er_lm r" using micros_le [of w] by simp
    with Some e show ?thesis by (auto simp: next_bound_def since_def)
  qed simp
qed

lemma import_follows:
  assumes "imported env day (filter (since (next_bound d day)) new) totals w' now n d d'" "picks_hist env"
    "follows env d day old w" "extends old w new"
  shows "follows env d' day new w'"
proof -
  have "in_step env (ht_rows (db_hist d')) new"
    using assms(3,4) follows_bound [OF assms(3,4)]
    by (intro import_in_step [OF assms(1,2)]) (auto simp: follows_def extends_def)
  moreover have "map_of (ht_days (db_hist d')) day =
      Some (upserted_day day (day_row totals n w' now) (map_of (ht_days (db_hist d))))"
    using assms(1) by (simp add: imported_def)
  ultimately show ?thesis by (simp add: follows_def upserted_day_def day_row_def split: option.split)
qed

text \<open>What \<open>importDay\<close> does once the file is open.\<close>

lemma import_day_opened:
  assumes "parse_day key = Some day" "he_reply env (length (hi_urls s)) = Reply 200 body"
    "parse_file \<lparr>df_regions = Some (hm_regions h), df_after = zero_time\<rparr>
       (bzip_reader (hm_client h) (he_codec env) body) = Inr (new, w', seen)"
    "import_day env h key announced b s = (r, s')" "picks_hist (he_db env)"
  shows "(\<exists>n now. imported (he_db env) day (filter (since b) new) announced w' now n (hi_db s) (hi_db s')) \<or>
    (\<exists>e. r = Inl e) \<and> same_history (hi_db s) (hi_db s')"
proof -
  let ?f = "\<lparr>df_regions = Some (hm_regions h), df_after = zero_time\<rparr>"
  obtain reply s1 where g: "hi_get env (day_url (hm_client h) day) s = (reply, s1)" by force
  from hi_get_fields [of env "day_url (hm_client h) day" s] g assms(2) have r1: "reply = Reply 200 body"
    and d1: "hi_db s1 = (hi_db s)\<lparr>db_now := hi_now s + max 0 (he_wait env (length (hi_urls s)))\<rparr>" by simp_all
  have p: "parse_file \<lparr>df_regions = Some (hm_regions h), df_after = b\<rparr> (bzip_reader (hm_client h) (he_codec env) body) =
      Inr (filter (since b) new, w', seen)"
    using parse_file_since [OF _ assms(3), of b] by simp
  obtain q d' where i: "import_history (he_db env) day (filter (since b) new) announced w' (hi_now s1) (hi_db s1) = (q, d')"
    by force
  from assms(1,4) g r1 p i have rs: "r = q" "hi_db s' = d'"
    by (auto simp: import_day_def open_day_reply_def Let_def hi_call_def)
  have h1: "same_history (hi_db s) (hi_db s1)" by (simp add: d1 same_history_def)
  note e = import_history_effect [OF i assms(5)]
  have h2: "imported (he_db env) day (filter (since b) new) announced w' (hi_now s1) n (hi_db s) d'"
    if "imported (he_db env) day (filter (since b) new) announced w' (hi_now s1) n (hi_db s1) d'" for n
    using imported_from [OF that h1] by simp
  show ?thesis
  proof (cases q)
    case (Inl x)
    with e(3) [of x] h2 rs same_history_trans [OF h1] show ?thesis by blast
  next
    case (Inr n)
    with e(2) [of n] h2 rs show ?thesis by blast
  qed
qed

section \<open>A day file\<close>

text \<open>
  Two records of one scrape batch and a later one; the first was there when the day was
  last imported, so the second is the tail of a batch already seen.
\<close>

definition demo_header :: string where
  "demo_header = ''average,date,highest,lowest,order_count,volume,http_last_modified,region_id,type_id'' @ [c_nl]"

definition demo_line :: "string \<Rightarrow> string \<Rightarrow> string \<Rightarrow> string" where
  "demo_line t ty avg = avg @ '',2026-08-09,2,1,3,10,2026-08-10T'' @ t @ ''Z,7,'' @ ty @ [c_nl]"

definition demo_file :: string where
  "demo_file = demo_header @ demo_line ''11:00:00'' ''34'' ''1.5'' @ demo_line ''11:00:00'' ''35'' ''2.5'' @
     demo_line ''12:00:00'' ''34'' ''2.5''"

definition demo_rec :: "time \<Rightarrow> int \<Rightarrow> string \<Rightarrow> everef_rec" where
  "demo_rec lm ty avg = \<lparr>er_region = 7, er_type = ty, er_date = 739836, er_average = avg, er_highest = ''2'', er_lowest = ''1'',
     er_volume = 10, er_order_count = 3, er_lm = lm\<rparr>"

definition demo_eleven :: time where "demo_eleven = 63921956400000000000"
definition demo_noon :: time where "demo_noon = 63921960000000000000"

definition demo_recs :: "everef_rec list" where
  "demo_recs = [demo_rec demo_eleven 34 ''1.5'', demo_rec demo_eleven 35 ''2.5'', demo_rec demo_noon 34 ''2.5'']"

definition demo_filter :: day_filter where
  "demo_filter = \<lparr>df_regions = Some {7}, df_after = zero_time\<rparr>"

lemma demo_parse: "parse_file demo_filter (demo_file, False) = Inr (demo_recs, demo_noon, 3)"
  by code_simp

definition demo_hist_env :: db_env where
  "demo_hist_env = \<lparr>de_fault = (\<lambda>k. NoFault), de_latency = (\<lambda>k. millisecond), de_pick = (\<lambda>k rs. hd rs),
     de_pick_hist = (\<lambda>k rs. hd rs),
     de_numeric = map_of [(''1'', 100), (''1.5'', 150), (''2'', 200), (''2.5'', 250)],
     de_price_text = show_int, de_issued_text = show_int, de_hash = (\<lambda>s. 0)\<rparr>"

lemma demo_picks: "picks_hist demo_hist_env"
  by (simp add: picks_hist_def demo_hist_env_def)

definition demo_henv :: history_env where
  "demo_henv = \<lparr>he_db = demo_hist_env, he_codec = \<lparr>ec_json = (\<lambda>st. Inr [(''2026-08-09'', 3)]), ec_bunzip = (\<lambda>st. st)\<rparr>,
     he_reply = (\<lambda>k. Reply 200 (demo_file, False)), he_wait = (\<lambda>k. second)\<rparr>"

definition demo_importer :: history_importer where
  "demo_importer = new_history_importer (new_everef ''https://data.example/market-history'' ''mm'')
     [\<lparr>rg_id = 7, rg_name = ''Near'', rg_priority = 6\<rparr>]
     \<lparr>hc_poll_interval = 15 * minute, hc_backfill_days = 730, hc_recent_days = 10, hc_spacing = 2 * second\<rparr>"

definition demo_old_row :: hist_row where
  "demo_old_row = \<lparr>hr_region = 7, hr_type = 34, hr_date = 739836, hr_average = 150, hr_highest = 200, hr_lowest = 100,
     hr_volume = 10, hr_order_count = 3, hr_last_modified = demo_eleven\<rparr>"

definition demo_hist_db :: db where
  "demo_hist_db = \<lparr>db_stg = Map.empty, db_part = Map.empty, db_status = Map.empty, db_log = [],
     db_hist = \<lparr>ht_staging = Some [], ht_years = {2026}, ht_rows = [demo_old_row],
       ht_days = [(739836, \<lparr>ev_totals = 1, ev_upserted = 1, ev_watermark = Some demo_eleven, ev_imported_at = demo_eleven\<rparr>)]\<rparr>,
     db_applied = [], db_ops = 0, db_now = demo_noon + minute\<rparr>"

definition demo_hst :: history_st where
  "demo_hst = \<lparr>hi_db = demo_hist_db, hi_urls = [], hi_reports = {}, hi_events = []\<rparr>"

lemma demo_import:
  "fst (import_day demo_henv demo_importer ''2026-08-09'' 3 (next_bound demo_hist_db 739836) demo_hst) = Inr 2"
  by code_simp

section \<open>Properties\<close>

text \<open>
  C6: incremental import. A day file grows in waves, and each import reads only what is
  not older than the last watermark, inclusively. Yet after every import the history
  holds, for every tracked key of the whole file, a newest record of that key: exactly
  what importing the whole file would have left. An import that fails leaves history and
  bookkeeping as they were, or was committed and lost only its reply; both keep the
  invariant.
\<close>
theorem incremental_import_in_step:
  assumes "follows (he_db env) (hi_db s) day old w" "extends old w new" "picks_hist (he_db env)"
    "parse_day key = Some day" "he_reply env (length (hi_urls s)) = Reply 200 body"
    "parse_file \<lparr>df_regions = Some (hm_regions h), df_after = zero_time\<rparr>
       (bzip_reader (hm_client h) (he_codec env) body) = Inr (new, w', seen)"
    "import_day env h key announced (next_bound (hi_db s) day) s = (r, s')"
  shows "follows (he_db env) (hi_db s') day new w' \<or>
    (\<exists>e. r = Inl e) \<and> follows (he_db env) (hi_db s') day old w"
  using import_day_opened [OF assms(4-7,3)]
proof (elim disjE exE conjE)
  fix n now
  assume "imported (he_db env) day (filter (since (next_bound (hi_db s) day)) new) announced w' now n (hi_db s) (hi_db s')"
  from import_follows [OF this assms(3,1,2)] show ?thesis ..
next
  fix e
  assume e: "r = Inl e" and "same_history (hi_db s) (hi_db s')"
  then have "follows (he_db env) (hi_db s') day old w"
    using assms(1) by (simp add: follows_def same_history_def)
  with e show ?thesis by blast
qed

theorem incremental_import_in_step_witness:
  "\<exists>s'. import_day demo_henv demo_importer ''2026-08-09'' 3 (next_bound demo_hist_db 739836) demo_hst = (Inr 2, s') \<and>
     follows demo_hist_env (hi_db s') 739836 demo_recs demo_noon"
proof -
  obtain r s' where s': "import_day demo_henv demo_importer ''2026-08-09'' 3 (next_bound demo_hist_db 739836) demo_hst = (r, s')"
    by force
  with demo_import have r: "r = Inr 2" by simp
  let ?old = "[demo_rec demo_eleven 34 ''1.5'']"
  have f: "follows (he_db demo_henv) (hi_db demo_hst) 739836 ?old demo_eleven" by code_simp
  have x: "extends ?old demo_eleven demo_recs" by code_simp
  have p: "picks_hist (he_db demo_henv)" using demo_picks by (simp add: demo_henv_def)
  have k: "parse_day ''2026-08-09'' = Some 739836" by code_simp
  have q: "he_reply demo_henv (length (hi_urls demo_hst)) = Reply 200 (demo_file, False)" by (simp add: demo_henv_def)
  have "bzip_reader (hm_client demo_importer) (he_codec demo_henv) (demo_file, False) = (demo_file, False)" by code_simp
  then have "parse_file \<lparr>df_regions = Some (hm_regions demo_importer), df_after = zero_time\<rparr>
      (bzip_reader (hm_client demo_importer) (he_codec demo_henv) (demo_file, False)) = Inr (demo_recs, demo_noon, 3)"
    using demo_parse by (simp add: demo_filter_def demo_importer_def new_history_importer_def)
  moreover have "hi_db demo_hst = demo_hist_db" by (simp add: demo_hst_def)
  ultimately have "follows (he_db demo_henv) (hi_db s') 739836 demo_recs demo_noon"
    using incremental_import_in_step [OF f x p k q, of demo_importer demo_noon 3 3 r s'] s' r by simp
  with s' r show ?thesis by (simp add: demo_henv_def)
qed

text \<open>
  C22: an incremental read of a day file is the full read less the rows scraped before its
  bound: same order, same watermark, same count, and it fails only if the full read does.
\<close>
theorem incremental_read:
  assumes "parse_file \<lparr>df_regions = rs, df_after = zero_time\<rparr> st = Inr (rows, w, n)"
  shows "parse_file \<lparr>df_regions = rs, df_after = b\<rparr> st =
    Inr (filter (\<lambda>r. b = zero_time \<or> b \<le> er_lm r) rows, w, n)"
  using parse_file_since [OF _ assms, of b] by (simp add: since_def [abs_def])

theorem incremental_read_witness:
  "parse_file \<lparr>df_regions = Some {7}, df_after = demo_eleven + 1\<rparr> (demo_file, False) =
     Inr ([demo_rec demo_noon 34 ''2.5''], demo_noon, 3)"
  using incremental_read [OF demo_parse [unfolded demo_filter_def], of "demo_eleven + 1"]
  by (simp add: demo_recs_def demo_rec_def demo_eleven_def demo_noon_def zero_time_def)

text \<open>
  C23: what \<open>Parse\<close> returns. The file has a header with every wanted column and records
  of its length; the rows are those of the tracked regions scraped at or after the bound,
  in the order of the file, each of them well-formed in every column; and the watermark is
  the latest scrape of all records, kept or not.
\<close>
theorem parse_file_spec:
  assumes "parse_file f st = Inr (rows, w, n)"
  shows "\<exists>header t recs. csv_read (snd st) (csv_text (fst st)) = CsvRec header t \<and>
    csv_records (snd st) t = Inr recs \<and> n = int (length recs) \<and>
    (\<forall>c \<in> set want_cols. c \<in> set header) \<and> (\<forall>rc \<in> set recs. length rc = length header) \<and>
    rows = List.map_filter (row_of header) (filter (\<lambda>rc. wanted f (rg_of header rc) (lm_of header rc)) recs) \<and>
    (\<forall>rc \<in> set recs. wanted f (rg_of header rc) (lm_of header rc) \<longrightarrow> row_of header rc \<noteq> None) \<and>
    w = foldl max zero_time (map (lm_of header) recs)"
proof (rule parse_file_header [OF assms])
  fix header t
  assume h: "csv_read (snd st) (csv_text (fst st)) = CsvRec header t" "\<forall>c \<in> set want_cols. col_index header c \<noteq> None"
    "parse_loop f header (snd st) t [] zero_time 0 = Inr (rows, w, n)"
  have "c \<in> set ns" if "col_index ns c \<noteq> None" for ns c
    using that by (induction ns) (auto split: option.splits if_splits)
  with h(2) have "\<forall>c \<in> set want_cols. c \<in> set header" by blast
  with h(1) parse_loop_ok [OF h(3)] show ?thesis
    by (intro exI [of _ header] exI [of _ t]) (auto simp: keeps_def [abs_def])
qed

theorem parse_file_spec_witness:
  "\<exists>header t recs. csv_read False (csv_text demo_file) = CsvRec header t \<and> csv_records False t = Inr recs \<and>
     length recs = 3 \<and> demo_recs = List.map_filter (row_of header)
       (filter (\<lambda>rc. wanted demo_filter (rg_of header rc) (lm_of header rc)) recs)"
  using parse_file_spec [OF demo_parse] by auto

text \<open>
  C24: \<open>selectDays\<close> returns exactly the days worth fetching, each once and oldest first: of
  the days in the backfill window that the index announces with records, those never
  imported, and those of the recent window whose count has grown. Beyond the recent window
  a day once imported is final, whatever the index says.
\<close>
theorem select_days_spec:
  assumes "distinct (map fst totals)"
  shows "sorted_wrt (\<lambda>a b. \<forall>m n. parse_day a = Some m \<longrightarrow> parse_day b = Some n \<longrightarrow> m < n)
      (select_days cfg now totals stored) \<and>
    (key \<in> set (select_days cfg now totals stored) \<longleftrightarrow>
      (\<exists>announced day. (key, announced) \<in> set totals \<and> parse_day key = Some day \<and> announced \<noteq> 0 \<and>
         day_of_time now - hc_backfill_days cfg \<le> day \<and>
         (stored key = None \<or>
          (\<exists>st. stored key = Some st \<and> day_of_time now - hc_recent_days cfg < day \<and> ed_totals st < announced))))"
proof
  have "sorted (Days totals)" "distinct (Days totals)" using assms by (simp_all add: Days_def)
  then have "sorted_wrt (<) (Days totals)" by (simp add: strict_sorted_iff)
  then have "sorted_wrt (<) (select_days cfg now totals stored)"
    unfolding select_days_def by (rule sorted_wrt_filter)
  then show "sorted_wrt (\<lambda>a b. \<forall>m n. parse_day a = Some m \<longrightarrow> parse_day b = Some n \<longrightarrow> m < n)
      (select_days cfg now totals stored)"
    by (rule sorted_wrt_mono_rel [rotated]) (use parse_day_mono in blast)
  have idx: "index_count totals key = n" if "(key, n) \<in> set totals" for n
    using assms that by (simp add: index_count_def)
  let ?due = "\<lambda>announced day. parse_day key = Some day \<and> announced \<noteq> 0 \<and>
         day_of_time now - hc_backfill_days cfg \<le> day \<and>
         (stored key = None \<or>
          (\<exists>st. stored key = Some st \<and> day_of_time now - hc_recent_days cfg < day \<and> ed_totals st < announced))"
  have due: "day_due cfg now totals stored key \<longleftrightarrow> (\<exists>day. ?due n day)" if "(key, n) \<in> set totals" for n
    by (cases "parse_day key"; cases "stored key") (auto simp: day_due_def Let_def idx [OF that])
  have "key \<in> set (select_days cfg now totals stored) \<longleftrightarrow>
      (\<exists>n. (key, n) \<in> set totals \<and> day_due cfg now totals stored key)"
    by (force simp: select_days_def Days_sorted)
  also have "\<dots> \<longleftrightarrow> (\<exists>n day. (key, n) \<in> set totals \<and> ?due n day)" using due by blast
  finally show "key \<in> set (select_days cfg now totals stored) \<longleftrightarrow>
      (\<exists>announced day. (key, announced) \<in> set totals \<and> ?due announced day)" .
qed

theorem select_days_spec_witness:
  "''2026-08-09'' \<in> set (select_days (hm_cfg demo_importer) demo_noon [(''2026-08-09'', 3), (''2026-08-11'', 0)]
     (days_map (ht_days (db_hist demo_hist_db))))"
proof -
  have d: "distinct (map fst [(''2026-08-09'', 3::int), (''2026-08-11'', 0)])" by simp
  have k: "parse_day ''2026-08-09'' = Some 739836" by code_simp
  have w: "day_of_time demo_noon - hc_backfill_days (hm_cfg demo_importer) \<le> 739836"
    "day_of_time demo_noon - hc_recent_days (hm_cfg demo_importer) < 739836" by code_simp+
  have "\<exists>st. days_map (ht_days (db_hist demo_hist_db)) ''2026-08-09'' = Some st \<and> ed_totals st < 3"
    by (rule exI [of _ "scan_day (hd (ht_days (db_hist demo_hist_db)))"]) code_simp
  then show ?thesis
    using select_days_spec [OF d, of "hm_cfg demo_importer" demo_noon "days_map (ht_days (db_hist demo_hist_db))" "''2026-08-09''"] k w
    by auto
qed

text \<open>The bookkeeping as the importer sees it, by key.\<close>

lemma days_map_get:
  assumes "distinct (map fst rows)"
  shows "days_map rows (format_day i) = map_option (\<lambda>r. scan_day (i, r)) (map_of rows i)"
    "(\<And>i. key \<noteq> format_day i) \<Longrightarrow> days_map rows key = None"
proof -
  let ?f = "\<lambda>row. (format_day (fst row), scan_day row)"
  have keys: "map fst (map ?f rows) = map format_day (map fst rows)" by simp
  have "inj_on format_day A" for A using format_day_inj by (auto intro: inj_onI)
  with assms have "distinct (map fst (map ?f rows))" unfolding keys by (simp only: distinct_map simp_thms)
  then have m: "days_map rows = map_of (map ?f rows)" unfolding days_map_def
    by (subst map_of_inject_set) (simp_all only: rev_map [symmetric] map_map set_rev set_map distinct_rev distinct_map)
  show "days_map rows (format_day i) = map_option (\<lambda>r. scan_day (i, r)) (map_of rows i)"
    unfolding m using format_day_inj by (induction rows) auto
  assume "\<And>i. key \<noteq> format_day i"
  then have "key \<notin> set (map format_day (map fst rows))" unfolding set_map by blast
  then show "days_map rows key = None" unfolding m map_of_eq_None_iff keys [symmetric] set_map .
qed

lemma import_day_committed:
  assumes "import_day env h key announced b s = (Inr n, s')" "picks_hist (he_db env)"
  obtains day rows w now where "parse_day key = Some day"
    "imported (he_db env) day rows announced w now n (hi_db s) (hi_db s')"
proof -
  from assms(1) obtain day where day: "parse_day key = Some day" by (auto simp: import_day_def split: option.splits)
  obtain reply s1 where g: "hi_get env (day_url (hm_client h) day) s = (reply, s1)" by force
  with hi_get_fields(1) [of env "day_url (hm_client h) day" s]
  have h1: "same_history (hi_db s) (hi_db s1)" by (simp add: same_history_def)
  from assms(1) g day obtain rows w d' where i: "import_history (he_db env) day rows announced w (hi_now s1) (hi_db s1) = (Inr n, d')"
    "hi_db s' = d'"
    by (auto simp: import_day_def hi_call_def Let_def split: sum.splits prod.splits)
  from imported_from [OF import_history_effect(2) [OF i(1) assms(2) refl] h1 same_history_refl] i(2) show thesis
    by (intro that [OF day]) simp
qed

text \<open>
  C21: a day is settled by its import. After a successful one the bookkeeping says of that day
  what the index announced, the rows written now added to those of earlier imports, and of
  every other day what it said before; so no poll fetches the day again until the index
  announces more.
\<close>
theorem import_settles_day:
  assumes "import_day env h key announced b s = (Inr n, s')" "picks_hist (he_db env)" "hist_ok (hi_db s)"
  shows "(\<exists>st. days_map (ht_days (db_hist (hi_db s'))) key = Some st \<and> ed_totals st = announced \<and>
      ed_upserted st = n + (case days_map (ht_days (db_hist (hi_db s))) key of None \<Rightarrow> 0 | Some old \<Rightarrow> ed_upserted old)) \<and>
    (\<forall>k. k = key \<or> days_map (ht_days (db_hist (hi_db s'))) k = days_map (ht_days (db_hist (hi_db s))) k) \<and>
    (\<forall>cfg now totals. announced < index_count totals key \<or>
       \<not> day_due cfg now totals (days_map (ht_days (db_hist (hi_db s')))) key)"
proof (rule import_day_committed [OF assms(1,2)])
  fix day rows w now
  assume day: "parse_day key = Some day" and i: "imported (he_db env) day rows announced w now n (hi_db s) (hi_db s')"
  let ?old = "ht_days (db_hist (hi_db s))" and ?new = "ht_days (db_hist (hi_db s'))"
  let ?up = "upserted_day day (day_row announced n w now) (map_of ?old)"
  have key: "key = format_day day" using format_parse [OF day] ..
  from i have m: "map_of ?new = (map_of ?old)(day \<mapsto> ?up)" and ok: "hist_ok (hi_db s')"
    using assms(3) by (simp_all add: imported_def)
  note get = days_map_get [OF hist_ok_days [OF assms(3)]] and get' = days_map_get [OF hist_ok_days [OF ok]]
  have now: "days_map ?new key = Some (scan_day (day, ?up))" by (simp add: key get'(1) m)
  have same: "k = key \<or> days_map ?new k = days_map ?old k" for k
  proof (cases "\<exists>j. k = format_day j")
    case True
    then obtain j where "k = format_day j" by blast
    then show ?thesis by (cases "j = day") (simp_all add: key get(1) get'(1) m)
  next
    case False
    then show ?thesis using get(2) [of k] get'(2) [of k] by simp
  qed
  have "ed_totals (scan_day (day, ?up)) = announced"
    "ed_upserted (scan_day (day, ?up)) = n + (case days_map ?old key of None \<Rightarrow> 0 | Some old \<Rightarrow> ed_upserted old)"
    by (simp_all add: key get(1) scan_day_def upserted_day_def day_row_def split: option.split)
  moreover have "announced < index_count totals key \<or> \<not> day_due cfg now totals (days_map ?new) key" for cfg now totals
    using calculation(1) by (auto simp: day_due_def Let_def day now)
  ultimately show ?thesis using now same by blast
qed

theorem import_settles_day_witness:
  "\<exists>s' st. import_day demo_henv demo_importer ''2026-08-09'' 3 (next_bound demo_hist_db 739836) demo_hst = (Inr 2, s') \<and>
     days_map (ht_days (db_hist (hi_db s'))) ''2026-08-09'' = Some st \<and> ed_totals st = 3"
proof -
  obtain s' where s': "import_day demo_henv demo_importer ''2026-08-09'' 3 (next_bound demo_hist_db 739836) demo_hst = (Inr 2, s')"
    using demo_import by (metis prod.collapse)
  have ok: "hist_ok (hi_db demo_hst)" by code_simp
  have p: "picks_hist (he_db demo_henv)" using demo_picks by (simp add: demo_henv_def)
  from import_settles_day [OF s' p ok] obtain st where
    "days_map (ht_days (db_hist (hi_db s'))) ''2026-08-09'' = Some st" "ed_totals st = 3" by (elim conjE exE) (rule that)
  with s' show ?thesis by (intro exI [of _ s'] exI [of _ st]) simp
qed


text \<open>
  A price \<open>iskColumn\<close> lets through reaches the database as the text it was, and once
  rounded to hundredths it is at most \<open>10 ^ 18\<close> ISK: one hundredth more than the column
  holds, and no more.
\<close>
theorem isk_column_range:
  assumes "isk_column s = Inr t"
  shows "t = s \<and> 0 \<le> abs_hundredths s \<and> abs_hundredths s \<le> 10 ^ 20"
  using isk_column_bound [OF assms] by simp

theorem isk_column_range_witness: "isk_column ''4.25'' = Inr ''4.25'' \<and> abs_hundredths ''4.25'' \<le> 10 ^ 20"
proof -
  have i: "isk_column ''4.25'' = Inr ''4.25''" by code_simp
  from isk_column_range [OF i] i show ?thesis by simp
qed

text \<open>
  C26: whatever EVE Ref answers and however long the importer runs, it never touches
  orders, statuses or the ingest log, it keeps the history's own constraints (one row
  per key, one bookkeeping row per day, a partition for every row), and it makes nothing up:
  a row that was not there before stores, column by column, a record of a tracked region
  in a day file that some reply carried.
\<close>
theorem history_keeps_orders:
  assumes "picks_hist (he_db env)"
  shows "db_part (hi_db (history_run env h c ticks s)) = db_part (hi_db s) \<and>
    db_stg (hi_db (history_run env h c ticks s)) = db_stg (hi_db s) \<and>
    db_status (hi_db (history_run env h c ticks s)) = db_status (hi_db s) \<and>
    db_log (hi_db (history_run env h c ticks s)) = db_log (hi_db s) \<and>
    (hist_ok (hi_db s) \<longrightarrow> hist_ok (hi_db (history_run env h c ticks s)) \<and>
      (\<forall>row \<in> set (ht_rows (db_hist (hi_db (history_run env h c ticks s)))).
         row \<in> set (ht_rows (db_hist (hi_db s))) \<or> published env h row))"
  using frm.run_reaches [of env h s c ticks] run_rows [of env s _ h c ticks] assms
  by (simp add: frames_def same_rest_def)

theorem history_keeps_orders_witness:
  "hist_ok (hi_db (history_run demo_henv demo_importer None [demo_noon + 15 * minute] demo_hst))"
proof -
  have "hist_ok (hi_db demo_hst)" by code_simp
  with history_keeps_orders [of demo_henv demo_importer None "[demo_noon + 15 * minute]" demo_hst] demo_picks
  show ?thesis by (simp add: demo_henv_def)
qed

section \<open>Reports\<close>

lemma hi_note_events: "hi_events (hi_note job day e s) = hi_events s @ (if job \<in> hi_reports s then [] else [(job, day, e)])"
  "hi_reports (hi_note job day e s) = insert job (hi_reports s)"
  by (auto simp: hi_note_def streak_first_def Let_def)

text \<open>
  One or more polls of an index that cannot be read: the history stays, and the failure is
  reported now unless it was before, or unless the service is shutting down.
\<close>

definition muted :: "ctx \<Rightarrow> history_st \<Rightarrow> history_st \<Rightarrow> bool" where
  "muted c s t \<longleftrightarrow> db_hist (hi_db t) = db_hist (hi_db s) \<and>
     (c \<noteq> None \<and> hi_events t = hi_events s \<and> hi_reports t = hi_reports s \<or>
      jobTotals \<in> hi_reports t \<and> (\<exists>e. hi_events t = hi_events s @ (if jobTotals \<in> hi_reports s then [] else [e])))"

lemma muted_refl: "c \<noteq> None \<or> jobTotals \<in> hi_reports s \<Longrightarrow> muted c s s"
  by (auto simp: muted_def)

lemma muted_trans:
  assumes "muted c r s" "muted c s t"
  shows "muted c r t"
proof (cases "c \<noteq> None \<and> hi_events s = hi_events r \<and> hi_reports s = hi_reports r")
  case True
  with assms show ?thesis by (simp add: muted_def)
next
  case False
  with assms(1) obtain e where s: "jobTotals \<in> hi_reports s" "db_hist (hi_db s) = db_hist (hi_db r)"
    "hi_events s = hi_events r @ (if jobTotals \<in> hi_reports r then [] else [e])" by (auto simp: muted_def)
  from assms(2) s(1) have "jobTotals \<in> hi_reports t" "hi_events t = hi_events s" "db_hist (hi_db t) = db_hist (hi_db s)"
    by (auto simp: muted_def)
  with s show ?thesis unfolding muted_def by (intro conjI disjI2 exI [of _ e]) simp_all
qed

lemma muted_wait: "muted c (hi_wait u s) t = muted c s t"
  by (simp add: muted_def hi_fields)

lemma muted_settled: "muted c s t \<Longrightarrow> c \<noteq> None \<or> jobTotals \<in> hi_reports t"
  by (auto simp: muted_def)

lemma once_outage:
  assumes "\<forall>k. \<exists>e. totals_reply (he_codec env) (he_reply env k) = Inl e"
  shows "muted c s (once env h c s)"
proof -
  from assms obtain e where e: "fetch_totals env h s = (Inl e, snd (hi_get env (totals_url (hm_client h)) s))"
    by (cases "hi_get env (totals_url (hm_client h)) s")
      (use hi_get_fields(4) [of env "totals_url (hm_client h)" s] in \<open>auto simp: fetch_totals_def\<close>)
  let ?s1 = "snd (hi_get env (totals_url (hm_client h)) s)"
  have "once env h c s = (if ctx_done c (hi_now ?s1) then ?s1 else hi_note jobTotals [] e ?s1)"
    by (simp add: once_def e)
  then show ?thesis by (cases c) (auto simp: muted_def hi_note_events hi_fields)
qed

text \<open>
  C40: an outage of EVE Ref. While the index cannot be read, however many polls fail, the
  history and its bookkeeping stay as they are and one event is sent for all of them: at most
  one, and exactly one unless the service is shutting down or the failure was reported before.
\<close>
theorem outage_one_event:
  assumes "\<forall>k. \<exists>e. totals_reply (he_codec env) (he_reply env k) = Inl e"
  shows "length (hi_events (history_run env h c ticks s)) \<le> length (hi_events s) + 1 \<and>
    (c = None \<longrightarrow> length (hi_events (history_run env h c ticks s)) =
       length (hi_events s) + (if jobTotals \<in> hi_reports s then 0 else 1)) \<and>
    db_hist (hi_db (history_run env h c ticks s)) = db_hist (hi_db s)"
proof -
  have ticks: "c \<noteq> None \<or> jobTotals \<in> hi_reports s \<Longrightarrow> muted c s (history_ticks env h c ticks s)" for s
  proof (induction ticks arbitrary: s)
    case Nil
    then show ?case by (simp add: muted_refl)
  next
    case (Cons u us)
    let ?t = "once env h c (hi_wait (max (hi_now s) u) s)"
    have "muted c s ?t" using once_outage [OF assms, of c "hi_wait (max (hi_now s) u) s" h] by (simp add: muted_wait)
    with Cons.IH [OF muted_settled] muted_trans have "muted c s (history_ticks env h c us ?t)" by blast
    with muted_refl [OF Cons.prems] show ?case by (simp add: Let_def)
  qed
  note first = once_outage [OF assms, of c s h]
  define t where "t = history_run env h c ticks s"
  from muted_trans [OF first ticks [OF muted_settled [OF first]]] have "muted c s t"
    by (simp add: history_run_def t_def)
  then have "length (hi_events t) \<le> length (hi_events s) + 1 \<and>
      (c = None \<longrightarrow> length (hi_events t) = length (hi_events s) + (if jobTotals \<in> hi_reports s then 0 else 1)) \<and>
      db_hist (hi_db t) = db_hist (hi_db s)"
    unfolding muted_def by (elim conjE disjE exE) simp_all
  then show ?thesis unfolding t_def .
qed

theorem outage_one_event_witness:
  "length (hi_events (history_run (demo_henv\<lparr>he_reply := \<lambda>k. Reply 503 ([], False)\<rparr>) demo_importer None
     [demo_noon + 15 * minute, demo_noon + 30 * minute] demo_hst)) = 1"
proof -
  let ?env = "demo_henv\<lparr>he_reply := \<lambda>k. Reply 503 ([], False)\<rparr>"
  have "\<forall>k. \<exists>e. totals_reply (he_codec ?env) (he_reply ?env k) = Inl e" by (simp add: totals_reply_def)
  from outage_one_event [OF this, of demo_importer None "[demo_noon + 15 * minute, demo_noon + 30 * minute]" demo_hst]
  show ?thesis by (simp add: demo_hst_def)
qed

end
