(* ===== verification/Columns.thy ===== *)
theory Columns
  imports Service History_Reach
begin

text \<open>
  The column types of the schema (migrations/0001_init.sql) as predicates on rows, and why
  what this service writes fits them: ids and volumes are 64-bit because Go's are, prices
  because the database reads them into \<open>numeric(20,2)\<close>, instants because they are stored to
  the microsecond.
\<close>

section \<open>Types\<close>

text \<open>\<open>numeric(20,2)\<close> in hundredths, and \<open>timestamptz\<close>.\<close>

definition numeric_ok :: "int \<Rightarrow> bool" where
  "numeric_ok p \<longleftrightarrow> \<bar>p\<bar> < 10 ^ 20"

definition stamp_ok :: "time \<Rightarrow> bool" where
  "stamp_ok t \<longleftrightarrow> 1000 dvd t"

text \<open>\<open>market.orders\<close> and \<open>market.history\<close>, column by column.\<close>

definition order_fits :: "order_row \<Rightarrow> bool" where
  "order_fits r \<longleftrightarrow> int64_ok (or_region r) \<and> int64_ok (or_order r) \<and> int64_ok (or_type r) \<and>
     int64_ok (or_location r) \<and> int64_ok (or_system r) \<and> numeric_ok (or_price r) \<and>
     int64_ok (or_volume_remain r) \<and> int64_ok (or_volume_total r) \<and> int4_ok (or_min_volume r) \<and>
     int4_ok (or_duration r) \<and> stamp_ok (or_issued r)"

definition hist_fits :: "hist_row \<Rightarrow> bool" where
  "hist_fits r \<longleftrightarrow> int64_ok (hr_region r) \<and> int64_ok (hr_type r) \<and> 0 \<le> year_of (hr_date r) \<and>
     year_of (hr_date r) < 10000 \<and> numeric_ok (hr_average r) \<and> numeric_ok (hr_highest r) \<and>
     numeric_ok (hr_lowest r) \<and> int64_ok (hr_volume r) \<and> int64_ok (hr_order_count r) \<and>
     stamp_ok (hr_last_modified r)"

text \<open>
  What the libraries promise: the JSON decoder fills a field of \<open>esi.Order\<close> with a value of
  its type or fails, and a literal too large for \<open>numeric(20,2)\<close> is refused.
\<close>

definition order_decoded :: "esi_order \<Rightarrow> bool" where
  "order_decoded o' \<longleftrightarrow> int64_ok (eo_order_id o') \<and> int64_ok (eo_type_id o') \<and> int64_ok (eo_location_id o') \<and>
     int64_ok (eo_system_id o') \<and> int64_ok (eo_volume_remain o') \<and> int64_ok (eo_volume_total o') \<and>
     int4_ok (eo_min_volume o') \<and> int4_ok (eo_duration o')"

definition decodes_typed :: "codec \<Rightarrow> bool" where
  "decodes_typed cd \<longleftrightarrow> (\<forall>body os. cd_orders cd body = Inr os \<longrightarrow> list_all order_decoded os)"

definition numeric_typed :: "db_env \<Rightarrow> bool" where
  "numeric_typed env \<longleftrightarrow> (\<forall>s p. de_numeric env s = Some p \<longrightarrow> numeric_ok p)"

section \<open>Orders\<close>

lemma carries_fits:
  assumes "carries env rg o' row" "order_decoded o'" "numeric_typed env" "int64_ok rg"
  shows "order_fits row"
  using assms by (auto simp: carries_def order_decoded_def numeric_typed_def order_fits_def stamp_ok_def)

lemma orders_page_decoded:
  assumes "fst (client_orders_page cd x rg p n) = Fetched pg" "decodes_typed cd"
  shows "list_all order_decoded (pg_orders pg)"
  using assms
  by (auto simp: client_orders_page_def get_json_def page_of_def decodes_typed_def
      split: prod.splits fetched.splits option.splits sum.splits)

lemma page_set_decoded:
  assumes "page_set cfg es m pages" "decodes_typed (pc_codec cfg)"
  shows "list_all order_decoded (fetched_orders m pages)"
  unfolding list_all_iff fetched_orders_def set_concat set_map
proof (intro ballI)
  fix o'
  assume "o' \<in> \<Union> (set ` (\<lambda>p. pg_orders (pages p)) ` set [1..max 1 (sm_pages m)])"
  then obtain p where p: "p \<in> {1..max 1 (sm_pages m)}" "o' \<in> set (pg_orders (pages p))" by auto
  from assms(1) p(1) obtain e where "carried cfg p e (pages p)" unfolding page_set_def by blast
  then obtain x n where "fst (client_orders_page (pc_codec cfg) x (pc_region cfg) p n) = Fetched (pages p)"
    unfolding carried_def by blast
  from orders_page_decoded [OF this assms(2)] p(2) show "order_decoded o'" by (simp add: list_all_iff)
qed

lemma snapshot_fits:
  assumes "is_snapshot cy (cycle_pcfg cy c r d) es rg rows" "decodes_typed (cy_codec cy)" "numeric_typed (cy_env cy)"
    "int64_ok rg"
  shows "list_all order_fits rows"
proof -
  from assms(1) obtain m pages where ps: "page_set (cycle_pcfg cy c r d) es m pages"
    and sh: "shows_orders (cy_env cy) rg (fetched_orders m pages) rows"
    unfolding is_snapshot_def by blast
  have "list_all order_decoded (fetched_orders m pages)"
    using page_set_decoded [OF ps] assms(2) by (simp add: cycle_pcfg_def)
  with sh carries_fits [OF _ _ assms(3,4)] show ?thesis
    by (auto simp: shows_orders_def list_all_iff)
qed

section \<open>History\<close>

lemma atoi_int64: "atoi s = Some n \<Longrightarrow> int64_ok n"
  by (auto simp: atoi_def Let_def split: option.splits if_splits)

lemma parse_columns_typed:
  assumes "parse_columns get n rg lm = Inr r"
  shows "int64_ok (er_type r) \<and> int64_ok (er_volume r) \<and> int64_ok (er_order_count r) \<and>
    0 \<le> year_of (er_date r) \<and> year_of (er_date r) < 10000"
  using assms atoi_int64 parse_day_year unfolding parse_columns_def need_Inr need_isk_Inr by auto

lemma parse_file_typed:
  assumes "parse_file f st = Inr (out, wm, seen)" "r \<in> set out"
  shows "int64_ok (er_type r) \<and> int64_ok (er_volume r) \<and> int64_ok (er_order_count r) \<and>
    0 \<le> year_of (er_date r) \<and> year_of (er_date r) < 10000"
proof -
  from parse_file_header [OF assms(1)] obtain header t where
    "parse_loop f header (snd st) t [] zero_time 0 = Inr (out, wm, seen)" by blast
  from parse_loop_ok [OF this] obtain recs where
    "out = List.map_filter (row_of header) (filter (keeps f header) recs)" by auto
  with assms(2) obtain rc where "row_of header rc = Some r" by (auto simp: List.map_filter_def)
  then have "parse_columns (column header rc) 0 (rg_of header rc) (lm_of header rc) = Inr r"
    by (auto simp: row_of_def split: sum.splits)
  from parse_columns_typed [OF this] show ?thesis .
qed

lemma micros_stamp: "stamp_ok (micros t)"
  by (simp add: micros_def stamp_ok_def)

lemma published_fits:
  assumes "published env h row" "numeric_typed (he_db env)" "\<forall>i \<in> hm_regions h. int64_ok i"
  shows "hist_fits row \<and> hr_region row \<in> hm_regions h"
proof -
  from assms(1) obtain w body recs wm n r where p:
      "parse_file \<lparr>df_regions = Some (hm_regions h), df_after = w\<rparr> body = Inr (recs, wm, n)"
    and r: "r \<in> set recs" "stores (he_db env) r row"
    unfolding published_def by blast
  from parse_file_rows(2) [OF p r(1)] have rg: "er_region r \<in> hm_regions h" by (simp add: wanted_def)
  from parse_file_typed [OF p r(1)] r(2) rg assms(2,3) micros_stamp show ?thesis
    by (auto simp: stores_def hist_fits_def numeric_typed_def)
qed

end
