(* ===== verification/Column_Props.thy ===== *)
theory Column_Props
  imports Service_Props History_Props Columns
begin

text \<open>The tables are well typed at all times: column types of the schema, kept by both writers.\<close>



text \<open>
  C20: types of \<open>market.history\<close>. However long the importer runs and whatever it is sent, every
  row of the history fits its columns: a region the service tracks, ids and counts in 64 bits,
  a date of the years 0 to 9999, three prices in \<open>numeric(20,2)\<close>.
\<close>
theorem history_rows_typed:
  assumes "picks_hist (he_db env)" "numeric_typed (he_db env)" "hist_ok (hi_db s)" "\<forall>i \<in> hm_regions h. int64_ok i"
    "\<forall>row \<in> set (ht_rows (db_hist (hi_db s))). hist_fits row \<and> hr_region row \<in> hm_regions h"
  shows "\<forall>row \<in> set (ht_rows (db_hist (hi_db (history_run env h c ticks s)))).
    hist_fits row \<and> hr_region row \<in> hm_regions h"
  using run_rows [OF assms(1,3)] published_fits [OF _ assms(2,4)] assms(5) by blast

theorem history_rows_typed_witness:
  "list_all (\<lambda>row. hist_fits row \<and> hr_region row = 7)
     (ht_rows (db_hist (hi_db (history_run demo_henv demo_importer None [demo_noon + 15 * minute] demo_hst))))"
proof -
  have p: "picks_hist (he_db demo_henv)" using demo_picks by (simp add: demo_henv_def)
  have num: "numeric_typed (he_db demo_henv)"
    by (auto simp: numeric_typed_def numeric_ok_def demo_henv_def demo_hist_env_def split: if_splits)
  have ok: "hist_ok (hi_db demo_hst)" by code_simp
  have h: "hm_regions demo_importer = {7}" by (simp add: demo_importer_def new_history_importer_def)
  have i: "\<forall>i \<in> hm_regions demo_importer. int64_ok i" by (simp add: h int64_ok_def)
  have "\<forall>row \<in> set (ht_rows (db_hist (hi_db demo_hst))). hist_fits row \<and> hr_region row \<in> {7}" by code_simp
  from history_rows_typed [OF p num ok i, unfolded h, OF this] show ?thesis by (simp add: list_all_iff)
qed

end
