(* ===== verification/Maintenance.thy ===== *)
theory Maintenance
  imports Status_Store Streak
begin

text \<open>
  internal/ingest/maintenance.go: the two housekeeping jobs and their tickers. \<open>now()\<close> in
  the pruning statement is the database server's clock, \<open>me_clock\<close>, read at the number of
  the call. What is sent to the error tracker is the list \<open>ms_events\<close>; \<open>ms_outcomes\<close>
  records how each job that counts ended, for the properties.
\<close>

section \<open>State\<close>

record maint_cfg =
  mc_prune_interval :: dur
  mc_analyze_interval :: dur
  mc_retention_days :: int

record maint_env =
  me_db :: db_env
  me_clock :: "nat \<Rightarrow> time"

record maint =
  ms_db :: db
  ms_prune_mu :: bool                    \<comment> \<open>the mutex is held\<close>
  ms_analyze_mu :: bool
  ms_reports :: streak
  ms_events :: "(string \<times> gerr) list"
  ms_outcomes :: "(string \<times> bool) list"  \<comment> \<open>job, and whether it failed\<close>

definition jobPrune :: string where "jobPrune = ''prune''"
definition jobAnalyze :: string where "jobAnalyze = ''analyze''"

definition new_maintenance :: "db \<Rightarrow> maint" where
  "new_maintenance d = \<lparr>ms_db = d, ms_prune_mu = False, ms_analyze_mu = False, ms_reports = {}, ms_events = [],
     ms_outcomes = []\<rparr>"

definition ms_now :: "maint \<Rightarrow> time" where
  "ms_now s = db_now (ms_db s)"

definition ms_note :: "string \<Rightarrow> gerr \<Rightarrow> maint \<Rightarrow> maint" where
  "ms_note job e s =
     (let (report, st) = streak_first job (ms_reports s);
          s1 = s\<lparr>ms_reports := st, ms_outcomes := ms_outcomes s @ [(job, True)]\<rparr>
      in if report then s1\<lparr>ms_events := ms_events s @ [(job, e)]\<rparr> else s1)"

definition ms_ends :: "string \<Rightarrow> maint \<Rightarrow> maint" where
  "ms_ends job s = s\<lparr>ms_reports := streak_ends job (ms_reports s), ms_outcomes := ms_outcomes s @ [(job, False)]\<rparr>"

section \<open>The jobs\<close>

definition prune :: "maint_env \<Rightarrow> maint_cfg \<Rightarrow> ctx \<Rightarrow> maint \<Rightarrow> maint" where
  "prune env cfg c s =
     (if ms_prune_mu s then s
      else
        let s0 = s\<lparr>ms_prune_mu := True\<rparr>;
            (r, d) = prune_ingest_log (me_db env) (me_clock env (db_ops (ms_db s0))) (mc_retention_days cfg) (ms_db s0);
            s1 = s0\<lparr>ms_db := d\<rparr>;
            s2 = (case r of
                    Inl e \<Rightarrow> if ctx_done c (ms_now s1) then s1 else ms_note jobPrune e s1
                  | Inr n \<Rightarrow> ms_ends jobPrune s1)
        in s2\<lparr>ms_prune_mu := False\<rparr>)"

definition analyze :: "maint_env \<Rightarrow> ctx \<Rightarrow> maint \<Rightarrow> maint" where
  "analyze env c s =
     (if ms_analyze_mu s then s
      else
        let s0 = s\<lparr>ms_analyze_mu := True\<rparr>;
            (r, d) = analyze_parents (me_db env) (ms_db s0);
            s1 = s0\<lparr>ms_db := d\<rparr>;
            s2 = (case r of
                    Inl e \<Rightarrow> if ctx_done c (ms_now s1) then s1 else ms_note jobAnalyze e s1
                  | Inr u \<Rightarrow> ms_ends jobAnalyze s1)
        in s2\<lparr>ms_analyze_mu := False\<rparr>)"

section \<open>Run\<close>

datatype maint_tick = PruneTick time | AnalyzeTick time

fun tick_time :: "maint_tick \<Rightarrow> time" where
  "tick_time (PruneTick t) = t"
| "tick_time (AnalyzeTick t) = t"

text \<open>The loop, over the ticks of both tickers in the order they are received.\<close>

fun maint_ticks :: "maint_env \<Rightarrow> maint_cfg \<Rightarrow> ctx \<Rightarrow> maint_tick list \<Rightarrow> maint \<Rightarrow> maint" where
  "maint_ticks env cfg c [] s = s"
| "maint_ticks env cfg c (t # ts) s =
     (let now = max (ms_now s) (tick_time t); s1 = s\<lparr>ms_db := (ms_db s)\<lparr>db_now := now\<rparr>\<rparr>
      in if ctx_done c now then s
         else maint_ticks env cfg c ts
           (case t of PruneTick u \<Rightarrow> prune env cfg c s1 | AnalyzeTick u \<Rightarrow> analyze env c s1))"

definition maint_run :: "maint_env \<Rightarrow> maint_cfg \<Rightarrow> ctx \<Rightarrow> maint_tick list \<Rightarrow> db \<Rightarrow> maint" where
  "maint_run env cfg c ticks d = maint_ticks env cfg c ticks (analyze env c (new_maintenance d))"

section \<open>Facts\<close>

text \<open>
  What housekeeping may do: drop rows of the ingest log that were past retention by the
  server's clock at some call, and nothing else; report through the streak; and leave both
  mutexes free.
\<close>

definition too_old :: "maint_env \<Rightarrow> maint_cfg \<Rightarrow> ingest_row \<Rightarrow> bool" where
  "too_old env cfg r \<longleftrightarrow> (\<exists>k. il_started r < me_clock env k - mc_retention_days cfg * day_dur)"

definition tidied :: "maint_env \<Rightarrow> maint_cfg \<Rightarrow> db \<Rightarrow> db \<Rightarrow> bool" where
  "tidied env cfg d d' \<longleftrightarrow> db_stg d' = db_stg d \<and> db_part d' = db_part d \<and> db_status d' = db_status d \<and>
     db_hist d' = db_hist d \<and> db_applied d' = db_applied d \<and>
     (\<exists>P. db_log d' = filter P (db_log d) \<and> (\<forall>r. P r \<or> too_old env cfg r))"

lemma tidied_same: "same_tables d d' \<Longrightarrow> tidied env cfg d d'"
  by (auto simp: tidied_def same_tables_def intro!: exI [of _ "\<lambda>r. True"])

lemma tidied_trans: "tidied env cfg a b \<Longrightarrow> tidied env cfg b c \<Longrightarrow> tidied env cfg a c"
proof -
  assume ab: "tidied env cfg a b" and bc: "tidied env cfg b c"
  then obtain P Q where pq: "db_log b = filter P (db_log a)" "\<forall>r. P r \<or> too_old env cfg r"
    "db_log c = filter Q (db_log b)" "\<forall>r. Q r \<or> too_old env cfg r" unfolding tidied_def by blast
  then have "db_log c = filter (\<lambda>r. P r \<and> Q r) (db_log a)" by simp
  with ab bc pq show ?thesis unfolding tidied_def by (auto intro!: exI [of _ "\<lambda>r. P r \<and> Q r"])
qed

lemma prune_tidies: "tidied env cfg d (snd (prune_ingest_log (me_db env) (me_clock env k) (mc_retention_days cfg) d))"
  unfolding prune_ingest_log_def db_wrap_snd
  by (cases rule: db_exec_cases [of "me_db env" "prune_stmt (me_clock env k) (mc_retention_days cfg)" d])
    (auto simp: prune_stmt_def Let_def tidied_def too_old_def split: if_splits
      intro: exI [of _ "\<lambda>r. True"] exI [of _ "\<lambda>r. \<not> il_started r < me_clock env k - mc_retention_days cfg * day_dur"])

lemma analyze_parents_reads: "same_tables d (snd (analyze_parents env d))"
proof -
  obtain r d1 where a: "db_ping env d = (r, d1)" by force
  have "same_tables d d1" "same_tables d1 (snd (db_ping env d1))" using db_ping_tables [of d env] db_ping_tables [of d1 env] a by simp_all
  with a show ?thesis
    by (cases r) (auto simp: analyze_parents_def db_then_def db_wrap_def intro: same_tables_trans split: prod.splits sum.splits)
qed

text \<open>Between two jobs: the events are what the streak reports of the outcomes so far.\<close>

definition maint_inv :: "maint_env \<Rightarrow> maint_cfg \<Rightarrow> db \<Rightarrow> maint \<Rightarrow> bool" where
  "maint_inv env cfg d s \<longleftrightarrow> tidied env cfg d (ms_db s) \<and> \<not> ms_prune_mu s \<and> \<not> ms_analyze_mu s \<and>
     map fst (ms_events s) = stk.reports (ms_outcomes s) {} \<and> ms_reports s = stk.after (ms_outcomes s) {}"

lemma note_inv:
  "map fst (ms_events s) = stk.reports (ms_outcomes s) {} \<Longrightarrow> ms_reports s = stk.after (ms_outcomes s) {} \<Longrightarrow>
   map fst (ms_events (ms_note job e s)) = stk.reports (ms_outcomes (ms_note job e s)) {} \<and>
   ms_reports (ms_note job e s) = stk.after (ms_outcomes (ms_note job e s)) {} \<and>
   ms_db (ms_note job e s) = ms_db s \<and> ms_prune_mu (ms_note job e s) = ms_prune_mu s \<and>
   ms_analyze_mu (ms_note job e s) = ms_analyze_mu s"
  by (cases "streak_first job (stk.after (ms_outcomes s) {})")
    (auto simp: ms_note_def Let_def stk.reports_append stk.after_append)

lemma ends_inv:
  "map fst (ms_events s) = stk.reports (ms_outcomes s) {} \<Longrightarrow> ms_reports s = stk.after (ms_outcomes s) {} \<Longrightarrow>
   map fst (ms_events (ms_ends job s)) = stk.reports (ms_outcomes (ms_ends job s)) {} \<and>
   ms_reports (ms_ends job s) = stk.after (ms_outcomes (ms_ends job s)) {} \<and>
   ms_db (ms_ends job s) = ms_db s \<and> ms_prune_mu (ms_ends job s) = ms_prune_mu s \<and>
   ms_analyze_mu (ms_ends job s) = ms_analyze_mu s"
  by (simp add: ms_ends_def stk.reports_append stk.after_append)

lemma maint_inv_jobs:
  assumes "maint_inv env cfg d s"
  shows "maint_inv env cfg d (prune env cfg c s)" "maint_inv env cfg d (analyze env c s)"
proof -
  have s: "tidied env cfg d (ms_db s)" "\<not> ms_prune_mu s" "\<not> ms_analyze_mu s"
    "map fst (ms_events s) = stk.reports (ms_outcomes s) {}" "ms_reports s = stk.after (ms_outcomes s) {}"
    using assms by (simp_all add: maint_inv_def)
  obtain r d1 where p: "prune_ingest_log (me_db env) (me_clock env (db_ops (ms_db s))) (mc_retention_days cfg) (ms_db s) = (r, d1)"
    by force
  let ?s1 = "s\<lparr>ms_prune_mu := True, ms_db := d1\<rparr>"
  have t: "tidied env cfg d d1"
    using tidied_trans [OF s(1) prune_tidies [of env cfg "ms_db s" "db_ops (ms_db s)"]] p by simp
  from s t note_inv [of ?s1] ends_inv [of ?s1] p show "maint_inv env cfg d (prune env cfg c s)"
    by (cases r) (simp_all add: prune_def maint_inv_def Let_def)
  obtain q d2 where a: "analyze_parents (me_db env) (ms_db s) = (q, d2)" by force
  let ?s2 = "s\<lparr>ms_analyze_mu := True, ms_db := d2\<rparr>"
  have u: "tidied env cfg d d2"
    using tidied_trans [OF s(1) tidied_same [OF analyze_parents_reads [of "ms_db s" "me_db env"]]] a by simp
  from s u note_inv [of ?s2] ends_inv [of ?s2] a show "maint_inv env cfg d (analyze env c s)"
    by (cases q) (simp_all add: analyze_def maint_inv_def Let_def)
qed

lemma maint_run_inv: "maint_inv env cfg d (maint_run env cfg c ticks d)"
proof -
  have "maint_inv env cfg d s \<Longrightarrow> maint_inv env cfg d (maint_ticks env cfg c ticks s)" for s
  proof (induction ticks arbitrary: s)
    case (Cons t ts)
    let ?s1 = "s\<lparr>ms_db := (ms_db s)\<lparr>db_now := max (ms_now s) (tick_time t)\<rparr>\<rparr>"
    have "maint_inv env cfg d ?s1" using Cons.prems by (simp add: maint_inv_def tidied_def)
    from maint_inv_jobs [OF this] Cons.IH Cons.prems show ?case by (cases t) (simp_all add: Let_def)
  qed simp
  moreover have "maint_inv env cfg d (new_maintenance d)"
    by (simp add: maint_inv_def new_maintenance_def tidied_same)
  ultimately show ?thesis using maint_inv_jobs(2) by (simp add: maint_run_def)
qed

section \<open>Properties\<close>

text \<open>
  C28: housekeeping never touches what readers see. Over any number of ticks, whatever
  fails, orders, statuses and history stay as they are; of the ingest log only rows go that
  were past retention, by the database's clock, and the rest keeps its order; and no mutex
  is left held, so no job is ever skipped for good.
\<close>
theorem maintenance_only_prunes:
  "db_part (ms_db (maint_run env cfg c ticks d)) = db_part d \<and> db_stg (ms_db (maint_run env cfg c ticks d)) = db_stg d \<and>
   db_status (ms_db (maint_run env cfg c ticks d)) = db_status d \<and> db_hist (ms_db (maint_run env cfg c ticks d)) = db_hist d \<and>
   (\<exists>P. db_log (ms_db (maint_run env cfg c ticks d)) = filter P (db_log d) \<and>
      (\<forall>r. P r \<or> (\<exists>k. il_started r < me_clock env k - mc_retention_days cfg * day_dur))) \<and>
   \<not> ms_prune_mu (maint_run env cfg c ticks d) \<and> \<not> ms_analyze_mu (maint_run env cfg c ticks d)"
  using maint_run_inv [of env cfg d c ticks] by (simp add: maint_inv_def tidied_def too_old_def)


end
