(* ===== verification/Config.thy ===== *)
theory Config
  imports Esi_Errors Complex_Main
begin

text \<open>
  internal/config/config.go: reading and validating the environment. The process
  environment, and the standard library's readers of durations and of floating-point
  numbers, are given by a \<open>sys_env\<close>; integers are read by \<open>atoi\<close>. A float64 is known by
  what the code asks of it: whether it is a number, infinite, or which rational.
\<close>

section \<open>Environment\<close>

datatype gofloat = FNaN | FPosInf | FNegInf | FFinite rat

record sys_env =
  sy_getenv :: "string \<Rightarrow> string"
  sy_parse_duration :: "string \<Rightarrow> gerr + dur"
  sy_parse_float :: "string \<Rightarrow> gerr + gofloat"

text \<open>\<open>f <= 0\<close>: every comparison with a NaN is false.\<close>

fun float_le_zero :: "gofloat \<Rightarrow> bool" where
  "float_le_zero FNaN = False"
| "float_le_zero FPosInf = False"
| "float_le_zero FNegInf = True"
| "float_le_zero (FFinite q) \<longleftrightarrow> q \<le> 0"

definition env_string :: "sys_env \<Rightarrow> string \<Rightarrow> string \<Rightarrow> string" where
  "env_string sy key def = (let v = sy_getenv sy key in if v \<noteq> [] then v else def)"

definition env_int :: "sys_env \<Rightarrow> string \<Rightarrow> int \<Rightarrow> gerr + int" where
  "env_int sy key def =
     (let v = sy_getenv sy key
      in if v = [] then Inr def
         else case atoi v of
                None \<Rightarrow> Inl (EWrap (key @ '': '') (EText ''invalid syntax'') [])
              | Some n \<Rightarrow> Inr n)"

definition env_float :: "sys_env \<Rightarrow> string \<Rightarrow> gofloat \<Rightarrow> gerr + gofloat" where
  "env_float sy key def =
     (let v = sy_getenv sy key
      in if v = [] then Inr def
         else case sy_parse_float sy v of Inl e \<Rightarrow> Inl (EWrap (key @ '': '') e []) | Inr f \<Rightarrow> Inr f)"

definition env_duration :: "sys_env \<Rightarrow> string \<Rightarrow> dur \<Rightarrow> gerr + dur" where
  "env_duration sy key def =
     (let v = sy_getenv sy key
      in if v = [] then Inr def
         else case sy_parse_duration sy v of Inl e \<Rightarrow> Inl (EWrap (key @ '': '') e []) | Inr d \<Rightarrow> Inr d)"

section \<open>Log levels\<close>

datatype log_level = LevelDebug | LevelInfo | LevelWarn | LevelError

text \<open>
  \<open>strings.ToLower\<close> on UTF-8, as far as these names are concerned: the ASCII capitals, and
  the one letter outside ASCII whose lower case is a letter of theirs, a dotted capital I.
\<close>

definition lower_char :: "char \<Rightarrow> char" where
  "lower_char c = (if 65 \<le> (of_char c :: nat) \<and> (of_char c :: nat) \<le> 90 then char_of (of_char c + (32 :: nat)) else c)"

fun to_lower :: "string \<Rightarrow> string" where
  "to_lower [] = []"
| "to_lower [c] = [lower_char c]"
| "to_lower (c # d # t) =
     (if c = CHR 0xC4 \<and> d = CHR 0xB0 then CHR ''i'' # to_lower t else lower_char c # to_lower (d # t))"

definition parse_log_level :: "string \<Rightarrow> gerr + log_level" where
  "parse_log_level name =
     (let n = to_lower name
      in if n = ''debug'' then Inr LevelDebug
         else if n = ''info'' then Inr LevelInfo
         else if n = ''warn'' \<or> n = ''warning'' then Inr LevelWarn
         else if n = ''error'' then Inr LevelError
         else Inl (EText (''LOG_LEVEL must be debug, info, warn or error, got '' @ name)))"

section \<open>Config and Load\<close>

record config =
  cf_database_url :: string
  cf_user_agent :: string
  cf_esi_base_url :: string
  cf_compatibility_date :: string
  cf_esi_connect_timeout :: dur
  cf_esi_request_timeout :: dur
  cf_fetch_rps :: gofloat
  cf_fetch_concurrency :: int
  cf_budget_reserve :: int
  cf_budget_floor :: int
  cf_page_attempts :: int
  cf_error_limit_floor :: int
  cf_page_backoff_unit :: dur
  cf_delta_work_mem :: string
  cf_log_level :: string
  cf_http_addr :: string
  cf_retention_days :: int
  cf_prune_interval :: dur
  cf_analyze_interval :: dur
  cf_everef_base_url :: string
  cf_history_poll_interval :: dur
  cf_history_backfill_days :: int
  cf_history_recent_days :: int
  cf_history_spacing :: dur

definition attempt :: "gerr + 'a \<Rightarrow> ('a \<Rightarrow> gerr + 'b) \<Rightarrow> gerr + 'b" where
  "attempt x k = (case x of Inl e \<Rightarrow> Inl e | Inr a \<Rightarrow> k a)"

lemma attempt_Inr [simp]: "attempt x k = Inr b \<longleftrightarrow> (\<exists>a. x = Inr a \<and> k a = Inr b)"
  by (simp add: attempt_def split: sum.split)

text \<open>The variables, read in this order; the first that cannot be read ends \<open>Load\<close>.\<close>

definition read_config :: "sys_env \<Rightarrow> gerr + config" where
  "read_config sy =
     attempt (env_duration sy ''ESI_CONNECT_TIMEOUT'' (5 * second)) (\<lambda>connect.
     attempt (env_duration sy ''ESI_REQUEST_TIMEOUT'' (30 * second)) (\<lambda>request.
     attempt (env_float sy ''FETCH_RPS'' (FFinite 70)) (\<lambda>rps.
     attempt (env_int sy ''FETCH_CONCURRENCY'' 16) (\<lambda>conc.
     attempt (env_int sy ''BUDGET_RESERVE'' 600) (\<lambda>reserve.
     attempt (env_int sy ''BUDGET_FLOOR'' 300) (\<lambda>floor.
     attempt (env_int sy ''PAGE_ATTEMPTS'' 3) (\<lambda>attempts.
     attempt (env_int sy ''ERROR_LIMIT_FLOOR'' 30) (\<lambda>elfloor.
     attempt (env_duration sy ''PAGE_BACKOFF_UNIT'' (250 * millisecond)) (\<lambda>backoff.
     attempt (env_int sy ''INGEST_LOG_RETENTION_DAYS'' 30) (\<lambda>retention.
     attempt (env_duration sy ''PRUNE_INTERVAL'' (24 * 60 * minute)) (\<lambda>prune.
     attempt (env_duration sy ''ANALYZE_INTERVAL'' (60 * minute)) (\<lambda>analyze.
     attempt (env_duration sy ''HISTORY_POLL_INTERVAL'' (15 * minute)) (\<lambda>poll.
     attempt (env_int sy ''HISTORY_BACKFILL_DAYS'' 730) (\<lambda>backfill.
     attempt (env_int sy ''HISTORY_RECENT_DAYS'' 10) (\<lambda>recent.
     attempt (env_duration sy ''HISTORY_SPACING'' (2 * second)) (\<lambda>spacing.
       Inr \<lparr>cf_database_url = sy_getenv sy ''DATABASE_URL'', cf_user_agent = sy_getenv sy ''USER_AGENT'',
         cf_esi_base_url = env_string sy ''ESI_BASE_URL'' ''https://esi.evetech.net'',
         cf_compatibility_date = env_string sy ''X_COMPATIBILITY_DATE'' ''2026-08-04'',
         cf_esi_connect_timeout = connect, cf_esi_request_timeout = request, cf_fetch_rps = rps,
         cf_fetch_concurrency = conc, cf_budget_reserve = reserve, cf_budget_floor = floor,
         cf_page_attempts = attempts, cf_error_limit_floor = elfloor, cf_page_backoff_unit = backoff,
         cf_delta_work_mem = env_string sy ''DELTA_WORK_MEM'' ''64MB'',
         cf_log_level = env_string sy ''LOG_LEVEL'' ''info'', cf_http_addr = env_string sy ''HTTP_ADDR'' '':8080'',
         cf_retention_days = retention, cf_prune_interval = prune, cf_analyze_interval = analyze,
         cf_everef_base_url = env_string sy ''EVEREF_BASE_URL'' ''https://data.everef.net/market-history'',
         cf_history_poll_interval = poll, cf_history_backfill_days = backfill, cf_history_recent_days = recent,
         cf_history_spacing = spacing\<rparr>))))))))))))))))"

text \<open>The cases of the switch, in order: what is refused, and the error (without the values it quotes).\<close>

definition refusals :: "config \<Rightarrow> (bool \<times> string) list" where
  "refusals c =
     [(cf_database_url c = [], ''DATABASE_URL is required''),
      (cf_user_agent c = [], ''USER_AGENT is required (ESI etiquette: app name and contact email)''),
      (cf_esi_connect_timeout c \<le> 0, ''ESI_CONNECT_TIMEOUT must be positive''),
      (cf_esi_request_timeout c \<le> 0, ''ESI_REQUEST_TIMEOUT must be positive''),
      (cf_esi_request_timeout c < cf_esi_connect_timeout c, ''ESI_REQUEST_TIMEOUT must be at least ESI_CONNECT_TIMEOUT''),
      (float_le_zero (cf_fetch_rps c), ''FETCH_RPS must be positive''),
      (cf_fetch_concurrency c < 1, ''FETCH_CONCURRENCY must be at least 1''),
      (cf_budget_floor c < 0, ''BUDGET_FLOOR must not be negative''),
      (cf_budget_reserve c < cf_budget_floor c, ''BUDGET_RESERVE must be at least BUDGET_FLOOR''),
      (cf_page_attempts c < 1, ''PAGE_ATTEMPTS must be at least 1''),
      (cf_error_limit_floor c < 0, ''ERROR_LIMIT_FLOOR must not be negative''),
      (cf_page_backoff_unit c < 0, ''PAGE_BACKOFF_UNIT must not be negative''),
      (cf_retention_days c < 1, ''INGEST_LOG_RETENTION_DAYS must be at least 1''),
      (cf_prune_interval c \<le> 0, ''PRUNE_INTERVAL must be positive''),
      (cf_analyze_interval c \<le> 0, ''ANALYZE_INTERVAL must be positive''),
      (cf_history_poll_interval c \<le> 0, ''HISTORY_POLL_INTERVAL must be positive''),
      (cf_history_backfill_days c < 1, ''HISTORY_BACKFILL_DAYS must be at least 1''),
      (cf_history_recent_days c < 1, ''HISTORY_RECENT_DAYS must be at least 1''),
      (cf_history_spacing c < 0, ''HISTORY_SPACING must not be negative'')]"

definition Load :: "sys_env \<Rightarrow> gerr + config" where
  "Load sy =
     attempt (read_config sy) (\<lambda>c.
       case find fst (refusals c) of
         Some (b, msg) \<Rightarrow> Inl (EText msg)
       | None \<Rightarrow> attempt (parse_log_level (cf_log_level c)) (\<lambda>level. Inr c))"

section \<open>Facts\<close>

lemma env_int_range: "env_int sy key def = Inr n \<Longrightarrow> int64_ok def \<Longrightarrow> int64_ok n"
  by (auto simp: env_int_def Let_def atoi_def split: if_splits option.splits)

text \<open>What the rest of the program may rely on once \<open>Load\<close> has succeeded.\<close>

definition config_ok :: "config \<Rightarrow> bool" where
  "config_ok c \<longleftrightarrow>
     cf_database_url c \<noteq> [] \<and> cf_user_agent c \<noteq> [] \<and>
     0 < cf_esi_connect_timeout c \<and> cf_esi_connect_timeout c \<le> cf_esi_request_timeout c \<and>
     \<not> float_le_zero (cf_fetch_rps c) \<and> 1 \<le> cf_fetch_concurrency c \<and>
     0 \<le> cf_budget_floor c \<and> cf_budget_floor c \<le> cf_budget_reserve c \<and>
     1 \<le> cf_page_attempts c \<and> 0 \<le> cf_error_limit_floor c \<and> 0 \<le> cf_page_backoff_unit c \<and>
     1 \<le> cf_retention_days c \<and> 0 < cf_prune_interval c \<and> 0 < cf_analyze_interval c \<and>
     0 < cf_history_poll_interval c \<and> 1 \<le> cf_history_backfill_days c \<and> 1 \<le> cf_history_recent_days c \<and>
     0 \<le> cf_history_spacing c \<and> (\<exists>level. parse_log_level (cf_log_level c) = Inr level)"

lemma Load_ok:
  assumes "Load sy = Inr c"
  shows "config_ok c" "read_config sy = Inr c"
proof -
  from assms obtain c' where c': "read_config sy = Inr c'"
    "(case find fst (refusals c') of Some (b, msg) \<Rightarrow> Inl (EText msg)
      | None \<Rightarrow> attempt (parse_log_level (cf_log_level c')) (\<lambda>level. Inr c')) = Inr c"
    unfolding Load_def attempt_Inr by blast
  have none: "find fst (refusals c') = None" using c'(2) by (cases "find fst (refusals c')") auto
  with c' have r: "read_config sy = Inr c" "find fst (refusals c) = None"
    "\<exists>level. parse_log_level (cf_log_level c) = Inr level" by auto
  then show "read_config sy = Inr c" by simp
  from r(2) have "\<forall>x \<in> set (refusals c). \<not> fst x" unfolding find_None_iff by blast
  with r(3) show "config_ok c" by (simp add: refusals_def config_ok_def not_le not_less)
qed

lemma read_config_ints:
  "read_config sy = Inr c \<Longrightarrow>
   env_int sy ''FETCH_CONCURRENCY'' 16 = Inr (cf_fetch_concurrency c) \<and>
   env_int sy ''PAGE_ATTEMPTS'' 3 = Inr (cf_page_attempts c) \<and>
   env_int sy ''HISTORY_BACKFILL_DAYS'' 730 = Inr (cf_history_backfill_days c) \<and>
   env_float sy ''FETCH_RPS'' (FFinite 70) = Inr (cf_fetch_rps c)"
  unfolding read_config_def attempt_Inr by auto

lemma Load_ranges:
  assumes "Load sy = Inr c"
  shows "int64_ok (cf_fetch_concurrency c)" "int64_ok (cf_page_attempts c)" "int64_ok (cf_history_backfill_days c)"
  using read_config_ints [OF Load_ok(2) [OF assms]] env_int_range [of sy]
  by (auto simp: int64_ok_def)

end
