(* ===== verification/Migrate.thy ===== *)
theory Migrate
  imports Status_Store "HOL-Library.List_Lexorder" "HOL-Library.Char_ord"
begin

text \<open>
  internal/store/store.go: opening the pool and applying the embedded migrations. What a
  migration's SQL does is an argument, \<open>run\<close>. The advisory lock is taken and released
  around the loop; that two instances cannot hold it at once is PostgreSQL's promise.
\<close>

definition migration_lock_key :: int where
  "migration_lock_key = 0x6D61726B65746D67"

definition open_store :: "db_env \<Rightarrow> unit db_call" where
  "open_store env = db_then (db_wrap ''pgxpool: '' (db_ping env)) (\<lambda>_. db_wrap ''ping: '' (db_ping env))"

definition store_ping :: "db_env \<Rightarrow> unit db_call" where
  "store_ping env = db_ping env"

text \<open>The embedded files: name and contents.\<close>

type_synonym migration_fs = "(string \<times> string) list"

type_synonym sql_effect = "string \<Rightarrow> nat \<Rightarrow> db \<Rightarrow> gerr + (unit \<times> db)"

definition insert_version :: "string \<Rightarrow> nat \<Rightarrow> db \<Rightarrow> gerr + (unit \<times> db)" where
  "insert_version name k d =
     (if name \<in> set (db_applied d) then Inl (EText ''duplicate key value'')
      else Inr ((), d\<lparr>db_applied := db_applied d @ [name]\<rparr>))"

definition is_applied :: "db_env \<Rightarrow> string \<Rightarrow> bool db_call" where
  "is_applied env name =
     db_wrap (''check '' @ name @ '': '') (db_exec env (\<lambda>k d. Inr (name \<in> set (db_applied d), d)))"

definition apply_migration :: "db_env \<Rightarrow> sql_effect \<Rightarrow> string \<Rightarrow> string \<Rightarrow> unit db_call" where
  "apply_migration env run name sql =
     db_tx env (Some (''commit '' @ name @ '': ''))
       (db_then (db_wrap (''apply '' @ name @ '': '') (db_stmt env (run sql))) (\<lambda>_.
        db_wrap (''record '' @ name @ '': '') (db_stmt env (insert_version name))))"

fun migrate_loop :: "db_env \<Rightarrow> sql_effect \<Rightarrow> migration_fs \<Rightarrow> string list \<Rightarrow> unit db_call" where
  "migrate_loop env run fs [] = db_return ()"
| "migrate_loop env run fs (name # names) =
     db_then (is_applied env name) (\<lambda>applied.
       if applied then migrate_loop env run fs names
       else case map_of fs name of
              None \<Rightarrow> (\<lambda>d. (Inl (EText ''file does not exist''), d))
            | Some sql \<Rightarrow> db_then (apply_migration env run name sql) (\<lambda>_. migrate_loop env run fs names))"

text \<open>The deferred unlock follows whatever the loop returned; its error is only logged.\<close>

definition migrate :: "db_env \<Rightarrow> sql_effect \<Rightarrow> migration_fs \<Rightarrow> unit db_call" where
  "migrate env run fs =
     db_then (db_wrap ''acquire migration conn: '' (db_ping env)) (\<lambda>_.
     db_then (db_wrap ''acquire migration lock: '' (db_ping env)) (\<lambda>_ d.
       case db_then (db_wrap ''ensure migrations table: '' (db_ping env))
              (\<lambda>_. migrate_loop env run fs (sort (map fst fs))) d of
         (r, d1) \<Rightarrow> (r, snd (db_ping env d1))))"

section \<open>Facts\<close>

text \<open>No migration's own SQL touches the table of versions.\<close>

definition keeps_versions :: "sql_effect \<Rightarrow> bool" where
  "keeps_versions run \<longleftrightarrow> (\<forall>sql k d u d'. run sql k d = Inr (u, d') \<longrightarrow> db_applied d' = db_applied d)"

lemma same_tables_applied: "same_tables d d' \<Longrightarrow> db_applied d' = db_applied d"
  by (simp add: same_tables_def)

lemma is_applied_effect:
  "is_applied env name d = (r, d') \<Longrightarrow> db_applied d' = db_applied d \<and> (\<forall>b. r = Inr b \<longrightarrow> b = (name \<in> set (db_applied d)))"
  by (auto simp: is_applied_def db_wrap_def db_exec_def Let_def split: db_fault.splits)

lemma apply_migration_effect:
  assumes "keeps_versions run" "apply_migration env run name sql d = (r, d')"
  shows "db_applied d' = db_applied d \<and> r \<noteq> Inr () \<or> db_applied d' = db_applied d @ [name]"
proof -
  let ?body = "db_then (db_wrap (''apply '' @ name @ '': '') (db_stmt env (run sql))) (\<lambda>_.
        db_wrap (''record '' @ name @ '': '') (db_stmt env (insert_version name)))"
  have fin: "db_applied d' = db_applied d @ [name]"
    if "db_ping env d = (Inr (), d0)" "?body d0 = (Inr u, d1)" "d' = db_tick env d1" for d0 d1 u
  proof -
    from that(2) obtain d2 where s: "db_stmt env (run sql) d0 = (Inr (), d2)" "db_stmt env (insert_version name) d2 = (Inr (), d1)"
      by (auto simp: db_then_Inr)
    from s(1) assms(1) have "db_applied d2 = db_applied (db_tick env d0)" by (auto simp: db_stmt_Inr keeps_versions_def)
    moreover from s(2) have "db_applied d1 = db_applied (db_tick env d2) @ [name]"
      by (auto simp: db_stmt_Inr insert_version_def split: if_splits)
    moreover have "db_applied d0 = db_applied d" using same_tables_applied [OF db_ping_tables [of d env]] that(1) by simp
    ultimately show ?thesis by (simp add: that(3))
  qed
  show ?thesis
  proof (cases r)
    case (Inl e)
    with assms(2) have "db_tx env (Some (''commit '' @ name @ '': '')) ?body d = (Inl e, d')" by (simp add: apply_migration_def)
    from db_tx_Inl [OF this] fin same_tables_applied Inl show ?thesis by blast
  next
    case (Inr u)
    with assms(2) have "db_tx env (Some (''commit '' @ name @ '': '')) ?body d = (Inr u, d')" by (simp add: apply_migration_def)
    from db_tx_Inr [OF this] fin show ?thesis by metis
  qed
qed

definition pending :: "string list \<Rightarrow> db \<Rightarrow> string list" where
  "pending names d = filter (\<lambda>n. n \<notin> set (db_applied d)) names"

lemma migrate_loop_effect:
  assumes "keeps_versions run" "migrate_loop env run fs names d = (r, d')" "distinct names"
  shows "\<exists>n. db_applied d' = db_applied d @ take n (pending names d) \<and> (r = Inr () \<longrightarrow> length (pending names d) \<le> n)"
  using assms(2,3)
proof (induction names arbitrary: d)
  case Nil
  then show ?case by (auto simp: db_return_def pending_def)
next
  case (Cons name names)
  obtain r1 d1 where a: "is_applied env name d = (r1, d1)" by force
  note e = is_applied_effect [OF a]
  show ?case
  proof (cases r1)
    case (Inl x)
    with Cons.prems(1) a e show ?thesis by (intro exI [of _ 0]) (auto simp: db_then_def)
  next
    case (Inr b)
    show ?thesis
    proof (cases b)
      case True
      with Cons.prems(1) a Inr have l: "migrate_loop env run fs names d1 = (r, d')" by (simp add: db_then_def)
      have "name \<in> set (db_applied d)" "db_applied d1 = db_applied d" using e Inr True by auto
      with Cons.IH [OF l] Cons.prems(2) show ?thesis by (simp add: pending_def)
    next
      case False
      then have new: "name \<notin> set (db_applied d)" and d1: "db_applied d1 = db_applied d" using e Inr by auto
      have p: "pending (name # names) d = name # pending names d" by (simp add: pending_def new)
      show ?thesis
      proof (cases "map_of fs name")
        case None
        with Cons.prems(1) a Inr False d1 show ?thesis by (intro exI [of _ 0]) (auto simp: db_then_def)
      next
        case (Some sql)
        obtain r2 d2 where m: "apply_migration env run name sql d1 = (r2, d2)" by force
        note g = apply_migration_effect [OF assms(1) m]
        show ?thesis
        proof (cases r2)
          case (Inl x)
          with Cons.prems(1) a Inr False Some m have r: "r = Inl x" "d' = d2" by (simp_all add: db_then_def)
          from g d1 consider "db_applied d2 = db_applied d" | "db_applied d2 = db_applied d @ [name]" by auto
          then show ?thesis
          proof cases
            case 1
            with r show ?thesis by (intro exI [of _ 0]) simp
          next
            case 2
            with r p show ?thesis by (intro exI [of _ 1]) simp
          qed
        next
          case (Inr u)
          with Cons.prems(1) a \<open>r1 = Inr b\<close> False Some m have "migrate_loop env run fs names d2 = (r, d')"
            by (simp add: db_then_def)
          from Cons.IH [OF this] Cons.prems(2) obtain n where n:
            "db_applied d' = db_applied d2 @ take n (pending names d2)" "r = Inr () \<longrightarrow> length (pending names d2) \<le> n" by auto
          from g Inr d1 have d2: "db_applied d2 = db_applied d @ [name]" by auto
          then have "pending names d2 = pending names d"
            using Cons.prems(2) by (auto simp: pending_def intro!: filter_cong)
          with n d2 p show ?thesis by (intro exI [of _ "Suc n"]) simp
        qed
      qed
    qed
  qed
qed

lemma migrate_effect:
  assumes "keeps_versions run" "migrate env run fs d = (r, d')" "distinct (map fst fs)"
  shows "\<exists>n. db_applied d' = db_applied d @ take n (pending (sort (map fst fs)) d) \<and>
    (r = Inr () \<longrightarrow> length (pending (sort (map fst fs)) d) \<le> n)"
proof -
  let ?names = "sort (map fst fs)"
  have ping: "db_applied (snd (db_ping env x)) = db_applied x" for x
    using same_tables_applied [OF db_ping_tables [of x env]] .
  have wrap: "db_applied x' = db_applied x" if "db_wrap pre (db_ping env) x = (q, x')" for pre q x x'
    using ping [of x] db_wrap_snd [of pre "db_ping env" x] that by simp
  obtain r1 d1 where a: "db_wrap ''acquire migration conn: '' (db_ping env) d = (r1, d1)" by force
  obtain r2 d2 where b: "db_wrap ''acquire migration lock: '' (db_ping env) d1 = (r2, d2)" by force
  obtain r3 d3 where c: "db_wrap ''ensure migrations table: '' (db_ping env) d2 = (r3, d3)" by force
  note w = wrap [OF a] wrap [OF b] wrap [OF c]
  have stop: ?thesis if "db_applied d' = db_applied d" "r \<noteq> Inr ()" using that by (intro exI [of _ 0]) simp
  show ?thesis
  proof (cases "\<exists>x. r1 = Inl x \<or> r2 = Inl x \<or> r3 = Inl x")
    case True
    with assms(2) a b c w ping show ?thesis
      by (intro stop) (auto simp: migrate_def db_then_def split: sum.splits)
  next
    case False
    then obtain u1 u2 u3 where r: "r1 = Inr u1" "r2 = Inr u2" "r3 = Inr u3" by (metis sum.exhaust)
    obtain q d4 where l: "migrate_loop env run fs ?names d3 = (q, d4)" by force
    from assms(2) a b c r l have "r = q" "db_applied d' = db_applied d4"
      using ping [of d4] by (auto simp: migrate_def db_then_def)
    with migrate_loop_effect [OF assms(1) l] assms(3) w show ?thesis by (simp add: pending_def)
  qed
qed

end
