(* ===== verification/Service_Main.thy ===== *)
theory Service_Main
  imports Config Migrate History Maintenance Scheduler
begin

text \<open>
  cmd/marketmanager/main.go: what the process makes of its configuration, the sequence of
  its start, the health endpoint and its probe, and how it exits. Reporting, logging and
  the goroutines themselves are the runtime's.
\<close>

section \<open>Wiring\<close>

text \<open>\<open>FetcherConfig\<close> and \<open>NewFetcher\<close>, of internal/ingest/sweep.go.\<close>

record fetcher_config =
  fc_reserve :: int
  fc_budget_floor :: int
  fc_page_attempts :: int
  fc_error_limit_floor :: int
  fc_page_backoff_unit :: dur

definition new_fetcher :: "fetcher_config \<Rightarrow> fetcher" where
  "new_fetcher cfg = \<lparr>ft_reserve = fc_reserve cfg, ft_floor = fc_budget_floor cfg,
     ft_page_attempts = fc_page_attempts cfg, ft_error_limit_floor = fc_error_limit_floor cfg,
     ft_backoff_unit = fc_page_backoff_unit cfg\<rparr>"

definition fetcher_of :: "config \<Rightarrow> fetcher" where
  "fetcher_of c = new_fetcher \<lparr>fc_reserve = cf_budget_reserve c, fc_budget_floor = cf_budget_floor c,
     fc_page_attempts = cf_page_attempts c, fc_error_limit_floor = cf_error_limit_floor c,
     fc_page_backoff_unit = cf_page_backoff_unit c\<rparr>"

text \<open>
  \<open>esi.Options\<close> and \<open>esi.New\<close>, of internal/esi/client.go: the settings of the transport, the
  limiter and the request slots, with fresh governors.
\<close>

record esi_options =
  op_base_url :: string
  op_user_agent :: string
  op_compat_date :: string
  op_connect_timeout :: dur
  op_request_timeout :: dur
  op_rps :: gofloat
  op_concurrency :: int

record http_transport =
  tp_max_idle_per_host :: int
  tp_max_per_host :: int
  tp_force_http2 :: bool
  tp_dial_timeout :: dur
  tp_keep_alive :: dur
  tp_tls_timeout :: dur

record esi_setup =
  es_base_url :: string
  es_user_agent :: string
  es_compat_date :: string
  es_timeout :: dur
  es_transport :: http_transport
  es_rate :: gofloat
  es_burst :: int
  es_slots :: int
  es_governors :: esi_client

definition esi_new :: "esi_options \<Rightarrow> esi_setup" where
  "esi_new op = \<lparr>es_base_url = op_base_url op, es_user_agent = op_user_agent op, es_compat_date = op_compat_date op,
     es_timeout = op_request_timeout op,
     es_transport = \<lparr>tp_max_idle_per_host = op_concurrency op, tp_max_per_host = op_concurrency op,
        tp_force_http2 = True, tp_dial_timeout = op_connect_timeout op, tp_keep_alive = 30 * second,
        tp_tls_timeout = op_connect_timeout op\<rparr>,
     es_rate = op_rps op, es_burst = 1, es_slots = op_concurrency op, es_governors = esi_client_init\<rparr>"

text \<open>The request of \<open>get\<close>: its URL and the headers it sets.\<close>

definition esi_request :: "esi_setup \<Rightarrow> string \<Rightarrow> string \<times> (string \<times> string) list" where
  "esi_request es path = (es_base_url es @ path,
     [(''User-Agent'', es_user_agent es), (''X-Compatibility-Date'', es_compat_date es)])"

definition esi_options_of :: "config \<Rightarrow> esi_options" where
  "esi_options_of c = \<lparr>op_base_url = cf_esi_base_url c, op_user_agent = cf_user_agent c,
     op_compat_date = cf_compatibility_date c, op_connect_timeout = cf_esi_connect_timeout c,
     op_request_timeout = cf_esi_request_timeout c, op_rps = cf_fetch_rps c, op_concurrency = cf_fetch_concurrency c\<rparr>"

definition cycle_of :: "config \<Rightarrow> codec \<Rightarrow> db_env \<Rightarrow> err_texts \<Rightarrow> cycle" where
  "cycle_of c cd env t = new_cycle (fetcher_of c) cd (es_slots (esi_new (esi_options_of c))) env t"

text \<open>A request in flight finds a connection: there are as many per host as slots.\<close>

lemma slots_have_connections: "tp_max_per_host (es_transport (esi_new op)) = es_slots (esi_new op)"
  by (simp add: esi_new_def)

lemma cycle_of_slots [simp]: "es_slots (esi_new (esi_options_of c)) = cf_fetch_concurrency c"
  by (simp add: esi_new_def esi_options_of_def)

definition sched_cfg_of :: "config \<Rightarrow> sched_cfg" where
  "sched_cfg_of c = \<lparr>sc_max_jitter = 3 * second, sc_canary_interval = 25 * second, sc_max_attempts = 3,
     sc_error_limit_floor = cf_error_limit_floor c, sc_budget_floor = cf_budget_floor c\<rparr>"

definition maint_cfg_of :: "config \<Rightarrow> maint_cfg" where
  "maint_cfg_of c = \<lparr>mc_prune_interval = cf_prune_interval c, mc_analyze_interval = cf_analyze_interval c,
     mc_retention_days = cf_retention_days c\<rparr>"

definition history_cfg_of :: "config \<Rightarrow> history_cfg" where
  "history_cfg_of c = \<lparr>hc_poll_interval = cf_history_poll_interval c, hc_backfill_days = cf_history_backfill_days c,
     hc_recent_days = cf_history_recent_days c, hc_spacing = cf_history_spacing c\<rparr>"

definition importer_of :: "config \<Rightarrow> region list \<Rightarrow> history_importer" where
  "importer_of c regions =
     new_history_importer (new_everef (cf_everef_base_url c) (cf_user_agent c)) regions (history_cfg_of c)"

section \<open>Start\<close>

record main_env =
  mn_sys :: sys_env
  mn_db :: db_env
  mn_sde :: sde
  mn_sql :: sql_effect
  mn_migrations :: migration_fs

definition history_from :: "config \<Rightarrow> time \<Rightarrow> time" where
  "history_from c now = now - cf_history_backfill_days c * day_dur"

text \<open>\<open>run\<close>, up to the point where its goroutines start.\<close>

definition startup :: "main_env \<Rightarrow> (config \<times> region list) db_call" where
  "startup env d =
     (case Load (mn_sys env) of
        Inl e \<Rightarrow> (Inl e, d)
      | Inr c \<Rightarrow>
          (case parse_log_level (cf_log_level c) of
             Inl e \<Rightarrow> (Inl e, d)
           | Inr level \<Rightarrow>
               db_then (open_store (mn_db env)) (\<lambda>_.
               db_then (migrate (mn_db env) (mn_sql env) (mn_migrations env)) (\<lambda>_.
               db_then (regions_query (mn_db env) (mn_sde env)) (\<lambda>regions.
               db_then (ensure_region_objects (mn_db env) regions) (\<lambda>_ d.
               db_then (ensure_history_partitions (mn_db env) (history_from c (db_now d)) (db_now d))
                 (\<lambda>_. db_return (c, regions)) d)))) d))"

definition region_names :: "region list \<Rightarrow> string list" where
  "region_names regions = map (\<lambda>r. rg_name r @ ''(p'' @ show_int (rg_priority r) @ '')'') regions"

section \<open>Exit\<close>

text \<open>What \<open>main\<close> makes of the result of \<open>run\<close>: the errors reported, and the exit code.\<close>

definition main_exit :: "gerr option \<Rightarrow> gerr list \<times> int" where
  "main_exit err =
     (case err of
        None \<Rightarrow> ([], 0)
      | Some e \<Rightarrow> (if err_is e ECanceled then [] else [e], 1))"

definition sentry_release :: "sys_env \<Rightarrow> string" where
  "sentry_release sy = (let release = sy_getenv sy ''SOURCE_COMMIT'' in if release \<noteq> ''HEAD'' then release else [])"

section \<open>Health\<close>

text \<open>The mux: status and body of a request; a pattern for GET also matches HEAD.\<close>

definition serve :: "db_env \<Rightarrow> db \<Rightarrow> string \<Rightarrow> string \<Rightarrow> int \<times> string" where
  "serve env d meth path =
     (if path \<noteq> ''/healthz'' then (404, ''404 page not found'')
      else if meth \<noteq> ''GET'' \<and> meth \<noteq> ''HEAD'' then (405, ''Method Not Allowed'')
      else case fst (store_ping env d) of
             Inl e \<Rightarrow> (503, ''db unavailable'')
           | Inr u \<Rightarrow> (200, ''ok''))"

definition after_last_colon :: "string \<Rightarrow> string" where
  "after_last_colon s = rev (takeWhile (\<lambda>c. c \<noteq> CHR '':'') (rev s))"

text \<open>The port of \<open>net.SplitHostPort\<close>.\<close>

definition split_port :: "string \<Rightarrow> string option" where
  "split_port s =
     (if CHR '':'' \<notin> set s then None
      else
        let port = after_last_colon s; i = length s - length port - 1
        in if hd s = CHR ''['' then
             (let e = length (takeWhile (\<lambda>c. c \<noteq> CHR '']'') s)
              in if e = length s \<or> e + 1 \<noteq> i then None
                 else if CHR ''['' \<in> set (drop 1 s) \<or> CHR '']'' \<in> set (drop (e + 1) s) then None
                 else Some port)
           else if CHR '':'' \<in> set (take i s) then None
           else if CHR ''['' \<in> set s \<or> CHR '']'' \<in> set s then None
           else Some port)"

text \<open>The port the probe dials, if the address names one it accepts.\<close>

definition probe_port :: "sys_env \<Rightarrow> int option" where
  "probe_port sy =
     (let addr = env_string sy ''HTTP_ADDR'' '':8080''
      in case split_port addr of
           None \<Rightarrow> None
         | Some p \<Rightarrow>
             (case atoi p of
                None \<Rightarrow> None
              | Some port \<Rightarrow> if port < 1 \<or> 65535 < port then None else Some port))"

definition probe_url :: "int \<Rightarrow> string" where
  "probe_url port = ''http://127.0.0.1:'' @ show_int port @ ''/healthz''"

text \<open>\<open>dial\<close> is what a GET of a URL meets: no answer, or a status.\<close>

definition health_probe :: "sys_env \<Rightarrow> (string \<Rightarrow> int option) \<Rightarrow> int" where
  "health_probe sy dial =
     (case probe_port sy of
        None \<Rightarrow> 1
      | Some port \<Rightarrow>
          (case dial (probe_url port) of
             None \<Rightarrow> 1
           | Some status \<Rightarrow> if status \<noteq> 200 then 1 else 0))"

section \<open>Facts\<close>

lemma create_year_Inr:
  "create_year y k d = Inr (u, d') \<Longrightarrow> 1000 \<le> y \<and> ht_years (db_hist d') = insert y (ht_years (db_hist d)) \<and> same_rest d d' \<and>
     ht_staging (db_hist d') = ht_staging (db_hist d)"
  by (auto simp: create_year_def same_rest_def split: if_splits)

lemma ensure_years_Inr:
  "ensure_years env ys d = (Inr u, d') \<Longrightarrow>
   set ys \<union> ht_years (db_hist d) \<subseteq> ht_years (db_hist d') \<and> same_rest d d' \<and> ht_staging (db_hist d') = ht_staging (db_hist d)"
proof (induction ys arbitrary: d)
  case (Cons y ys)
  then obtain d1 where d1: "db_exec env (create_year y) d = (Inr (), d1)" "ensure_years env ys d1 = (Inr u, d')"
    by (auto simp: ensure_history_year_def db_then_Inr)
  from create_year_Inr [OF db_exec_Inr [OF d1(1)]] Cons.IH [OF d1(2)] show ?case
    by (auto simp: same_rest_def)
qed (simp add: db_return_def)

lemma ensure_partitions_Inr:
  assumes "ensure_history_partitions env from until d = (Inr u, d')"
  shows "{time_year from..time_year until} \<subseteq> ht_years (db_hist d')" "ht_staging (db_hist d') \<noteq> None" "same_rest d d'"
proof -
  from assms obtain d1 where d1: "db_exec env create_history_staging d = (Inr (), d1)"
    "ensure_years env [time_year from..time_year until] d1 = (Inr u, d')"
    by (auto simp: ensure_history_partitions_def db_then_Inr)
  from db_exec_Inr [OF d1(1)] have "ht_staging (db_hist d1) \<noteq> None" "same_rest d d1"
    by (auto simp: create_history_staging_def same_rest_def split: option.splits)
  with ensure_years_Inr [OF d1(2)] show "{time_year from..time_year until} \<subseteq> ht_years (db_hist d')"
    "ht_staging (db_hist d') \<noteq> None" "same_rest d d'" by (auto intro: same_rest_trans)
qed

lemma startup_Inr:
  assumes "startup env d = (Inr (c, regions), d')"
  obtains d1 d2 d3 d4 where "Load (mn_sys env) = Inr c"
    "migrate (mn_db env) (mn_sql env) (mn_migrations env) d1 = (Inr (), d2)"
    "regions_query (mn_db env) (mn_sde env) d2 = (Inr regions, d3)"
    "ensure_region_objects (mn_db env) regions d3 = (Inr (), d4)"
    "ensure_history_partitions (mn_db env) (history_from c (db_now d4)) (db_now d4) d4 = (Inr (), d')"
proof (cases "Load (mn_sys env)")
  case (Inl e)
  with assms show thesis by (simp add: startup_def)
next
  case (Inr c')
  obtain level where "parse_log_level (cf_log_level c') = Inr level"
    using Load_ok(1) [OF Inr] by (auto simp: config_ok_def)
  with assms Inr show thesis by (auto simp: startup_def db_then_Inr db_return_def intro: that)
qed

end
