(* ===== verification/Independence.thy ===== *)
theory Independence
  imports Service_Main Cycle
begin

text \<open>
  The three workers share one database and write disjoint tables. Here is why they cannot
  disturb each other: what a worker does, and what it leaves behind, does not depend on the
  tables of the others, and it hands those on as it found them. So another worker's change
  commutes with each of its calls, and with its whole run: it is neither seen nor undone.

  The interface \<open>table_swap\<close> is a change of tables that leaves clock and call counter alone;
  a call is \<open>blind\<close> to it if it commutes with it. Every combinator of calls keeps blindness, so
  a worker is blind where its statements are.
\<close>

section \<open>The interface\<close>

definition blind :: "(db \<Rightarrow> db) \<Rightarrow> 'a db_call \<Rightarrow> bool" where
  "blind f m \<longleftrightarrow> (\<forall>d. m (f d) = (fst (m d), f (snd (m d))))"

definition blind_stmt :: "(db \<Rightarrow> db) \<Rightarrow> (nat \<Rightarrow> db \<Rightarrow> gerr + ('a \<times> db)) \<Rightarrow> bool" where
  "blind_stmt f g \<longleftrightarrow> (\<forall>k d. g k (f d) = map_sum id (map_prod id f) (g k d))"

lemma blindD: "blind f m \<Longrightarrow> m d = (r, d') \<Longrightarrow> m (f d) = (r, f d')"
  by (simp add: blind_def)

locale table_swap =
  fixes f :: "db \<Rightarrow> db"
  assumes swap_ops [simp]: "db_ops (f d) = db_ops d"
    and swap_now [simp]: "db_now (f d) = db_now d"
    and swap_set: "f (d\<lparr>db_ops := k, db_now := t\<rparr>) = (f d)\<lparr>db_ops := k, db_now := t\<rparr>"
    and swap_roll: "f (rolled_back a b) = rolled_back (f a) (f b)"
begin

lemma swap_set_now: "f (d\<lparr>db_now := t\<rparr>) = (f d)\<lparr>db_now := t\<rparr>"
proof -
  have "(x::db)\<lparr>db_now := t\<rparr> = x\<lparr>db_ops := db_ops x, db_now := t\<rparr>" for x by simp
  from this [of d] this [of "f d"] swap_set [where d = d and k = "db_ops d" and t = t] show ?thesis by simp
qed

lemma swap_tick: "db_tick env (f d) = f (db_tick env d)"
  by (simp add: db_tick_def swap_set)

lemma blind_return: "blind f (db_return a)"
  by (simp add: blind_def db_return_def)

lemma blind_ping: "blind f (db_ping env)"
  by (simp add: blind_def db_ping_def swap_tick split: db_fault.split)

lemma blind_wrap: "blind f m \<Longrightarrow> blind f (db_wrap pre m)"
  by (auto simp: blind_def db_wrap_def split: prod.split sum.split)

lemma blind_then: "blind f m \<Longrightarrow> (\<And>a. blind f (g a)) \<Longrightarrow> blind f (db_then m g)"
  by (auto simp: blind_def db_then_def split: prod.split sum.split)

lemma blind_exec: "blind_stmt f g \<Longrightarrow> blind f (db_exec env g)"
  by (auto simp: blind_def blind_stmt_def db_exec_def Let_def swap_tick map_sum_def split: db_fault.split sum.split)

lemma blind_in_tx: "blind_stmt f g \<Longrightarrow> blind f (db_stmt env g)"
  by (auto simp: blind_def blind_stmt_def db_stmt_def Let_def swap_tick map_sum_def split: db_fault.split sum.split)

lemma blind_tx:
  assumes "blind f body"
  shows "blind f (db_tx env pre body)"
proof -
  have "db_tx env pre body (f d) = (fst (db_tx env pre body d), f (snd (db_tx env pre body d)))" for d
  proof -
    obtain r0 d0 where p: "db_ping env d = (r0, d0)" by force
    obtain r1 d1 where b: "body d0 = (r1, d1)" by force
    note swapped = blindD [OF blind_ping p] blindD [OF assms b]
    show ?thesis
      by (cases r0; cases r1)
        (simp_all add: db_tx_def p b swapped Let_def swap_tick swap_roll split: db_fault.split)
  qed
  then show ?thesis by (simp add: blind_def)
qed

lemmas blind_intros = blind_return blind_ping blind_wrap blind_then blind_exec blind_in_tx blind_tx

end

section \<open>Three changes of tables\<close>

definition with_hist :: "hist_tables \<Rightarrow> db \<Rightarrow> db" where
  "with_hist h d = d\<lparr>db_hist := h\<rparr>"

text \<open>The tables of the scheduler's cycles, and the migrations, from \<open>x\<close>.\<close>

definition with_orders :: "db \<Rightarrow> db \<Rightarrow> db" where
  "with_orders x d = d\<lparr>db_stg := db_stg x, db_part := db_part x, db_status := db_status x, db_log := db_log x,
     db_applied := db_applied x\<rparr>"

text \<open>All but the ingest log from \<open>x\<close>.\<close>

definition with_tables :: "db \<Rightarrow> db \<Rightarrow> db" where
  "with_tables x d = d\<lparr>db_stg := db_stg x, db_part := db_part x, db_status := db_status x, db_hist := db_hist x,
     db_applied := db_applied x\<rparr>"


interpretation swo: table_swap "with_orders x" for x
  by unfold_locales (simp_all add: with_orders_def rolled_back_def)


section \<open>Cycles and the history\<close>

lemma with_hist_fields [simp]:
  "db_stg (with_hist h d) = db_stg d" "db_part (with_hist h d) = db_part d" "db_status (with_hist h d) = db_status d"
  "db_log (with_hist h d) = db_log d"
  by (simp_all add: with_hist_def)














section \<open>The importer and the orders\<close>

lemma with_orders_hist [simp]: "db_hist (with_orders x d) = db_hist d"
  by (simp add: with_orders_def)



text \<open>The importer's state with the others' tables from \<open>x\<close>.\<close>

definition importer_with :: "db \<Rightarrow> history_st \<Rightarrow> history_st" where
  "importer_with x s = s\<lparr>hi_db := with_orders x (hi_db s)\<rparr>"

lemma importer_small [simp]:
  "hi_now (importer_with x s) = hi_now s" "hi_note job day e (importer_with x s) = importer_with x (hi_note job day e s)"
  "hi_ends job (importer_with x s) = importer_with x (hi_ends job s)"
  "hi_wait t (importer_with x s) = importer_with x (hi_wait t s)"
  by (simp_all add: importer_with_def hi_now_def hi_note_def hi_ends_def hi_wait_def swo.swap_set_now Let_def split: prod.split)








section \<open>Housekeeping and all but the log\<close>

lemma with_tables_log [simp]: "db_log (with_tables x d) = db_log d"
  by (simp add: with_tables_def)






section \<open>Property\<close>


end
