(* ===== verification/Process.thy ===== *)
theory Process
  imports Service_Main
begin

text \<open>
  The life of the process after its start (cmd/marketmanager/main.go, the second half of
  \<open>run\<close>): five goroutines of one errgroup, their common context, and the HTTP server the
  last of them closes. What the goroutines do in between is modelled elsewhere; here they
  run, and return. The errgroup does what its documentation says: the first error is kept
  and cancels the context, and \<open>Wait\<close> returns once all have returned.
\<close>

section \<open>State\<close>

datatype worker = SchedulerG | MaintenanceG | HistoryG | ServerG | ShutdownG

datatype gstate = Running | Returned "gerr option"

record proc =
  ps_ctx :: bool                   \<comment> \<open>the group's context is done\<close>
  ps_closed :: bool                \<comment> \<open>\<open>srv.Shutdown\<close> has been called\<close>
  ps_go :: "worker \<Rightarrow> gstate"
  ps_err :: "gerr option"          \<comment> \<open>the group's first error\<close>

definition proc_init :: proc where
  "proc_init = \<lparr>ps_ctx = False, ps_closed = False, ps_go = (\<lambda>w. Running), ps_err = None\<rparr>"

section \<open>Steps\<close>

datatype pev =
    Signal                         \<comment> \<open>SIGINT or SIGTERM\<close>
  | Close                          \<comment> \<open>the last goroutine calls \<open>srv.Shutdown\<close>\<close>
  | Return worker "gerr option"

text \<open>
  When a goroutine may return, and with what. The three workers return only once their
  context is done, and never an error; the server returns an error at any time, or nil
  for \<open>ErrServerClosed\<close>; \<open>Shutdown\<close> returns nil, or an error when its grace period ends.
\<close>

fun may_return :: "worker \<Rightarrow> gerr option \<Rightarrow> proc \<Rightarrow> bool" where
  "may_return ServerG e s \<longleftrightarrow> (case e of None \<Rightarrow> ps_closed s | Some x \<Rightarrow> True)"
| "may_return ShutdownG e s \<longleftrightarrow> ps_closed s"
| "may_return w e s \<longleftrightarrow> ps_ctx s \<and> e = None"

definition go_return :: "worker \<Rightarrow> gerr option \<Rightarrow> proc \<Rightarrow> proc" where
  "go_return w e s = s\<lparr>ps_go := (ps_go s)(w := Returned e),
     ps_err := (case ps_err s of None \<Rightarrow> e | Some x \<Rightarrow> Some x),
     ps_ctx := (ps_ctx s \<or> e \<noteq> None)\<rparr>"

fun proc_step :: "pev \<Rightarrow> proc \<Rightarrow> proc option" where
  "proc_step Signal s = Some (s\<lparr>ps_ctx := True\<rparr>)"
| "proc_step Close s =
     (if ps_ctx s \<and> \<not> ps_closed s then Some (s\<lparr>ps_closed := True\<rparr>) else None)"
| "proc_step (Return w e) s =
     (if ps_go s w = Running \<and> may_return w e s then Some (go_return w e s) else None)"

fun proc_run :: "pev list \<Rightarrow> proc \<Rightarrow> proc option" where
  "proc_run [] s = Some s"
| "proc_run (e # es) s = (case proc_step e s of None \<Rightarrow> None | Some s1 \<Rightarrow> proc_run es s1)"

definition proc_done :: "proc \<Rightarrow> bool" where
  "proc_done s \<longleftrightarrow> list_all (\<lambda>w. ps_go s w \<noteq> Running) [SchedulerG, MaintenanceG, HistoryG, ServerG, ShutdownG]"

text \<open>
  The process as a whole: what it reports at its end and its exit code, once it has ended.
\<close>

definition process :: "main_env \<Rightarrow> db \<Rightarrow> pev list \<Rightarrow> (gerr list \<times> int) option" where
  "process env d es =
     (case fst (startup env d) of
        Inl e \<Rightarrow> Some (main_exit (Some e))
      | Inr started \<Rightarrow>
          (case proc_run es proc_init of
             None \<Rightarrow> None
           | Some s \<Rightarrow> if proc_done s then Some (main_exit (ps_err s)) else None))"

section \<open>Facts\<close>

text \<open>The scheduler's \<open>Run\<close> returns no error, which is what \<open>may_return\<close> says of it.\<close>

lemma prime_loop_error:
  "prime_loop env c rs s = Some (Some e, s') \<Longrightarrow> ctx_done c (now_of s')"
  by (induction rs arbitrary: s) (auto split: fetched.splits prod.splits option.splits if_splits)

lemma sched_run_no_error: "sched_run env c regions ticks n w = Some (e, s) \<Longrightarrow> e = None"
  by (auto simp: sched_run_def Let_def dest: prime_loop_error split: option.splits if_splits)

lemma proc_run_append:
  "proc_run (es @ es') s = (case proc_run es s of None \<Rightarrow> None | Some s1 \<Rightarrow> proc_run es' s1)"
  by (induction es arbitrary: s) (auto split: option.splits)

text \<open>The group's error and context, in terms of the events so far.\<close>

definition explained :: "pev list \<Rightarrow> proc \<Rightarrow> bool" where
  "explained es s \<longleftrightarrow>
     (ps_ctx s \<longrightarrow> Signal \<in> set es \<or> (\<exists>x. Return ServerG (Some x) \<in> set es)) \<and>
     (ps_closed s \<longrightarrow> ps_ctx s) \<and>
     (\<forall>x. ps_err s = Some x \<longrightarrow> ps_ctx s \<and> (Return ServerG (Some x) \<in> set es \<or> Return ShutdownG (Some x) \<in> set es)) \<and>
     (\<forall>w. ps_go s w \<noteq> Running \<longrightarrow> ps_ctx s) \<and>
     (\<forall>w x. Return w (Some x) \<in> set es \<longrightarrow> ps_err s \<noteq> None)"

lemma may_return_error: "may_return w (Some x) s \<Longrightarrow> w = ServerG \<or> w = ShutdownG \<and> ps_closed s"
  by (cases w) auto

lemma may_return_nil: "may_return w None s \<Longrightarrow> ps_ctx s \<or> ps_closed s"
  by (cases w) auto

lemma proc_step_explained:
  assumes "explained es s" "proc_step ev s = Some s'"
  shows "explained (es @ [ev]) s'"
proof (cases ev)
  case (Return w e)
  with assms(2) have r: "ps_go s w = Running" "may_return w e s" "s' = go_return w e s"
    by (auto split: if_splits)
  show ?thesis
  proof (cases e)
    case None
    with may_return_nil r(2) assms(1) have c: "ps_ctx s" by (auto simp: explained_def)
    with assms(1) show ?thesis
      by (auto simp: explained_def r(3) None Return go_return_def split: option.splits)
  next
    case (Some x)
    with may_return_error r(2) assms(1) show ?thesis
      by (auto simp: explained_def r(3) Some Return go_return_def split: option.splits)
  qed
qed (use assms in \<open>auto simp: explained_def split: if_splits\<close>)

lemma proc_run_explained: "proc_run es proc_init = Some s \<Longrightarrow> explained es s"
proof (induction es arbitrary: s rule: rev_induct)
  case Nil
  then have "s = proc_init" by simp
  then show ?case by (simp add: explained_def proc_init_def)
next
  case (snoc ev es)
  then obtain s1 where "proc_run es proc_init = Some s1" "proc_step ev s1 = Some s"
    by (auto simp: proc_run_append split: option.splits)
  with snoc.IH proc_step_explained show ?case by blast
qed

text \<open>Once the context is done, what is still running can return, one goroutine after the other.\<close>

definition finish_events :: "proc \<Rightarrow> pev list" where
  "finish_events s = (if ps_closed s then [] else [Close]) @
     map (\<lambda>w. Return w None) (filter (\<lambda>w. ps_go s w = Running) [SchedulerG, MaintenanceG, HistoryG, ServerG, ShutdownG])"

lemma proc_finishes:
  assumes "ps_ctx s"
  shows "\<exists>s'. proc_run (finish_events s) s = Some s' \<and> proc_done s' \<and> ps_err s' = ps_err s"
proof -
  have returns: "\<exists>s'. proc_run (map (\<lambda>w. Return w None) ws) t = Some s' \<and> ps_err s' = ps_err t \<and>
      (\<forall>w. ps_go s' w = (if w \<in> set ws then Returned None else ps_go t w))"
    if "ps_ctx t" "ps_closed t" "distinct ws" "\<forall>w \<in> set ws. ps_go t w = Running" for ws t
    using that
  proof (induction ws arbitrary: t)
    case (Cons w ws)
    have "may_return w None t" using Cons.prems(1,2) by (cases w) simp_all
    then have st: "proc_step (Return w None) t = Some (go_return w None t)" using Cons.prems(4) by simp
    have f: "ps_ctx (go_return w None t)" "ps_closed (go_return w None t)" "ps_err (go_return w None t) = ps_err t"
      "\<And>v. ps_go (go_return w None t) v = (if v = w then Returned None else ps_go t v)"
      using Cons.prems(1,2) by (simp_all add: go_return_def split: option.split)
    have ws: "distinct ws" "\<forall>v \<in> set ws. ps_go (go_return w None t) v = Running" using Cons.prems(3,4) f(4) by auto
    obtain s' where s': "proc_run (map (\<lambda>w. Return w None) ws) (go_return w None t) = Some s'"
      "ps_err s' = ps_err (go_return w None t)"
      "\<forall>v. ps_go s' v = (if v \<in> set ws then Returned None else ps_go (go_return w None t) v)"
      using Cons.IH [OF f(1,2) ws] by (elim exE conjE) (rule that)
    have "proc_run (map (\<lambda>w. Return w None) (w # ws)) t = Some s'" using st s'(1) by simp
    with s'(2,3) f(3,4) show ?case by (intro exI [of _ s']) simp
  qed simp
  let ?t = "s\<lparr>ps_closed := True\<rparr>" and ?ws = "filter (\<lambda>w. ps_go s w = Running) [SchedulerG, MaintenanceG, HistoryG, ServerG, ShutdownG]"
  have "ps_ctx ?t" "ps_closed ?t" "distinct ?ws" "\<forall>w \<in> set ?ws. ps_go ?t w = Running" using assms by simp_all
  from returns [OF this] obtain s' where
    s': "proc_run (map (\<lambda>w. Return w None) ?ws) ?t = Some s'" "ps_err s' = ps_err ?t"
      "\<forall>w. ps_go s' w = (if w \<in> set ?ws then Returned None else ps_go ?t w)" by (elim exE conjE) (rule that)
  have "proc_done s'" unfolding proc_done_def list_all_iff s'(3) [rule_format] by simp
  moreover have "proc_run (if ps_closed s then [] else [Close]) s = Some ?t" using assms by (cases "ps_closed s") simp_all
  then have "proc_run (finish_events s) s = Some s'"
    unfolding finish_events_def proc_run_append by (simp only: option.case s'(1))
  ultimately show ?thesis using s'(2) by (intro exI [of _ s']) simp
qed

end
