(* ===== verification/Main_Props.thy ===== *)
theory Main_Props
  imports Process Cycle_Props Sched_Laws Drift
begin

text \<open>
  Properties of the process as a whole: what a validated configuration guarantees, what a
  successful start leaves behind, the migrations; and two of the store and the fetcher
  that the other theories rest on.
\<close>

section \<open>Configuration\<close>

definition demo_sys :: sys_env where
  "demo_sys = \<lparr>sy_getenv = (\<lambda>k. if k = ''DATABASE_URL'' then ''postgres://x'' else if k = ''USER_AGENT'' then ''mm a@b.c''
       else if k = ''FETCH_CONCURRENCY'' then ''4'' else []),
     sy_parse_duration = (\<lambda>s. Inl (EText ''unused'')), sy_parse_float = (\<lambda>s. Inl (EText ''unused''))\<rparr>"

lemma demo_load: "\<exists>c. Load demo_sys = Inr c \<and> cf_fetch_concurrency c = 4 \<and> cf_history_backfill_days c = 730"
  by (simp add: Load_def read_config_def demo_sys_def env_duration_def env_float_def env_int_def env_string_def
      attempt_def atoi_def is_digit_def digit_val_def int64_ok_def refusals_def parse_log_level_def lower_char_def
      unit_defs)

text \<open>
  C10: a configuration that \<open>Load\<close> accepts keeps the service from panicking or hanging on
  it. Every bound the switch checks holds; the jitter argument of \<open>rand.Int64N\<close> is always
  positive; every ticker's interval is; and with the slots and attempts it sets every
  cycle can be brought to its end.
\<close>
theorem config_prevents_panics:
  assumes "Load sy = Inr c"
  shows "config_ok c \<and> 0 < hc_poll_interval (history_cfg_of c) \<and> 0 < mc_prune_interval (maint_cfg_of c) \<and>
    0 < mc_analyze_interval (maint_cfg_of c) \<and>
    (\<forall>env i exp s. se_cfg env = sched_cfg_of c \<longrightarrow> set_next_due env i exp s \<noteq> None) \<and>
    (\<forall>ctx r d es n s. pipe_run (cycle_pcfg (cycle_of c cd env t) ctx r d) es (pipe_init n) = Some s \<longrightarrow>
       (\<exists>es' e. cycle_run (cycle_of c cd env t) ctx r (es @ es') n d = Some e))"
proof (intro conjI allI impI)
  show ok: "config_ok c" using Load_ok [OF assms] by simp
  then show "0 < hc_poll_interval (history_cfg_of c)" "0 < mc_prune_interval (maint_cfg_of c)"
    "0 < mc_analyze_interval (maint_cfg_of c)"
    by (simp_all add: config_ok_def history_cfg_of_def maint_cfg_of_def)
  fix env :: "'w sched_env" and i exp s
  assume "se_cfg env = sched_cfg_of c"
  then have "0 < wrap64 (sc_max_jitter (se_cfg env) + 1)" by (simp add: sched_cfg_of_def unit_defs wrap64_def)
  with set_next_due_total [of env i exp s] show "set_next_due env i exp s \<noteq> None" by auto
next
  fix ctx r d es n s
  assume run: "pipe_run (cycle_pcfg (cycle_of c cd env t) ctx r d) es (pipe_init n) = Some s"
  have "1 \<le> cy_conc (cycle_of c cd env t)" "1 \<le> ft_page_attempts (cy_fetcher (cycle_of c cd env t))"
    using Load_ok(1) [OF assms] by (simp_all add: config_ok_def cycle_of_def new_cycle_def fetcher_of_def new_fetcher_def)
  from cycle_completes [OF run this] show "\<exists>es' e. cycle_run (cycle_of c cd env t) ctx r (es @ es') n d = Some e" .
qed

theorem config_prevents_panics_witness:
  "\<exists>c. Load demo_sys = Inr c \<and> 1 \<le> cf_page_attempts c \<and> cf_budget_floor c \<le> cf_budget_reserve c"
proof -
  obtain c where c: "Load demo_sys = Inr c" using demo_load by blast
  from config_prevents_panics [OF c] have "config_ok c" by blast
  with c show ?thesis by (auto simp: config_ok_def)
qed

text \<open>A rate that is not a number passes the check meant to keep out rates that are not positive.\<close>

lemma nan_rate_accepted:
  "\<exists>c. Load (demo_sys\<lparr>sy_getenv := (\<lambda>k. if k = ''FETCH_RPS'' then ''NaN'' else sy_getenv demo_sys k),
      sy_parse_float := (\<lambda>s. Inr FNaN)\<rparr>) = Inr c \<and> cf_fetch_rps c = FNaN"
  by (simp add: Load_def read_config_def demo_sys_def env_duration_def env_float_def env_int_def env_string_def
      attempt_def atoi_def is_digit_def digit_val_def int64_ok_def refusals_def parse_log_level_def lower_char_def
      unit_defs)

section \<open>Start\<close>



















section \<open>The life of the process\<close>




text \<open>
  C31: setting the regions up is safe to repeat. Whatever fails on the way, no order, no
  history and no log row of an existing region changes, only missing tables and rows are
  added and names and priorities refreshed; and once it has succeeded, doing it again
  changes nothing at all.
\<close>
theorem ensure_regions_repeatable:
  assumes "ensure_region_objects env rs d = (r, d')" "distinct (map rg_id rs)"
  shows "(\<forall>i rows. db_part d i = Some rows \<longrightarrow> db_part d' i = Some rows) \<and>
    (\<forall>i row. db_status d i = Some row \<longrightarrow> (\<exists>nm p. db_status d' i = Some (row\<lparr>st_name := nm, st_priority := p\<rparr>))) \<and>
    db_hist d' = db_hist d \<and> db_log d' = db_log d \<and> (db_ok d \<longrightarrow> db_ok d') \<and>
    (r = Inr () \<longrightarrow> same_tables d' (snd (ensure_region_objects env' rs d')))"
proof (intro conjI)
  have g: "grown d d'" using ensure_grown [of d env rs] assms(1) by simp
  then have k: "kept_rows (db_part d i) (db_part d' i)" "kept_status (db_status d i) (db_status d' i)" for i
    by (simp_all add: grown_def)
  show "\<forall>i rows. db_part d i = Some rows \<longrightarrow> db_part d' i = Some rows"
    using k(1) unfolding kept_rows_def by (metis option.distinct(1))
  show "\<forall>i row. db_status d i = Some row \<longrightarrow> (\<exists>nm p. db_status d' i = Some (row\<lparr>st_name := nm, st_priority := p\<rparr>))"
    using k(2) unfolding kept_status_def by blast
  show "db_hist d' = db_hist d" "db_log d' = db_log d" using g by (simp_all add: grown_def)
  show "db_ok d \<longrightarrow> db_ok d'" using grown_ok [OF g] by blast
  show "r = Inr () \<longrightarrow> same_tables d' (snd (ensure_region_objects env' rs d'))"
    using ensure_settles [of env rs d _ d'] assms by (intro impI ensure_settled) auto
qed

theorem ensure_regions_repeatable_witness:
  "\<exists>d'. ensure_region_objects demo_env [demo_region] demo_db = (Inr (), d') \<and> db_part d' 7 = Some [] \<and>
     same_tables d' (snd (ensure_region_objects demo_env [demo_region] d'))"
proof -
  have "fst (ensure_region_objects demo_env [demo_region] demo_db) = Inr ()" by code_simp
  then obtain d' where e: "ensure_region_objects demo_env [demo_region] demo_db = (Inr (), d')" by (metis prod.collapse)
  have "db_part demo_db 7 = Some []" by (simp add: demo_db_def)
  with ensure_regions_repeatable [OF e, of demo_env] e show ?thesis by (intro exI [of _ d']) simp
qed

section \<open>Migrations\<close>



section \<open>Delta and rebuild\<close>






end
