(* ===== verification/Reporting.thy ===== *)
theory Reporting
  imports Process
begin

text \<open>
  The outer shell of cmd/marketmanager/main.go: the flag \<open>-healthcheck\<close>, the optional file
  \<open>.env\<close>, the start of error reporting, and what becomes of a panic. The SDK is a library:
  \<open>init\<close> says whether it accepts its options.
\<close>

section \<open>The file .env\<close>

datatype env_file =
    NoFile                               \<comment> \<open>\<open>os.Stat\<close> fails\<close>
  | BadFile gerr                         \<comment> \<open>it cannot be read or parsed; nothing is set\<close>
  | EnvFile "(string \<times> string) list"     \<comment> \<open>its lines, in order\<close>

text \<open>
  \<open>godotenv.Load\<close> sets what the process environment does not set already; of two lines for
  one key the later counts. \<open>isset\<close> tells an unset variable from an empty one.
\<close>

definition load_env_file :: "env_file \<Rightarrow> (string \<Rightarrow> bool) \<Rightarrow> sys_env \<Rightarrow> sys_env" where
  "load_env_file file isset sy =
     (case file of
        NoFile \<Rightarrow> sy
      | BadFile e \<Rightarrow> sy
      | EnvFile kv \<Rightarrow> sy\<lparr>sy_getenv := (\<lambda>k.
          if isset k then sy_getenv sy k
          else case map_of (rev kv) k of None \<Rightarrow> sy_getenv sy k | Some v \<Rightarrow> v)\<rparr>)"

section \<open>Error reporting\<close>

record sentry_options =
  so_dsn :: string
  so_stack :: bool
  so_environment :: string
  so_release :: string

datatype sentry = Silent | Reporting sentry_options

text \<open>\<open>initSentry\<close>: the state of the SDK, and the lines logged.\<close>

definition init_sentry :: "(sentry_options \<Rightarrow> gerr option) \<Rightarrow> sys_env \<Rightarrow> sentry \<times> string list" where
  "init_sentry init sy =
     (let dsn = sy_getenv sy ''BUGSINK_DSN'' in
      if dsn = [] then (Silent, [])
      else
        let opts = \<lparr>so_dsn = dsn, so_stack = True, so_environment = ''production'', so_release = sentry_release sy\<rparr>
        in case init opts of
             Some e \<Rightarrow> (Silent, [''sentry init failed; check BUGSINK_DSN''])
           | None \<Rightarrow> (Reporting opts, [''error reporting enabled'']))"

definition sent :: "sentry \<Rightarrow> 'e list \<Rightarrow> 'e list" where
  "sent st events = (case st of Silent \<Rightarrow> [] | Reporting opts \<Rightarrow> events)"

text \<open>
  \<open>capturePanic\<close>, deferred at the end of a goroutine: given the panic in flight, if there is
  one, what is reported, and the panic that goes on.
\<close>

definition capture_panic :: "sentry \<Rightarrow> string \<Rightarrow> 'p option \<Rightarrow> (string \<times> 'p) list \<times> 'p option" where
  "capture_panic st component r =
     (case r of None \<Rightarrow> ([], None) | Some p \<Rightarrow> (sent st [(component, p)], Some p))"

section \<open>main\<close>

text \<open>What leaves the process: the errors reported and the exit code; \<open>None\<close> while it runs.\<close>

definition main_entry :: "bool \<Rightarrow> (string \<Rightarrow> int option) \<Rightarrow> env_file \<Rightarrow> (string \<Rightarrow> bool) \<Rightarrow>
    (sentry_options \<Rightarrow> gerr option) \<Rightarrow> main_env \<Rightarrow> db \<Rightarrow> pev list \<Rightarrow> (gerr list \<times> int) option" where
  "main_entry healthcheck dial file isset init env d es =
     (if healthcheck then Some ([], health_probe (mn_sys env) dial)
      else
        let sy = load_env_file file isset (mn_sys env); (st, logged) = init_sentry init sy
        in map_option (\<lambda>(errs, code). (sent st errs, code)) (process (env\<lparr>mn_sys := sy\<rparr>) d es))"

section \<open>Facts\<close>

text \<open>The environment wins over the file, and without a file nothing changes.\<close>

lemma env_file_never_overrides: "isset k \<Longrightarrow> sy_getenv (load_env_file file isset sy) k = sy_getenv sy k"
  by (simp add: load_env_file_def split: env_file.split)

lemma env_file_readers [simp]:
  "sy_parse_duration (load_env_file file isset sy) = sy_parse_duration sy"
  "sy_parse_float (load_env_file file isset sy) = sy_parse_float sy"
  by (simp_all add: load_env_file_def split: env_file.split)

text \<open>The DSN is a write credential: what is logged does not depend on it, only on whether it is there and accepted.\<close>

lemma dsn_stays_secret:
  assumes "sy_getenv sy ''BUGSINK_DSN'' \<noteq> []" "sy_getenv sy' ''BUGSINK_DSN'' \<noteq> []"
    "fst (init_sentry init sy) = Silent \<longleftrightarrow> fst (init_sentry init sy') = Silent"
  shows "snd (init_sentry init sy) = snd (init_sentry init sy')"
  using assms by (auto simp: init_sentry_def Let_def split: option.splits)

text \<open>No panic is swallowed, so the process dies of it and is restarted.\<close>

lemma panic_goes_on: "snd (capture_panic st component r) = r"
  by (simp add: capture_panic_def split: option.split)

text \<open>
  The probe is answered before \<open>.env\<close> is read and needs nothing but \<open>HTTP_ADDR\<close>; the service
  reads its address after. An address that only the file sets is served and not probed.
\<close>

lemma probe_needs_only_address:
  assumes "sy_getenv (mn_sys env) ''HTTP_ADDR'' = sy_getenv (mn_sys env') ''HTTP_ADDR''"
  shows "main_entry True dial file isset init env d es = main_entry True dial file' isset' init' env' d' es'"
  using assms by (simp add: main_entry_def health_probe_def probe_port_def env_string_def)

lemma probe_ignores_env_file:
  assumes "sy_getenv (mn_sys env) ''HTTP_ADDR'' = []" "\<not> isset ''HTTP_ADDR''"
    "dial (probe_url 8080) = None"
  shows "env_string (load_env_file (EnvFile [(''HTTP_ADDR'', '':9090'')]) isset (mn_sys env)) ''HTTP_ADDR'' '':8080'' = '':9090'' \<and>
    main_entry True dial (EnvFile [(''HTTP_ADDR'', '':9090'')]) isset init env d es = Some ([], 1)"
proof -
  have "split_port '':8080'' = Some ''8080''" by code_simp
  moreover have "atoi ''8080'' = Some 8080" by code_simp
  ultimately have "probe_port (mn_sys env) = Some 8080"
    using assms(1) by (simp add: probe_port_def env_string_def)
  with assms(3) have "health_probe (mn_sys env) dial = 1" by (simp add: health_probe_def)
  with assms(1,2) show ?thesis by (simp add: main_entry_def load_env_file_def env_string_def)
qed

end
