(* ===== verification/Sql_Text.thy ===== *)
theory Sql_Text
  imports Orders_Store
begin

text \<open>
  The statements of internal/store/orders.go as texts. \<open>applySQL\<close> assembles its statement
  from two column lists; Orders_Store says what the statement does to rows. The first half
  of this theory is the text, the second half that the row operations are those the lists
  denote: no column is compared, set or copied that they do not name, and none is missed.
\<close>

section \<open>Columns\<close>

definition orderCols :: "string list" where
  "orderCols = [''region_id'', ''order_id'', ''type_id'', ''location_id'', ''system_id'', ''is_buy_order'',
     ''price'', ''volume_remain'', ''volume_total'', ''min_volume'', ''duration'', ''range'', ''issued'']"

definition compareCols :: "string list" where
  "compareCols = [''type_id'', ''location_id'', ''system_id'', ''is_buy_order'', ''price'',
     ''volume_remain'', ''volume_total'', ''min_volume'', ''duration'', ''range'', ''issued'']"

section \<open>Pieces of text\<close>

definition quote_alias :: "string \<Rightarrow> string" where
  "quote_alias c = (if c = ''range'' then quoted ''range'' else c)"

definition quote_all :: "string list \<Rightarrow> string list" where
  "quote_all cols = map quoted cols"

definition quote_char :: char where
  "quote_char = CHR 0x27"

text \<open>\<open>quoteLiteral\<close>: every quote doubled, between two quotes.\<close>

definition quote_literal :: "string \<Rightarrow> string" where
  "quote_literal s =
     quote_char # concat (map (\<lambda>c. if c = quote_char then [quote_char, quote_char] else [c]) s) @ [quote_char]"

text \<open>\<open>strings.Join(parts, ", ")\<close>.\<close>

fun join_comma :: "string list \<Rightarrow> string" where
  "join_comma [] = []"
| "join_comma [x] = x"
| "join_comma (x # xs) = x @ '', '' @ join_comma xs"

definition select_aliases :: string where
  "select_aliases = join_comma [''s.'' @ quote_alias c. c \<leftarrow> orderCols, c \<noteq> ''order_id'']"

section \<open>The statements\<close>

definition distinct_projection :: string where
  "distinct_projection = join_comma [''s.'' @ quoted c @ '' AS '' @ quote_alias c. c \<leftarrow> orderCols, c \<noteq> ''order_id'']"

definition staged_values :: string where
  "staged_values = join_comma [''s.'' @ quote_alias c. c \<leftarrow> compareCols]"

definition live_values :: string where
  "live_values = join_comma [''l.'' @ quoted c. c \<leftarrow> compareCols]"

definition set_clause :: string where
  "set_clause = join_comma [quoted c @ '' = d.'' @ quote_alias c. c \<leftarrow> compareCols]"

definition insert_columns :: string where
  "insert_columns = join_comma [quoted c. c \<leftarrow> orderCols]"

definition insert_values :: string where
  "insert_values = join_comma [if c = ''order_id'' then ''d.oid'' else ''d.'' @ quote_alias c. c \<leftarrow> orderCols]"

definition lines_text :: "string list \<Rightarrow> string" where
  "lines_text ls = concat (map (\<lambda>l. char_of (10::nat) # l) ls)"

text \<open>The operation codes of the delta, as SQL literals.\<close>

definition sql_op :: "string \<Rightarrow> string" where
  "sql_op c = quote_char # c @ [quote_char]"

definition apply_sql_text :: "int \<Rightarrow> string" where
  "apply_sql_text rg =
     (let part = Schema @ ''.'' @ partition_name rg; staging = Schema @ ''.'' @ staging_name rg
      in lines_text
       [''WITH s AS ('',
        ''    SELECT DISTINCT ON (order_id) order_id AS oid, '' @ distinct_projection,
        ''    FROM '' @ staging @ '' s ORDER BY order_id'',
        ''),'',
        ''d AS MATERIALIZED ('',
        ''    SELECT CASE WHEN l.order_id IS NULL THEN '' @ sql_op ''I'',
        ''                WHEN s.oid IS NULL      THEN '' @ sql_op ''D'',
        ''                ELSE 'U' END AS op,'',
        ''           COALESCE(s.oid, l.order_id) AS oid, '' @ select_aliases,
        ''    FROM s FULL OUTER JOIN '' @ part @ '' l ON l.order_id = s.oid'',
        ''    WHERE l.order_id IS NULL OR s.oid IS NULL'',
        ''       OR ('' @ staged_values @ '') IS DISTINCT FROM ('' @ live_values @ '')'',
        ''),'',
        ''del AS ('',
        ''    DELETE FROM '' @ part @ '' l USING d WHERE d.op = 'D' AND l.order_id = d.oid RETURNING 1'',
        ''),'',
        ''upd AS ('',
        ''    UPDATE '' @ part @ '' l SET '' @ set_clause @ '' FROM d'',
        ''    WHERE d.op = 'U' AND l.region_id = d.region_id AND l.order_id = d.oid RETURNING 1'',
        ''),'',
        ''ins AS ('',
        ''    INSERT INTO '' @ part @ '' ('' @ insert_columns @ '') SELECT '' @ insert_values @ '' FROM d WHERE d.op = 'I' RETURNING 1'',
        '')'',
        ''SELECT (SELECT count(*) FROM ins), (SELECT count(*) FROM upd), (SELECT count(*) FROM del)''])"

definition resync_insert_text :: "int \<Rightarrow> string" where
  "resync_insert_text rg =
     (let part = Schema @ ''.'' @ partition_name rg; staging = Schema @ ''.'' @ staging_name rg;
          cols = join_comma (quote_all orderCols)
      in ''INSERT INTO '' @ part @ '' ('' @ cols @ '') SELECT DISTINCT ON (order_id) '' @ cols @ '' FROM '' @ staging @
         '' ORDER BY order_id'')"

definition work_mem_text :: "string \<Rightarrow> string" where
  "work_mem_text w = ''SET LOCAL work_mem = '' @ quote_literal w"

section \<open>A quoted literal is one literal\<close>

text \<open>
  How PostgreSQL reads the inside of a string constant: two quotes in a row are one quote
  of the value, a single one ends it. The result is the value and the text after it.
\<close>

fun literal_body :: "string \<Rightarrow> (string \<times> string) option" where
  "literal_body [] = None"
| "literal_body [c] = (if c = quote_char then Some ([], []) else None)"
| "literal_body (c # d # t) =
     (if c = quote_char then
        (if d = quote_char then map_option (\<lambda>(v, r). (quote_char # v, r)) (literal_body t) else Some ([], d # t))
      else map_option (\<lambda>(v, r). (c # v, r)) (literal_body (d # t)))"

definition read_literal :: "string \<Rightarrow> (string \<times> string) option" where
  "read_literal s = (case s of [] \<Rightarrow> None | c # t \<Rightarrow> if c = quote_char then literal_body t else None)"

lemma literal_body_plain:
  "c \<noteq> quote_char \<Longrightarrow> literal_body (c # t) = map_option (\<lambda>(v, r). (c # v, r)) (literal_body t)"
  by (cases t) auto

lemma literal_body_quoted:
  assumes "rest = [] \<or> hd rest \<noteq> quote_char"
  shows "literal_body (concat (map (\<lambda>c. if c = quote_char then [quote_char, quote_char] else [c]) s) @ quote_char # rest)
    = Some (s, rest)"
proof (induction s)
  case Nil
  with assms show ?case by (cases rest) auto
next
  case (Cons c s)
  then show ?case by (cases "c = quote_char") (simp_all add: literal_body_plain)
qed

text \<open>
  Whatever \<open>DELTA_WORK_MEM\<close> holds, the statement sets one value and nothing of it is read as SQL.
\<close>

lemma quote_literal_read:
  assumes "rest = [] \<or> hd rest \<noteq> quote_char"
  shows "read_literal (quote_literal s @ rest) = Some (s, rest)"
  using literal_body_quoted [OF assms] by (simp add: read_literal_def quote_literal_def)

section \<open>Rows by column\<close>

datatype sql_value = SqlInt int | SqlBool bool | SqlNumeric int | SqlText string | SqlStamp time

text \<open>The value of a row in the column of that name.\<close>

definition col :: "order_row \<Rightarrow> string \<Rightarrow> sql_value option" where
  "col r c =
     map_of [(''region_id'', SqlInt (or_region r)), (''order_id'', SqlInt (or_order r)), (''type_id'', SqlInt (or_type r)),
       (''location_id'', SqlInt (or_location r)), (''system_id'', SqlInt (or_system r)), (''is_buy_order'', SqlBool (or_buy r)),
       (''price'', SqlNumeric (or_price r)), (''volume_remain'', SqlInt (or_volume_remain r)),
       (''volume_total'', SqlInt (or_volume_total r)), (''min_volume'', SqlInt (or_min_volume r)),
       (''duration'', SqlInt (or_duration r)), (''range'', SqlText (or_range r)), (''issued'', SqlStamp (or_issued r))] c"

lemma orderCols_all: "col r c \<noteq> None \<longleftrightarrow> c \<in> set orderCols"
  by (simp add: col_def orderCols_def)

lemma compareCols_are: "set compareCols = set orderCols - {''region_id'', ''order_id''}"
  unfolding compareCols_def orderCols_def by auto

text \<open>A row is what its columns are.\<close>

lemma row_by_columns: "(\<forall>c \<in> set orderCols. col r c = col q c) \<longleftrightarrow> r = q" for r q :: order_row
  by (cases r; cases q) (simp add: orderCols_def col_def)

text \<open>The comparison of the delta, column by column.\<close>

lemma compare_by_columns: "compare_cols r = compare_cols q \<longleftrightarrow> (\<forall>c \<in> set compareCols. col r c = col q c)"
  by (simp add: compareCols_def col_def compare_cols_def)

text \<open>The update sets the columns of the list to the delta's values and no other.\<close>

lemma update_by_columns:
  "col (set_compare_cols d l) c = (if c \<in> set compareCols then col d c else col l c)"
  by (simp add: compareCols_def col_def set_compare_cols_def)

text \<open>An update that matched on both key columns leaves the very row that was staged.\<close>

lemma update_is_staged:
  assumes "col l ''region_id'' = col d ''region_id''" "col l ''order_id'' = col d ''order_id''"
  shows "set_compare_cols d l = d"
proof -
  have "\<forall>c \<in> set orderCols. col (set_compare_cols d l) c = col d c"
    using assms compareCols_are by (auto simp: update_by_columns)
  then show ?thesis by (simp only: row_by_columns)
qed

end
