(* ===== verification/Sentry_Sink.thy ===== *)
theory Sentry_Sink
  imports Prelude
begin

text \<open>
  internal/sentrytest/sentrytest.go: a transport that records events, and \<open>Capture\<close>, which
  points the global hub at one and registers a cleanup that puts the previous client back.
  Tests may nest it, so the sinks live in a store and the cleanups on a stack.
\<close>

section \<open>State\<close>

text \<open>The client of the hub: one built on a sink, by its address, or whatever was there before.\<close>

datatype hub_client = Unbound | Foreign nat | OnSink nat

record 'e hub =
  hub_client :: hub_client
  hub_sinks :: "'e list list"            \<comment> \<open>\<open>Sink.events\<close>, by address\<close>
  hub_cleanups :: "hub_client list"      \<comment> \<open>the \<open>prev\<close> of each pending \<open>t.Cleanup\<close>, the last first\<close>

section \<open>Operations\<close>

text \<open>\<open>Sink.SendEvent\<close> and \<open>Sink.Captured\<close>, each in one critical section; the latter copies.\<close>

definition sink_send_event :: "nat \<Rightarrow> 'e \<Rightarrow> 'e hub \<Rightarrow> 'e hub" where
  "sink_send_event a e h = h\<lparr>hub_sinks := (hub_sinks h)[a := hub_sinks h ! a @ [e]]\<rparr>"

definition sink_captured :: "nat \<Rightarrow> 'e hub \<Rightarrow> 'e list" where
  "sink_captured a h = hub_sinks h ! a"

text \<open>\<open>sentry.CaptureException\<close> through the hub: only a client built on a sink reaches one.\<close>

definition hub_capture :: "'e \<Rightarrow> 'e hub \<Rightarrow> 'e hub" where
  "hub_capture e h = (case hub_client h of OnSink a \<Rightarrow> sink_send_event a e h | _ \<Rightarrow> h)"

text \<open>\<open>Capture\<close>: \<open>None\<close> where \<open>t.Fatalf\<close> ends the test, the hub untouched.\<close>

definition sink_capture :: "bool \<Rightarrow> 'e hub \<Rightarrow> nat option \<times> 'e hub" where
  "sink_capture client_ok h =
     (let a = length (hub_sinks h); h1 = h\<lparr>hub_sinks := hub_sinks h @ [[]]\<rparr> in
      if \<not> client_ok then (None, h1)
      else (Some a, h1\<lparr>hub_client := OnSink a, hub_cleanups := hub_client h # hub_cleanups h\<rparr>))"

text \<open>The end of the tests: the cleanups run, the last registered first.\<close>

definition run_cleanups :: "'e hub \<Rightarrow> 'e hub" where
  "run_cleanups h = h\<lparr>hub_client := foldl (\<lambda>c prev. prev) (hub_client h) (hub_cleanups h), hub_cleanups := []\<rparr>"

section \<open>Facts\<close>

text \<open>What a test does to the hub: it captures, and the code under test reports.\<close>

datatype 'e hub_op = Capture bool | Event 'e

primrec hub_step :: "'e hub_op \<Rightarrow> 'e hub \<Rightarrow> 'e hub" where
  "hub_step (Capture ok) h = snd (sink_capture ok h)"
| "hub_step (Event e) h = hub_capture e h"

definition hub_steps :: "'e hub_op list \<Rightarrow> 'e hub \<Rightarrow> 'e hub" where
  "hub_steps ops h = fold hub_step ops h"

text \<open>The client that was there first is at the bottom of the stack, so it is the last put back.\<close>

definition base_client :: "'e hub \<Rightarrow> hub_client" where
  "base_client h = last (hub_client h # hub_cleanups h)"

lemma foldl_last: "foldl (\<lambda>c prev. prev) c ps = last (c # ps)"
  by (induction ps arbitrary: c) auto

lemma hub_step_base: "base_client (hub_step op h) = base_client h"
  by (cases op) (simp_all add: base_client_def sink_capture_def hub_capture_def sink_send_event_def Let_def split: hub_client.split)

lemma captures_restored:
  assumes "hub_cleanups h = []"
  shows "hub_client (run_cleanups (hub_steps ops h)) = hub_client h"
proof -
  have "base_client (hub_steps ops h) = base_client h"
    unfolding hub_steps_def by (induction ops arbitrary: h) (simp_all add: hub_step_base)
  with assms show ?thesis by (simp add: run_cleanups_def foldl_last base_client_def)
qed

text \<open>A sink holds what was reported while its client was bound, in order, and nothing else.\<close>

lemma sink_sees:
  assumes "hub_client h = OnSink a" "a < length (hub_sinks h)"
  shows "hub_steps (map Event es) h = h\<lparr>hub_sinks := (hub_sinks h)[a := sink_captured a h @ es]\<rparr>"
  using assms unfolding hub_steps_def
proof (induction es arbitrary: h)
  case (Cons e es)
  let ?h = "hub_capture e h"
  have h: "?h = h\<lparr>hub_sinks := (hub_sinks h)[a := hub_sinks h ! a @ [e]]\<rparr>"
    using Cons.prems by (simp add: hub_capture_def sink_send_event_def)
  have "fold hub_step (map Event es) ?h = ?h\<lparr>hub_sinks := (hub_sinks ?h)[a := sink_captured a ?h @ es]\<rparr>"
    by (rule Cons.IH) (use Cons.prems h in simp_all)
  with h show ?case using Cons.prems by (simp add: sink_captured_def)
qed (simp add: sink_captured_def)

lemma capture_sees:
  assumes "sink_capture ok h = (Some a, h')"
  shows "sink_captured a (hub_steps (map Event es) h') = es"
    and "b < length (hub_sinks h) \<Longrightarrow> sink_captured b (hub_steps (map Event es) h') = sink_captured b h"
proof -
  have h': "hub_client h' = OnSink a" "a = length (hub_sinks h)" "hub_sinks h' = hub_sinks h @ [[]]"
    using assms by (auto simp: sink_capture_def Let_def split: if_splits)
  have "hub_steps (map Event es) h' = h'\<lparr>hub_sinks := (hub_sinks h')[a := sink_captured a h' @ es]\<rparr>"
    by (rule sink_sees) (simp_all add: h')
  then show "sink_captured a (hub_steps (map Event es) h') = es"
    "b < length (hub_sinks h) \<Longrightarrow> sink_captured b (hub_steps (map Event es) h') = sink_captured b h"
    by (simp_all add: sink_captured_def h' nth_append)
qed

end
